(* ===== verification/Prelude.thy ===== *)
theory Prelude
  imports Main "HOL-Library.AList"
begin

text \<open>
  Shared vocabulary of the development: Go strings as byte lists, the error trees that
  \<^verbatim>\<open>fmt.Errorf\<close> builds with \<^verbatim>\<open>%w\<close> and the two ways the program inspects them
  (\<^verbatim>\<open>errors.Is\<close>, \<^verbatim>\<open>errors.As\<close>), and the small part of the packages
  \<^verbatim>\<open>strings\<close> and \<^verbatim>\<open>strconv\<close> that several components call.

  A Go string is a sequence of bytes; it is a \<^typ>\<open>string\<close> here, one \<^typ>\<open>char\<close> per byte.
  A Go function that returns \<open>(T, error)\<close> returns \<open>error + 'a\<close>; one that returns only an
  \<open>error\<close> returns \<open>error option\<close>, where \<^term>\<open>None\<close> is \<^verbatim>\<open>nil\<close>.
\<close>

section \<open>Errors\<close>

text \<open>
  The sentinel values the program compares errors with: its own (\<^verbatim>\<open>var Err... =
  errors.New(...)\<close> in the packages cache, runner, authflow) and those of the packages it uses
  (\<^verbatim>\<open>flag.ErrHelp\<close>, \<^verbatim>\<open>os.ErrNotExist\<close>, \<^verbatim>\<open>keyring.ErrNotFound\<close>,
  \<^verbatim>\<open>keyring.ErrUnsupportedPlatform\<close>, and the error of a done context).
\<close>

datatype sentinel =
    ErrBackendUnavailable
  | ErrLockTimeout
  | ErrLoginFailed
  | ErrRefreshFailed
  | ErrCacheRead
  | ErrCacheWrite
  | ErrIDTokenInvalid
  | ErrInteractionUnavailable
  | ErrHelp
  | ErrNotExist
  | ErrKeyringNotFound
  | ErrUnsupportedPlatform
  | ErrContextDone

text \<open>
  An error value. \<open>OsError\<close> is an \<^verbatim>\<open>*fs.PathError\<close>; \<open>ExecError\<close> an
  \<^verbatim>\<open>*exec.Error\<close>; \<open>RetrieveError\<close> the \<^verbatim>\<open>*oauth2.RetrieveError\<close> with its
  code, description and URI; \<open>AuthorizationError\<close> the type of that name in internal/oidc.
  \<open>Errorf\<close> is the result of \<^verbatim>\<open>fmt.Errorf\<close>: its format string cut at the verbs, where
  \<open>T\<close> is literal text, \<open>S\<close> a string argument (\<^verbatim>\<open>%s\<close>, \<^verbatim>\<open>%q\<close>,
  \<^verbatim>\<open>%v\<close>) and \<open>W\<close> an error argument of the verb \<^verbatim>\<open>%w\<close>. \<open>External\<close> is an error
  of a library about which the program can ask nothing.
\<close>

datatype errno = ENOENT | EEXIST | EACCES | EIO

datatype error =
    Sentinel sentinel
  | OsError errno
  | ExecError string
  | RetrieveError string string string
  | AuthorizationError string string
  | External string
  | Errorf "part list"
and part = T string | S string | W error

fun errors_Is :: "sentinel \<Rightarrow> error \<Rightarrow> bool" and parts_Is :: "sentinel \<Rightarrow> part list \<Rightarrow> bool" where
  "errors_Is s (Sentinel t) = (s = t)"
| "errors_Is s (OsError n) = (s = ErrNotExist \<and> n = ENOENT)"
| "errors_Is s (ExecError _) = False"
| "errors_Is s (RetrieveError _ _ _) = False"
| "errors_Is s (AuthorizationError _ _) = False"
| "errors_Is s (External _) = False"
| "errors_Is s (Errorf ps) = parts_Is s ps"
| "parts_Is s [] = False"
| "parts_Is s (T _ # ps) = parts_Is s ps"
| "parts_Is s (S _ # ps) = parts_Is s ps"
| "parts_Is s (W e # ps) = (errors_Is s e \<or> parts_Is s ps)"

text \<open>\<^verbatim>\<open>errors.As\<close>: the first value of the given type, depth first.\<close>

fun find_error :: "(error \<Rightarrow> bool) \<Rightarrow> error \<Rightarrow> error option"
and find_parts :: "(error \<Rightarrow> bool) \<Rightarrow> part list \<Rightarrow> error option" where
  "find_error p (Errorf ps) = (if p (Errorf ps) then Some (Errorf ps) else find_parts p ps)"
| "find_error p e = (if p e then Some e else None)"
| "find_parts p [] = None"
| "find_parts p (T _ # ps) = find_parts p ps"
| "find_parts p (S _ # ps) = find_parts p ps"
| "find_parts p (W e # ps) =
     (case find_error p e of Some r \<Rightarrow> Some r | None \<Rightarrow> find_parts p ps)"

definition as_RetrieveError :: "error \<Rightarrow> error option" where
  "as_RetrieveError = find_error (\<lambda>e. case e of RetrieveError _ _ _ \<Rightarrow> True | _ \<Rightarrow> False)"

definition as_AuthorizationError :: "error \<Rightarrow> error option" where
  "as_AuthorizationError =
     find_error (\<lambda>e. case e of AuthorizationError _ _ \<Rightarrow> True | _ \<Rightarrow> False)"

definition as_ExecError :: "error \<Rightarrow> error option" where
  "as_ExecError = find_error (\<lambda>e. case e of ExecError _ \<Rightarrow> True | _ \<Rightarrow> False)"

lemmas errors_As = as_RetrieveError_def as_AuthorizationError_def as_ExecError_def

text \<open>\<^verbatim>\<open>fmt.Errorf("<text>%w", err)\<close> and \<^verbatim>\<open>fmt.Errorf("%w: %w", a, b)\<close>.\<close>

abbreviation wrap :: "string \<Rightarrow> error \<Rightarrow> error" where
  "wrap s e \<equiv> Errorf [T s, W e]"

abbreviation wrap2 :: "sentinel \<Rightarrow> error \<Rightarrow> error" where
  "wrap2 s e \<equiv> Errorf [W (Sentinel s), T '': '', W e]"

abbreviation errorf :: "string \<Rightarrow> error" where
  "errorf s \<equiv> Errorf [T s]"

lemma errors_Is_wrap [simp]:
  "errors_Is s (wrap t e) = errors_Is s e"
  "errors_Is s (wrap2 u e) = (s = u \<or> errors_Is s e)"
  by simp_all

text \<open>A line written to standard error: the same pieces as a format string.\<close>

type_synonym line = "part list"

text \<open>A result with its error: what a Go function of type \<open>(T, error)\<close> returns.\<close>

fun is_err :: "error + 'a \<Rightarrow> bool" where
  "is_err (Inl _) = True"
| "is_err (Inr _) = False"

section \<open>Decimal numbers\<close>

definition digit :: "nat \<Rightarrow> char" where
  "digit n = char_of (48 + n mod 10)"

text \<open>\<^verbatim>\<open>strconv.Itoa\<close> on a non-negative number, and the same with leading zeros to a width.\<close>

fun itoa :: "nat \<Rightarrow> string" where
  "itoa n = (if n < 10 then [digit n] else itoa (n div 10) @ [digit n])"

declare itoa.simps [simp del]

fun pad :: "nat \<Rightarrow> nat \<Rightarrow> string" where
  "pad 0 n = []"
| "pad (Suc w) n = pad w (n div 10) @ [digit n]"

definition is_digit :: "char \<Rightarrow> bool" where
  "is_digit c \<longleftrightarrow> 48 \<le> (of_char c :: nat) \<and> (of_char c :: nat) \<le> 57"

definition undigits :: "string \<Rightarrow> nat" where
  "undigits s = foldl (\<lambda>a c. 10 * a + (of_char c - 48)) 0 s"

lemma of_digit [simp]: "of_char (digit n) = 48 + n mod 10"
  by (simp add: digit_def)

lemma is_digit_digit [simp]: "is_digit (digit n)"
  by (simp add: is_digit_def)

lemma itoa_digits: "list_all is_digit (itoa n) \<and> itoa n \<noteq> []"
  by (induction n rule: itoa.induct) (subst (1 2) itoa.simps, simp)

lemma length_pad [simp]: "length (pad w n) = w"
  by (induction w arbitrary: n) auto

lemma pad_digits: "list_all is_digit (pad w n)"
  by (induction w arbitrary: n) auto

lemma undigits_snoc: "undigits (s @ [digit n]) = 10 * undigits s + n mod 10"
  by (simp add: undigits_def)

lemma undigits_pad: "undigits (pad w n) = n mod 10 ^ w"
proof (induction w arbitrary: n)
  case 0
  then show ?case by (simp add: undigits_def)
next
  case (Suc w)
  have "n mod 10 ^ Suc w = 10 * (n div 10 mod 10 ^ w) + n mod 10"
    by (simp add: mod_mult2_eq mult.commute)
  then show ?case by (simp add: undigits_snoc Suc)
qed

declare pad.simps [simp del]

end
