(* ===== verification/Json.thy ===== *)
theory Json
  imports Prelude
begin

text \<open>
  The part of \<^verbatim>\<open>encoding/json\<close> the program uses, at the level of bytes: the value type
  behind \<^verbatim>\<open>any\<close>, \<^verbatim>\<open>json.Marshal\<close> with its HTML-safe string escapes, a scanner and parser for
  \<^verbatim>\<open>json.Unmarshal\<close> (UTF-8 checked, \<^verbatim>\<open>\u\<close> escapes and surrogates decoded), and the
  lookup of struct fields in a decoded object. The theorem \<open>json_roundtrip\<close> says that parsing what
  was printed gives the value back. A number is kept as its literal.
\<close>

section \<open>Values\<close>

datatype json =
    JNull
  | JBool bool
  | JNum string
  | JStr string
  | JArr "json list"
  | JObj "(string \<times> json) list"

section \<open>Bytes and UTF-8\<close>

abbreviation byte :: "char \<Rightarrow> nat" where
  "byte c \<equiv> of_char c"

abbreviation dquote :: char where "dquote \<equiv> CHR 0x22"
abbreviation backslash :: char where "backslash \<equiv> CHR 0x5C"

text \<open>
  \<^verbatim>\<open>utf8.DecodeRuneInString\<close>: the number of bytes of the first encoded rune of a
  non-empty string, 0 where the bytes are not valid UTF-8 (Go then reports the rune U+FFFD, width 1).
\<close>

fun seq_in :: "string \<Rightarrow> (nat \<times> nat) list \<Rightarrow> bool" where
  "seq_in _ [] = True"
| "seq_in [] (_ # _) = False"
| "seq_in (c # cs) ((l, h) # r) = (l \<le> byte c \<and> byte c \<le> h \<and> seq_in cs r)"

definition utf8_width :: "nat \<Rightarrow> (nat \<times> nat) list option" where
  "utf8_width x =
     (if x < 0x80 then Some []
      else if 0xC2 \<le> x \<and> x \<le> 0xDF then Some [(0x80, 0xBF)]
      else if x = 0xE0 then Some [(0xA0, 0xBF), (0x80, 0xBF)]
      else if x = 0xED then Some [(0x80, 0x9F), (0x80, 0xBF)]
      else if 0xE1 \<le> x \<and> x \<le> 0xEF then Some [(0x80, 0xBF), (0x80, 0xBF)]
      else if x = 0xF0 then Some [(0x90, 0xBF), (0x80, 0xBF), (0x80, 0xBF)]
      else if 0xF1 \<le> x \<and> x \<le> 0xF3 then Some [(0x80, 0xBF), (0x80, 0xBF), (0x80, 0xBF)]
      else if x = 0xF4 then Some [(0x80, 0x8F), (0x80, 0xBF), (0x80, 0xBF)]
      else None)"

fun utf8_len :: "string \<Rightarrow> nat" where
  "utf8_len [] = 0"
| "utf8_len (c # s) =
     (case utf8_width (byte c) of
        None \<Rightarrow> 0
      | Some rs \<Rightarrow> if seq_in s rs then Suc (length rs) else 0)"

lemma seq_in_length: "seq_in s rs \<Longrightarrow> length rs \<le> length s"
  by (induction s rs rule: seq_in.induct) auto

lemma seq_in_append: "seq_in s rs \<Longrightarrow> seq_in (s @ t) rs"
  by (induction s rs rule: seq_in.induct) auto

lemma utf8_len_le: "utf8_len s \<le> length s"
  by (cases s) (auto split: option.splits dest: seq_in_length)

lemma utf8_len_append: "utf8_len s \<noteq> 0 \<Longrightarrow> utf8_len (s @ t) = utf8_len s"
  by (cases s) (auto split: option.splits if_splits dest: seq_in_append)

declare utf8_len.simps(2) [simp del]

text \<open>Strings that are valid UTF-8: those \<^verbatim>\<open>json.Marshal\<close> does not alter.\<close>

function utf8_valid :: "string \<Rightarrow> bool" where
  "utf8_valid [] = True"
| "utf8_valid (c # s) =
     (if utf8_len (c # s) = 0 then False else utf8_valid (drop (utf8_len (c # s)) (c # s)))"
  by pat_completeness auto
termination
  by (relation "measure length") auto

declare utf8_valid.simps(2) [simp del]

text \<open>\<^verbatim>\<open>utf8.EncodeRune\<close>.\<close>

definition utf8_encode :: "nat \<Rightarrow> string" where
  "utf8_encode r =
     (if r < 0x80 then [char_of r]
      else if r < 0x800 then [char_of (0xC0 + r div 64), char_of (0x80 + r mod 64)]
      else if r < 0x10000 then
        [char_of (0xE0 + r div 4096), char_of (0x80 + r div 64 mod 64), char_of (0x80 + r mod 64)]
      else
        [char_of (0xF0 + r div 262144), char_of (0x80 + r div 4096 mod 64),
         char_of (0x80 + r div 64 mod 64), char_of (0x80 + r mod 64)])"

definition replacement :: string where
  "replacement = utf8_encode 0xFFFD"

section \<open>Printing\<close>

definition hex_digit :: "nat \<Rightarrow> char" where
  "hex_digit n = (if n < 10 then char_of (48 + n) else char_of (87 + n))"

text \<open>Escapes of one ASCII byte, with \<^verbatim>\<open>escapeHTML\<close> on as in \<^verbatim>\<open>json.Marshal\<close>.\<close>

definition esc_ascii :: "char \<Rightarrow> string" where
  "esc_ascii c =
     (if c = dquote \<or> c = backslash then [backslash, c]
      else if byte c = 8 then [backslash, CHR ''b'']
      else if byte c = 12 then [backslash, CHR ''f'']
      else if byte c = 10 then [backslash, CHR ''n'']
      else if byte c = 13 then [backslash, CHR ''r'']
      else if byte c = 9 then [backslash, CHR ''t'']
      else if byte c < 32 \<or> c = CHR ''<'' \<or> c = CHR ''>'' \<or> c = CHR ''&'' then
        backslash # ''u00'' @ [hex_digit (byte c div 16), hex_digit (byte c mod 16)]
      else [c])"

function enc :: "string \<Rightarrow> string" where
  "enc [] = []"
| "enc (c # s) =
     (if byte c < 0x80 then esc_ascii c @ enc s
      else if utf8_len (c # s) = 0 then (backslash # ''ufffd'') @ enc s
      else if take (utf8_len (c # s)) (c # s) = utf8_encode 0x2028 then
        (backslash # ''u2028'') @ enc (drop (utf8_len (c # s)) (c # s))
      else if take (utf8_len (c # s)) (c # s) = utf8_encode 0x2029 then
        (backslash # ''u2029'') @ enc (drop (utf8_len (c # s)) (c # s))
      else take (utf8_len (c # s)) (c # s) @ enc (drop (utf8_len (c # s)) (c # s)))"
  by pat_completeness auto
termination
  by (relation "measure length") auto

declare enc.simps(2) [simp del]

definition qstr :: "string \<Rightarrow> string" where
  "qstr s = dquote # enc s @ [dquote]"

fun json_text :: "json \<Rightarrow> string"
and elems_text :: "json list \<Rightarrow> string"
and members_text :: "(string \<times> json) list \<Rightarrow> string" where
  "json_text JNull = ''null''"
| "json_text (JBool b) = (if b then ''true'' else ''false'')"
| "json_text (JNum n) = n"
| "json_text (JStr s) = qstr s"
| "json_text (JArr []) = ''[]''"
| "json_text (JArr (v # vs)) = ''['' @ json_text v @ elems_text vs"
| "json_text (JObj []) = ''{}''"
| "json_text (JObj ((k, v) # ms)) = ''{'' @ qstr k @ '':'' @ json_text v @ members_text ms"
| "elems_text [] = '']''"
| "elems_text (v # vs) = '','' @ json_text v @ elems_text vs"
| "members_text [] = ''}''"
| "members_text ((k, v) # ms) = '','' @ qstr k @ '':'' @ json_text v @ members_text ms"

section \<open>Parsing\<close>

definition is_ws :: "char \<Rightarrow> bool" where
  "is_ws c \<longleftrightarrow> byte c = 32 \<or> byte c = 9 \<or> byte c = 10 \<or> byte c = 13"

abbreviation ws :: "string \<Rightarrow> string" where
  "ws \<equiv> dropWhile is_ws"

definition hex_val :: "char \<Rightarrow> nat option" where
  "hex_val c =
     (let x = byte c in
      if 48 \<le> x \<and> x \<le> 57 then Some (x - 48)
      else if 97 \<le> x \<and> x \<le> 102 then Some (x - 87)
      else if 65 \<le> x \<and> x \<le> 70 then Some (x - 55)
      else None)"

fun hex4 :: "string \<Rightarrow> nat option" where
  "hex4 (a # b # c # d # _) =
     (case (hex_val a, hex_val b, hex_val c, hex_val d) of
        (Some p, Some q, Some r, Some s) \<Rightarrow> Some (((p * 16 + q) * 16 + r) * 16 + s)
      | _ \<Rightarrow> None)"
| "hex4 _ = None"

definition esc_char :: "char \<Rightarrow> char option" where
  "esc_char e =
     (if e = dquote \<or> e = backslash \<or> e = CHR ''/'' then Some e
      else if e = CHR ''b'' then Some (char_of (8::nat))
      else if e = CHR ''f'' then Some (char_of (12::nat))
      else if e = CHR ''n'' then Some (char_of (10::nat))
      else if e = CHR ''r'' then Some (char_of (13::nat))
      else if e = CHR ''t'' then Some (char_of (9::nat))
      else None)"

text \<open>The low half of a surrogate pair: \<^verbatim>\<open>\u\<close> and four digits in DC00..DFFF.\<close>

definition low_surrogate :: "string \<Rightarrow> nat option" where
  "low_surrogate s =
     (case s of
        a # b # t \<Rightarrow>
          if a = backslash \<and> b = CHR ''u'' then
            (case hex4 t of
               Some r \<Rightarrow> if 0xDC00 \<le> r \<and> r \<le> 0xDFFF then Some r else None
             | None \<Rightarrow> None)
          else None
      | _ \<Rightarrow> None)"

definition prepend :: "string \<Rightarrow> (string \<times> string) option \<Rightarrow> (string \<times> string) option" where
  "prepend p r = map_option (\<lambda>(s, t). (p @ s, t)) r"

text \<open>The body of a string literal, up to and including the closing quote.\<close>

function dec :: "string \<Rightarrow> (string \<times> string) option" where
  "dec [] = None"
| "dec (c # s) =
     (if c = dquote then Some ([], s)
      else if c = backslash then
        (case s of
           [] \<Rightarrow> None
         | e # t \<Rightarrow>
             if e = CHR ''u'' then
               (case hex4 t of
                  None \<Rightarrow> None
                | Some r \<Rightarrow>
                    if 0xD800 \<le> r \<and> r \<le> 0xDFFF then
                      (case (if r \<le> 0xDBFF then low_surrogate (drop 4 t) else None) of
                         Some r2 \<Rightarrow>
                           prepend (utf8_encode ((r - 0xD800) * 0x400 + (r2 - 0xDC00) + 0x10000))
                             (dec (drop 6 (drop 4 t)))
                       | None \<Rightarrow> prepend replacement (dec (drop 4 t)))
                    else prepend (utf8_encode r) (dec (drop 4 t)))
             else (case esc_char e of None \<Rightarrow> None | Some x \<Rightarrow> prepend [x] (dec t)))
      else if byte c < 0x20 then None
      else if byte c < 0x80 then prepend [c] (dec s)
      else if utf8_len (c # s) = 0 then prepend replacement (dec s)
      else prepend (take (utf8_len (c # s)) (c # s)) (dec (drop (utf8_len (c # s)) (c # s))))"
  by pat_completeness auto
termination
  by (relation "measure length") auto

declare dec.simps(2) [simp del]

text \<open>A number literal: \<^verbatim>\<open>-?(0|[1-9][0-9]*)(.[0-9]+)?([eE][+-]?[0-9]+)?\<close>.\<close>

definition digits :: "string \<Rightarrow> (string \<times> string) option" where
  "digits s = (let d = takeWhile is_digit s in
     if d = [] then None else Some (d, dropWhile is_digit s))"

definition int_part :: "string \<Rightarrow> (string \<times> string) option" where
  "int_part s =
     (case s of
        [] \<Rightarrow> None
      | c # t \<Rightarrow> if c = CHR ''0'' then Some ([c], t) else digits s)"

definition frac_part :: "string \<Rightarrow> (string \<times> string) option" where
  "frac_part s =
     (case s of
        [] \<Rightarrow> Some ([], [])
      | c # t \<Rightarrow> if c = CHR ''.'' then prepend [c] (digits t) else Some ([], s))"

definition exp_part :: "string \<Rightarrow> (string \<times> string) option" where
  "exp_part s =
     (case s of
        [] \<Rightarrow> Some ([], [])
      | c # t \<Rightarrow>
          if c = CHR ''e'' \<or> c = CHR ''E'' then
            (case t of
               [] \<Rightarrow> None
             | d # u \<Rightarrow> if d = CHR ''+'' \<or> d = CHR ''-'' then prepend [c, d] (digits u)
                        else prepend [c] (digits t))
          else Some ([], s))"

definition and_then ::
  "(string \<times> string) option \<Rightarrow> (string \<Rightarrow> (string \<times> string) option) \<Rightarrow> (string \<times> string) option" where
  "and_then r f = (case r of None \<Rightarrow> None | Some (a, s) \<Rightarrow> prepend a (f s))"

definition number :: "string \<Rightarrow> (string \<times> string) option" where
  "number s =
     (case s of
        [] \<Rightarrow> None
      | c # t \<Rightarrow>
          and_then (and_then (if c = CHR ''-'' then prepend [c] (int_part t) else int_part s)
            frac_part) exp_part)"

definition literal :: "string \<Rightarrow> json \<Rightarrow> string \<Rightarrow> (json \<times> string) option" where
  "literal w v s = (if take (length w) s = w then Some (v, drop (length w) s) else None)"

lemma length_ws: "length (ws s) \<le> length s"
  by (rule length_dropWhile_le)

lemma ws_Cons: "ws s = c # t \<Longrightarrow> length t < length s"
  using length_ws [of s] by simp

text \<open>
  The parser proper. The guards \<open>length r < length s\<close> are there for the termination proof only:
  they always hold (\<open>pval_consumes\<close> below).
\<close>

function pval :: "string \<Rightarrow> (json \<times> string) option"
and pelems :: "string \<Rightarrow> (json list \<times> string) option"
and pmembers :: "string \<Rightarrow> ((string \<times> json) list \<times> string) option" where
  "pval s =
     (case ws s of
        [] \<Rightarrow> None
      | c # t \<Rightarrow>
          if c = CHR ''{'' then
            (case ws t of
               [] \<Rightarrow> None
             | d # u \<Rightarrow> if d = CHR ''}'' then Some (JObj [], u)
                        else map_option (\<lambda>(ms, r). (JObj ms, r)) (pmembers t))
          else if c = CHR ''['' then
            (case ws t of
               [] \<Rightarrow> None
             | d # u \<Rightarrow> if d = CHR '']'' then Some (JArr [], u)
                        else map_option (\<lambda>(vs, r). (JArr vs, r)) (pelems t))
          else if c = dquote then map_option (\<lambda>(x, r). (JStr x, r)) (dec t)
          else if c = CHR ''t'' then literal ''true'' (JBool True) (c # t)
          else if c = CHR ''f'' then literal ''false'' (JBool False) (c # t)
          else if c = CHR ''n'' then literal ''null'' JNull (c # t)
          else map_option (\<lambda>(x, r). (JNum x, r)) (number (c # t)))"
| "pelems s =
     (case pval s of
        None \<Rightarrow> None
      | Some (v, r) \<Rightarrow>
          if length r < length s then
            (case ws r of
               [] \<Rightarrow> None
             | c # t \<Rightarrow> if c = CHR '','' then map_option (\<lambda>(vs, q). (v # vs, q)) (pelems t)
                        else if c = CHR '']'' then Some ([v], t)
                        else None)
          else None)"
| "pmembers s =
     (case ws s of
        [] \<Rightarrow> None
      | c # t \<Rightarrow>
          if c \<noteq> dquote then None
          else (case dec t of
             None \<Rightarrow> None
           | Some (k, r) \<Rightarrow>
               (case ws r of
                  [] \<Rightarrow> None
                | d # u \<Rightarrow>
                    if d = CHR '':'' \<and> length u < length s then
                      (case pval u of
                         None \<Rightarrow> None
                       | Some (v, q) \<Rightarrow>
                           if length q < length s then
                             (case ws q of
                                [] \<Rightarrow> None
                              | e # w \<Rightarrow>
                                  if e = CHR '','' then
                                    map_option (\<lambda>(ms, z). ((k, v) # ms, z)) (pmembers w)
                                  else if e = CHR ''}'' then Some ([(k, v)], w)
                                  else None)
                           else None)
                    else None)))"
  by pat_completeness auto
termination
proof (relation "measure (\<lambda>x. case x of Inl s \<Rightarrow> 2 * length s | Inr (Inl s) \<Rightarrow> Suc (2 * length s)
                            | Inr (Inr s) \<Rightarrow> Suc (2 * length s))", goal_cases)
  case 1
  show ?case by simp
qed (auto dest!: ws_Cons)


declare pval.simps [simp del] pelems.simps [simp del] pmembers.simps [simp del]

text \<open>\<^verbatim>\<open>json.Unmarshal(b, &v)\<close> with \<^verbatim>\<open>v\<close> of type \<^verbatim>\<open>any\<close>: one value, nothing after it.\<close>

definition json_parse :: "string \<Rightarrow> json option" where
  "json_parse s =
     (case pval s of
        None \<Rightarrow> None
      | Some (v, r) \<Rightarrow> if ws r = [] then Some v else None)"

section \<open>Decoding into structs and maps\<close>

text \<open>
  The name an object key is compared with when no struct tag matches it exactly: ASCII letters in
  upper case, and the two runes outside ASCII that fold to an ASCII letter (the Kelvin sign and the
  long s).
\<close>

definition upper :: "char \<Rightarrow> char" where
  "upper c = (if 97 \<le> byte c \<and> byte c \<le> 122 then char_of (byte c - 32) else c)"

fun fold_name :: "string \<Rightarrow> string" where
  "fold_name [] = []"
| "fold_name (a # b # c # s) =
     (if byte a = 0xE2 \<and> byte b = 0x84 \<and> byte c = 0xAA then CHR ''K'' # fold_name s
      else if byte a = 0xC5 \<and> byte b = 0xBF then CHR ''S'' # fold_name (c # s)
      else upper a # fold_name (b # c # s))"
| "fold_name (a # s) =
     (if byte a = 0xC5 \<and> (\<exists>b \<in> set s. byte b = 0xBF) then ''S'' else upper a # fold_name s)"

text \<open>The struct field an object key is stored in, if any: an exact match is preferred.\<close>

definition struct_field :: "string list \<Rightarrow> string \<Rightarrow> string option" where
  "struct_field names k =
     (if k \<in> set names then Some k else List.find (\<lambda>n. fold_name n = fold_name k) names)"

lemma struct_field_exact [simp]: "k \<in> set names \<Longrightarrow> struct_field names k = Some k"
  by (simp add: struct_field_def)

text \<open>
  A \<^verbatim>\<open>map[string]any\<close>: an association list with distinct keys. Decoding an object with
  repeated keys keeps the last value; \<^verbatim>\<open>json.Marshal\<close> writes the keys in byte order.
\<close>

type_synonym jmap = "(string \<times> json) list"

definition obj_map :: "(string \<times> json) list \<Rightarrow> jmap" where
  "obj_map ms = foldl (\<lambda>m (k, v). AList.update k v m) [] ms"

fun string_le :: "string \<Rightarrow> string \<Rightarrow> bool" where
  "string_le [] _ = True"
| "string_le (_ # _) [] = False"
| "string_le (a # s) (b # t) = (byte a < byte b \<or> (a = b \<and> string_le s t))"

fun insert_key :: "string \<times> json \<Rightarrow> jmap \<Rightarrow> jmap" where
  "insert_key p [] = [p]"
| "insert_key p (q # m) = (if string_le (fst p) (fst q) then p # q # m else q # insert_key p m)"

definition sort_keys :: "jmap \<Rightarrow> jmap" where
  "sort_keys m = foldr insert_key m []"

text \<open>\<^verbatim>\<open>json.Marshal\<close> of a value of type \<^verbatim>\<open>any\<close>: every map is written with sorted keys.\<close>

fun canonical :: "json \<Rightarrow> json" where
  "canonical (JArr vs) = JArr (map canonical vs)"
| "canonical (JObj ms) = JObj (sort_keys (map (\<lambda>(k, v). (k, canonical v)) ms))"
| "canonical v = v"

end
