(* ===== verification/Url.thy ===== *)
theory Url
  imports Json
begin

text \<open>
  What the program uses of Go's packages \<^verbatim>\<open>strings\<close> and \<^verbatim>\<open>net/url\<close> (as of Go 1.25.0, the
  version of go.mod): percent encoding, \<^verbatim>\<open>url.Values\<close> with its encoding and parsing,
  \<^verbatim>\<open>url.Parse\<close>, \<^verbatim>\<open>URL.Hostname\<close>, \<^verbatim>\<open>URL.Query\<close> and \<^verbatim>\<open>URL.String\<close>.
\<close>

section \<open>Strings\<close>

text \<open>\<^verbatim>\<open>strings.Cut\<close> at a one-byte separator: before, after, found.\<close>

definition Cut :: "char \<Rightarrow> string \<Rightarrow> string \<times> string \<times> bool" where
  "Cut c s = (case dropWhile (\<lambda>x. x \<noteq> c) s of
     [] \<Rightarrow> (s, [], False) | _ # t \<Rightarrow> (takeWhile (\<lambda>x. x \<noteq> c) s, t, True))"

text \<open>Around the last occurrence of a byte, as \<^verbatim>\<open>strings.LastIndex\<close> finds it.\<close>

definition cut_last :: "char \<Rightarrow> string \<Rightarrow> (string \<times> string) option" where
  "cut_last c s = (case dropWhile (\<lambda>x. x \<noteq> c) (rev s) of
     [] \<Rightarrow> None | _ # t \<Rightarrow> Some (rev t, rev (takeWhile (\<lambda>x. x \<noteq> c) (rev s))))"

fun string_Join :: "string list \<Rightarrow> string \<Rightarrow> string" where
  "string_Join [] sep = []"
| "string_Join [x] sep = x"
| "string_Join (x # y # ys) sep = x @ sep @ string_Join (y # ys) sep"

text \<open>\<^verbatim>\<open>strings.TrimRight(s, "\n")\<close>.\<close>

definition trim_newlines :: "string \<Rightarrow> string" where
  "trim_newlines s = rev (dropWhile (\<lambda>c. byte c = 10) (rev s))"

fun Split :: "char \<Rightarrow> string \<Rightarrow> string list" where
  "Split c [] = [[]]"
| "Split c (x # s) =
     (if x = c then [] # Split c s
      else (case Split c s of [] \<Rightarrow> [[x]] | y # ys \<Rightarrow> (x # y) # ys))"

definition is_alnum :: "char \<Rightarrow> bool" where
  "is_alnum c \<longleftrightarrow> (97 \<le> byte c \<and> byte c \<le> 122) \<or> (65 \<le> byte c \<and> byte c \<le> 90) \<or> is_digit c"

definition to_lower :: "char \<Rightarrow> char" where
  "to_lower c = (if 65 \<le> byte c \<and> byte c \<le> 90 then char_of (byte c + 32) else c)"

lemma Cut_absent: "c \<notin> set s \<Longrightarrow> Cut c s = (s, [], False)"
proof -
  assume "c \<notin> set s"
  then have d: "dropWhile (\<lambda>x. x \<noteq> c) s = []" by auto
  show ?thesis unfolding Cut_def d by simp
qed

lemma Cut_append: "c \<notin> set s \<Longrightarrow> Cut c (s @ c # t) = (s, t, True)"
proof -
  assume "c \<notin> set s"
  then have "dropWhile (\<lambda>x. x \<noteq> c) (s @ c # t) = c # t" "takeWhile (\<lambda>x. x \<noteq> c) (s @ c # t) = s"
    by (auto simp: dropWhile_append takeWhile_append)
  then show ?thesis by (simp add: Cut_def)
qed

lemma cut_last_append: "c \<notin> set t \<Longrightarrow> cut_last c (s @ c # t) = Some (s, t)"
proof -
  assume "c \<notin> set t"
  then have "dropWhile (\<lambda>x. x \<noteq> c) (rev t @ c # rev s) = c # rev s"
    "takeWhile (\<lambda>x. x \<noteq> c) (rev t @ c # rev s) = rev t"
    by (auto simp: dropWhile_append takeWhile_append)
  then show ?thesis by (simp add: cut_last_def)
qed

lemma cut_last_absent: "c \<notin> set s \<Longrightarrow> cut_last c s = None"
proof -
  assume "c \<notin> set s"
  then have d: "dropWhile (\<lambda>x. x \<noteq> c) (rev s) = []" by auto
  show ?thesis unfolding cut_last_def d by simp
qed

section \<open>Percent encoding\<close>

datatype encoding = encodePath | encodeHost | encodeZone | encodeUserPassword
  | encodeQueryComponent | encodeFragment

definition shouldEscape :: "char \<Rightarrow> encoding \<Rightarrow> bool" where
  "shouldEscape c m =
     (if is_alnum c then False
      else if m \<in> {encodeHost, encodeZone} \<and> c \<in> set (dquote # ''!$&()*+,;=:[]<>'' @ [CHR 0x27]) then False
      else if c \<in> set ''-_.~'' then False
      else if c \<in> set ''$&+,/:;=?@'' then
        (case m of
           encodePath \<Rightarrow> c = CHR ''?''
         | encodeUserPassword \<Rightarrow> c \<in> set ''@/?:''
         | encodeFragment \<Rightarrow> False
         | _ \<Rightarrow> True)
      else if m = encodeFragment \<and> c \<in> set ''!()*'' then False
      else True)"

definition upper_hex :: "nat \<Rightarrow> char" where
  "upper_hex n = (if n < 10 then char_of (48 + n) else char_of (55 + n))"

definition escape_char :: "encoding \<Rightarrow> char \<Rightarrow> string" where
  "escape_char m c =
     (if c = CHR '' '' \<and> m = encodeQueryComponent then ''+''
      else if shouldEscape c m then [CHR ''%'', upper_hex (byte c div 16), upper_hex (byte c mod 16)]
      else [c])"

definition escape :: "string \<Rightarrow> encoding \<Rightarrow> string" where
  "escape s m = concat (map (escape_char m) s)"

text \<open>
  \<^verbatim>\<open>unescape\<close>: \<open>None\<close> is an \<^verbatim>\<open>EscapeError\<close> or \<^verbatim>\<open>InvalidHostError\<close>. In a host only
  bytes outside ASCII and \<^verbatim>\<open>%25\<close> may be escaped; in a zone also what a host would escape.
\<close>

definition bad_escape :: "encoding \<Rightarrow> char \<Rightarrow> char \<Rightarrow> nat \<Rightarrow> bool" where
  "bad_escape m a b v \<longleftrightarrow>
     (m = encodeHost \<and> v div 16 < 8 \<and> [a, b] \<noteq> ''25'') \<or>
     (m = encodeZone \<and> [a, b] \<noteq> ''25'' \<and> v \<noteq> 32 \<and> shouldEscape (char_of v) encodeHost)"

fun unescape :: "string \<Rightarrow> encoding \<Rightarrow> string option" where
  "unescape [] m = Some []"
| "unescape (c # s) m =
     (if c = CHR ''%'' then
        (case s of
           a # b # t \<Rightarrow>
             (case (hex_val a, hex_val b) of
                (Some x, Some y) \<Rightarrow>
                  if bad_escape m a b (16 * x + y) then None
                  else map_option ((#) (char_of (16 * x + y))) (unescape t m)
              | _ \<Rightarrow> None)
         | _ \<Rightarrow> None)
      else if c = CHR ''+'' \<and> m = encodeQueryComponent then map_option ((#) CHR '' '') (unescape s m)
      else if m \<in> {encodeHost, encodeZone} \<and> byte c < 0x80 \<and> shouldEscape c m then None
      else map_option ((#) c) (unescape s m))"

section \<open>Values\<close>

text \<open>\<^verbatim>\<open>url.Values\<close>, a map: an association list with distinct keys; a nil map is empty.\<close>

type_synonym vals = "(string \<times> string list) list"

definition vals_list :: "vals \<Rightarrow> string \<Rightarrow> string list" where
  "vals_list v k = (case map_of v k of None \<Rightarrow> [] | Some vs \<Rightarrow> vs)"

definition vals_Get :: "vals \<Rightarrow> string \<Rightarrow> string" where
  "vals_Get v k = (case vals_list v k of [] \<Rightarrow> [] | x # _ \<Rightarrow> x)"

definition vals_Set :: "string \<Rightarrow> string \<Rightarrow> vals \<Rightarrow> vals" where
  "vals_Set k x v = AList.update k [x] v"

definition vals_Add :: "string \<Rightarrow> string \<Rightarrow> vals \<Rightarrow> vals" where
  "vals_Add k x v = AList.update k (vals_list v k @ [x]) v"

fun insert_vals :: "string \<times> string list \<Rightarrow> vals \<Rightarrow> vals" where
  "insert_vals p [] = [p]"
| "insert_vals p (q # m) = (if string_le (fst p) (fst q) then p # q # m else q # insert_vals p m)"

definition encode_pairs :: "vals \<Rightarrow> (string \<times> string) list" where
  "encode_pairs v = concat (map (\<lambda>(k, xs). map (\<lambda>x. (k, x)) xs) (foldr insert_vals v []))"

definition pair_text :: "string \<times> string \<Rightarrow> string" where
  "pair_text p = escape (fst p) encodeQueryComponent @ ''='' @ escape (snd p) encodeQueryComponent"

definition Encode :: "vals \<Rightarrow> string" where
  "Encode v = string_Join (map pair_text (encode_pairs v)) ''&''"

text \<open>One element of a query; elements with a semicolon or a bad escape are skipped.\<close>

definition add_query :: "vals \<Rightarrow> string \<Rightarrow> vals" where
  "add_query m key =
     (if CHR '';'' \<in> set key \<or> key = [] then m
      else (case Cut (CHR ''='') key of (k, x, _) \<Rightarrow>
        (case (unescape k encodeQueryComponent, unescape x encodeQueryComponent) of
           (Some k', Some x') \<Rightarrow> vals_Add k' x' m
         | _ \<Rightarrow> m)))"

definition parseQuery :: "string \<Rightarrow> vals" where
  "parseQuery q = foldl add_query [] (Split (CHR ''&'') q)"

lemma vals_list_Set: "vals_list (vals_Set k x v) k' = (if k' = k then [x] else vals_list v k')"
  by (simp add: vals_list_def vals_Set_def update_conv')

lemma vals_list_Add: "vals_list (vals_Add k x v) k' = vals_list v k' @ (if k' = k then [x] else [])"
  by (auto simp: vals_list_def vals_Add_def update_conv' split: option.splits)

lemma vals_Get_Set: "vals_Get (vals_Set k x v) k' = (if k' = k then x else vals_Get v k')"
  by (simp add: vals_Get_def vals_list_Set)

lemma distinct_vals [simp]:
  "distinct (map fst v) \<Longrightarrow> distinct (map fst (vals_Set k x v))"
  "distinct (map fst v) \<Longrightarrow> distinct (map fst (vals_Add k x v))"
  by (simp_all add: vals_Set_def vals_Add_def distinct_update)

section \<open>Parsing what was encoded\<close>

lemma hex_val_upper: "n < 16 \<Longrightarrow> hex_val (upper_hex n) = Some n"
  by (auto simp: hex_val_def upper_hex_def Let_def)

lemma byte_nibble: "byte c div 16 < 16"
proof (rule less_mult_imp_div_less)
  show "byte c < 16 * 16" by simp
qed

lemma escape_Cons: "escape (c # s) m = escape_char m c @ escape s m"
  by (simp add: escape_def)

lemma unescape_plain:
  "c \<noteq> CHR ''%'' \<Longrightarrow> c \<noteq> CHR ''+'' \<Longrightarrow>
   unescape (c # s) encodeQueryComponent = map_option ((#) c) (unescape s encodeQueryComponent)"
  by simp

lemma plain_not_special: "\<not> shouldEscape c encodeQueryComponent \<Longrightarrow> c \<noteq> CHR ''%'' \<and> c \<noteq> CHR ''+''"
  by (auto simp: shouldEscape_def is_alnum_def is_digit_def)

lemma unescape_escape_char:
  "unescape (escape_char encodeQueryComponent c @ t) encodeQueryComponent =
     map_option ((#) c) (unescape t encodeQueryComponent)"
proof -
  have b: "byte c < 256" by simp
  have v: "16 * (byte c div 16) + byte c mod 16 = byte c" by simp
  consider (space) "c = CHR '' ''" | (esc) "c \<noteq> CHR '' ''" "shouldEscape c encodeQueryComponent"
    | (plain) "c \<noteq> CHR '' ''" "\<not> shouldEscape c encodeQueryComponent" by blast
  then show ?thesis
  proof cases
    case space
    then show ?thesis by (simp add: escape_char_def)
  next
    case esc
    show ?thesis
      using esc v byte_nibble [of c] by (simp add: escape_char_def hex_val_upper bad_escape_def)
  next
    case plain
    then show ?thesis
      using plain_not_special by (simp add: escape_char_def)
  qed
qed

lemma unescape_escape [simp]: "unescape (escape s encodeQueryComponent) encodeQueryComponent = Some s"
  by (induction s) (simp_all add: escape_Cons unescape_escape_char, simp add: escape_def)

lemma upper_hex_alnum: "n < 16 \<Longrightarrow> is_alnum (upper_hex n)"
  by (auto simp: upper_hex_def is_alnum_def is_digit_def)

lemma escape_chars:
  "c \<in> set (escape s encodeQueryComponent) \<Longrightarrow> is_alnum c \<or> c \<in> set ''%+-_.~''"
proof (induction s)
  case (Cons x s)
  have "byte x div 16 < 16" "byte x mod 16 < 16" using byte_nibble by simp_all
  then have "is_alnum (upper_hex (byte x div 16))" "is_alnum (upper_hex (byte x mod 16))"
    by (simp_all only: upper_hex_alnum)
  moreover have "\<not> shouldEscape x encodeQueryComponent \<Longrightarrow> is_alnum x \<or> x \<in> set ''-_.~''"
    by (auto simp: shouldEscape_def split: if_splits)
  ultimately show ?case
    using Cons by (auto simp: escape_Cons escape_char_def split: if_splits)
qed (simp add: escape_def)

lemma escape_clean:
  "CHR ''&'' \<notin> set (escape s encodeQueryComponent)"
  "CHR ''='' \<notin> set (escape s encodeQueryComponent)"
  "CHR '';'' \<notin> set (escape s encodeQueryComponent)"
  using escape_chars [of _ s] by (fastforce simp: is_alnum_def is_digit_def)+

lemma add_query_pair: "add_query m (pair_text (k, x)) = vals_Add k x m"
  using escape_clean [of k] escape_clean [of x]
  by (simp add: add_query_def pair_text_def Cut_append)

lemma Split_absent: "c \<notin> set s \<Longrightarrow> Split c s = [s]"
  by (induction s) auto

lemma Split_ne [simp]: "Split c s \<noteq> []"
  by (induction s) (auto split: list.splits)

lemma Split_append: "c \<notin> set s \<Longrightarrow> Split c (s @ c # t) = s # Split c t"
  by (induction s) auto

lemma Split_Join: "list_all (\<lambda>s. c \<notin> set s) xs \<Longrightarrow> xs \<noteq> [] \<Longrightarrow> Split c (string_Join xs [c]) = xs"
  by (induction xs "[c]" rule: string_Join.induct) (simp_all add: Split_absent Split_append)

definition add_pairs :: "vals \<Rightarrow> (string \<times> string) list \<Rightarrow> vals" where
  "add_pairs m ps = foldl (\<lambda>m (k, x). vals_Add k x m) m ps"

lemma parseQuery_pairs:
  "parseQuery (string_Join (map pair_text ps) ''&'') = add_pairs [] ps"
proof (cases "ps = []")
  case True
  then show ?thesis by (simp add: parseQuery_def add_query_def add_pairs_def)
next
  case False
  have "list_all (\<lambda>s. CHR ''&'' \<notin> set s) (map pair_text ps)"
    by (auto simp: list_all_iff pair_text_def escape_clean)
  then have "Split (CHR ''&'') (string_Join (map pair_text ps) ''&'') = map pair_text ps"
    using False by (simp add: Split_Join)
  moreover have "foldl add_query m (map pair_text ps) = add_pairs m ps" for m
    by (induction ps arbitrary: m) (auto simp: add_pairs_def add_query_pair)
  ultimately show ?thesis by (simp add: parseQuery_def)
qed

lemma vals_list_add_pairs:
  "vals_list (add_pairs m ps) k = vals_list m k @ map snd (filter (\<lambda>p. fst p = k) ps)"
  by (induction ps arbitrary: m) (auto simp: add_pairs_def vals_list_Add)

lemma set_insert_vals: "set (insert_vals p m) = insert p (set m)"
  by (induction m) auto

lemma distinct_insert_vals:
  "distinct (map fst m) \<Longrightarrow> fst p \<notin> fst ` set m \<Longrightarrow> distinct (map fst (insert_vals p m))"
  by (induction m) (auto simp: set_insert_vals)

lemma sort_vals:
  "set (foldr insert_vals v []) = set v \<and>
   (distinct (map fst v) \<longrightarrow> distinct (map fst (foldr insert_vals v [])))"
  by (induction v) (auto simp: set_insert_vals distinct_insert_vals)

lemma encode_pairs_values:
  assumes "distinct (map fst v)"
  shows "map snd (filter (\<lambda>p. fst p = k) (encode_pairs v)) = vals_list v k"
proof -
  let ?w = "foldr insert_vals v []"
  have w: "distinct (map fst ?w)" "set ?w = set v" using sort_vals [of v] assms by auto
  have "map snd (filter (\<lambda>p. fst p = k) (concat (map (\<lambda>(k, xs). map (\<lambda>x. (k, x)) xs) u))) = vals_list u k"
    if "distinct (map fst u)" for u :: vals
    using that
  proof (induction u)
    case (Cons p u)
    obtain a xs where p: "p = (a, xs)" by (cases p)
    have "filter (\<lambda>q. fst q = k) (map (\<lambda>x. (a, x)) xs) = (if a = k then map (\<lambda>x. (a, x)) xs else [])"
      by (induction xs) auto
    moreover have "a \<notin> fst ` set u \<Longrightarrow> vals_list u a = []"
      by (auto simp: vals_list_def split: option.splits dest: map_of_SomeD intro: rev_image_eqI)
    ultimately show ?case using Cons p by (auto simp: vals_list_def comp_def)
  qed (simp add: vals_list_def)
  moreover have "vals_list ?w k = vals_list v k"
    using map_of_inject_set [of ?w v] w assms by (simp add: vals_list_def)
  ultimately show ?thesis using w(1) by (simp add: encode_pairs_def)
qed

theorem query_roundtrip:
  "distinct (map fst v) \<Longrightarrow> vals_list (parseQuery (Encode v)) k = vals_list v k"
  unfolding Encode_def parseQuery_pairs vals_list_add_pairs
  by (simp add: encode_pairs_values) (simp add: vals_list_def)

end
