(* ===== verification/UrlParse.thy ===== *)
theory UrlParse
  imports Url "HOL-Library.Monad_Syntax"
begin

text \<open>
  \<^verbatim>\<open>url.Parse\<close> of Go 1.25.0 with the parts of a URL the program looks at. A parse error is an
  opaque error: the program only wraps it.
\<close>

record url =
  u_Scheme :: string
  u_Opaque :: string
  u_User :: "(string \<times> string option) option"
  u_Host :: string
  u_Path :: string
  u_OmitHost :: bool
  u_ForceQuery :: bool
  u_RawQuery :: string
  u_Fragment :: string

text \<open>\<open>u_Path\<close> and \<open>u_Fragment\<close> are kept as written; \<open>shown\<close> is how \<^verbatim>\<open>String\<close> prints them.\<close>

definition validEncoded :: "string \<Rightarrow> encoding \<Rightarrow> bool" where
  "validEncoded s m \<longleftrightarrow>
     list_all (\<lambda>c. c \<in> set (''!$&()*+,;=:@[]%'' @ [CHR 0x27]) \<or> \<not> shouldEscape c m) s"

definition shown :: "string \<Rightarrow> encoding \<Rightarrow> string" where
  "shown raw m =
     (case unescape raw m of
        None \<Rightarrow> []
      | Some p \<Rightarrow> if validEncoded raw m then raw else escape p m)"

definition has_ctl :: "string \<Rightarrow> bool" where
  "has_ctl s \<longleftrightarrow> list_ex (\<lambda>c. byte c < 32 \<or> byte c = 127) s"

definition is_letter :: "char \<Rightarrow> bool" where
  "is_letter c \<longleftrightarrow> is_alnum c \<and> \<not> is_digit c"

text \<open>\<^verbatim>\<open>getScheme\<close>; the first argument is what was read so far.\<close>

fun getScheme :: "string \<Rightarrow> string \<Rightarrow> (string \<times> string) option" where
  "getScheme p [] = Some ([], p)"
| "getScheme p (c # s) =
     (if is_letter c then getScheme (p @ [c]) s
      else if is_digit c \<or> c \<in> set ''+-.'' then
        (if p = [] then Some ([], c # s) else getScheme (p @ [c]) s)
      else if c = CHR '':'' then (if p = [] then None else Some (p, s))
      else Some ([], p @ c # s))"

definition validOptionalPort :: "string \<Rightarrow> bool" where
  "validOptionalPort s =
     (case s of [] \<Rightarrow> True | c # ds \<Rightarrow> c = CHR '':'' \<and> list_all is_digit ds)"

text \<open>Before the first occurrence of \<^verbatim>\<open>%25\<close>, and from it on.\<close>

fun cut_zone :: "string \<Rightarrow> (string \<times> string) option" where
  "cut_zone [] = None"
| "cut_zone (c # s) =
     (if take 3 (c # s) = ''%25'' then Some ([], c # s)
      else map_option (\<lambda>(a, b). (c # a, b)) (cut_zone s))"

definition parseHost :: "string \<Rightarrow> string option" where
  "parseHost h =
     (if take 1 h = ''['' then
        (case cut_last (CHR '']'') h of
           None \<Rightarrow> None
         | Some (pre, port) \<Rightarrow>
             if \<not> validOptionalPort port then None
             else (case cut_zone pre of
                 None \<Rightarrow> unescape h encodeHost
               | Some (a, z) \<Rightarrow> do {
                   x \<leftarrow> unescape a encodeHost;
                   y \<leftarrow> unescape z encodeZone;
                   q \<leftarrow> unescape (CHR '']'' # port) encodeHost;
                   Some (x @ y @ q)
                 }))
      else (case cut_last (CHR '':'') h of
          None \<Rightarrow> unescape h encodeHost
        | Some (_, port) \<Rightarrow>
            if validOptionalPort (CHR '':'' # port) then unescape h encodeHost else None))"

definition validUserinfo :: "string \<Rightarrow> bool" where
  "validUserinfo s \<longleftrightarrow>
     list_all (\<lambda>c. is_alnum c \<or> c \<in> set (''-._:~!$&()*+,;=%@'' @ [CHR 0x27])) s"

definition parse_userinfo :: "string \<Rightarrow> (string \<times> string option) option" where
  "parse_userinfo s =
     (if \<not> validUserinfo s then None
      else (case Cut (CHR '':'') s of
          (n, p, False) \<Rightarrow> map_option (\<lambda>n'. (n', None)) (unescape s encodeUserPassword)
        | (n, p, True) \<Rightarrow> do {
            n' \<leftarrow> unescape n encodeUserPassword;
            p' \<leftarrow> unescape p encodeUserPassword;
            Some (n', Some p')
          }))"

definition parseAuthority ::
  "string \<Rightarrow> ((string \<times> string option) option \<times> string) option" where
  "parseAuthority a =
     (case cut_last (CHR ''@'') a of
        None \<Rightarrow> map_option (\<lambda>h. (None, h)) (parseHost a)
      | Some (ui, h) \<Rightarrow> do {
          h' \<leftarrow> parseHost h;
          u \<leftarrow> parse_userinfo ui;
          Some (Some u, h')
        })"

text \<open>The query: \<^verbatim>\<open>ForceQuery\<close> is a URL whose only question mark ends it.\<close>

definition split_query :: "string \<Rightarrow> string \<times> bool \<times> string" where
  "split_query r =
     (case Cut (CHR ''?'') r of
        (a, [], True) \<Rightarrow> (a, True, [])
      | (a, q, _) \<Rightarrow> (a, False, q))"

definition prefix_of :: "string \<Rightarrow> string \<Rightarrow> bool" where
  "prefix_of p s \<longleftrightarrow> take (length p) s = p"

definition parse_url :: "string \<Rightarrow> url option" where
  "parse_url raw =
     (if has_ctl raw then None
      else do {
        (sch, rest0) \<leftarrow> getScheme [] raw;
        let scheme = map to_lower sch;
        let (rest, force, query) = split_query rest0;
        let u = \<lparr>u_Scheme = scheme, u_Opaque = [], u_User = None, u_Host = [], u_Path = [],
                 u_OmitHost = False, u_ForceQuery = force, u_RawQuery = query, u_Fragment = []\<rparr>;
        if \<not> prefix_of ''/'' rest \<and> scheme \<noteq> [] then Some (u\<lparr>u_Opaque := rest\<rparr>)
        else if \<not> prefix_of ''/'' rest \<and> CHR '':'' \<in> set (fst (Cut (CHR ''/'') rest)) then None
        else if (scheme \<noteq> [] \<or> \<not> prefix_of ''///'' rest) \<and> prefix_of ''//'' rest then
          (let auth = takeWhile (\<lambda>c. c \<noteq> CHR ''/'') (drop 2 rest);
               p = dropWhile (\<lambda>c. c \<noteq> CHR ''/'') (drop 2 rest)
           in do {
             (ui, h) \<leftarrow> parseAuthority auth;
             _ \<leftarrow> unescape p encodePath;
             Some (u\<lparr>u_User := ui, u_Host := h, u_Path := p\<rparr>)
           })
        else do {
          _ \<leftarrow> unescape rest encodePath;
          Some (u\<lparr>u_OmitHost := (scheme \<noteq> [] \<and> prefix_of ''/'' rest), u_Path := rest\<rparr>)
        }
      })"

definition url_Parse :: "string \<Rightarrow> error + url" where
  "url_Parse raw =
     (case Cut (CHR ''#'') raw of (u, frag, _) \<Rightarrow>
        let r = (if u = ''*'' then Some \<lparr>u_Scheme = [], u_Opaque = [], u_User = None, u_Host = [],
                   u_Path = ''*'', u_OmitHost = False, u_ForceQuery = False, u_RawQuery = [], u_Fragment = []\<rparr>
                 else parse_url u)
        in case (r, unescape frag encodeFragment) of
             (Some x, Some _) \<Rightarrow> Inr (x\<lparr>u_Fragment := frag\<rparr>)
           | _ \<Rightarrow> Inl (External ''parse url''))"

definition Hostname :: "url \<Rightarrow> string" where
  "Hostname u =
     (let h = (case cut_last (CHR '':'') (u_Host u) of
          Some (a, port) \<Rightarrow> if validOptionalPort (CHR '':'' # port) then a else u_Host u
        | None \<Rightarrow> u_Host u)
      in if take 1 h = ''['' \<and> last h = CHR '']'' then butlast (tl h) else h)"

definition url_Query :: "url \<Rightarrow> vals" where
  "url_Query u = parseQuery (u_RawQuery u)"

definition url_String :: "url \<Rightarrow> string" where
  "url_String u =
     (let scheme = (if u_Scheme u = [] then [] else u_Scheme u @ '':'');
          user = (case u_User u of
              None \<Rightarrow> []
            | Some (n, None) \<Rightarrow> escape n encodeUserPassword @ ''@''
            | Some (n, Some p) \<Rightarrow> escape n encodeUserPassword @ '':'' @ escape p encodeUserPassword @ ''@'');
          host = escape (u_Host u) encodeHost;
          auth = (if u_Scheme u = [] \<and> u_Host u = [] \<and> u_User u = None then []
                  else if u_OmitHost u \<and> u_Host u = [] \<and> u_User u = None then []
                  else (if u_Host u \<noteq> [] \<or> u_Path u \<noteq> [] \<or> u_User u \<noteq> None then ''//'' else []) @ user @ host);
          p = (if u_Path u = ''*'' then ''*'' else shown (u_Path u) encodePath);
          slash = (if p \<noteq> [] \<and> \<not> prefix_of ''/'' p \<and> u_Host u \<noteq> [] then ''/'' else []);
          dot = (if scheme @ auth @ slash = [] \<and> CHR '':'' \<in> set (fst (Cut (CHR ''/'') p)) then ''./'' else []);
          hier = (if u_Opaque u \<noteq> [] then u_Opaque u else auth @ slash @ dot @ p);
          query = (if u_ForceQuery u \<or> u_RawQuery u \<noteq> [] then CHR ''?'' # u_RawQuery u else []);
          frag = (if u_Fragment u = [] then [] else CHR ''#'' # shown (u_Fragment u) encodeFragment)
      in scheme @ hier @ query @ frag)"

text \<open>Samples, evaluated.\<close>

lemma url_samples:
  "map_sum id (\<lambda>u. (u_Scheme u, Hostname u)) (url_Parse ''HTTP://127.0.0.1:8080/x?y#z'') = Inr (''http'', ''127.0.0.1'')"
  "map_sum id Hostname (url_Parse ''http://[::1]:80/'') = Inr ''::1''"
  "map_sum id Hostname (url_Parse ''http://127.0.0.1@evil.com/'') = Inr ''evil.com''"
  "map_sum id url_String (url_Parse ''https://u:p@h.x/a%20b?q=1#f'') = Inr ''https://u:p@h.x/a%20b?q=1#f''"
  "url_Parse ''http://[::1'' = Inl (External ''parse url'')"
  by code_simp+

end
