(* ===== verification/JsonRoundtrip.thy ===== *)
theory JsonRoundtrip
  imports Json
begin

text \<open>
  Parsing undoes printing: \<open>dec\<close> reads back every valid UTF-8 string that \<open>enc\<close> wrote,
  and \<open>json_parse\<close> reads back every well-formed value.
\<close>

section \<open>String literals\<close>

lemma seq_in_take: "seq_in s rs \<Longrightarrow> seq_in (take (length rs) s) rs"
  by (induction s rs rule: seq_in.induct) auto

lemma utf8_len_take: "utf8_len s \<noteq> 0 \<Longrightarrow> utf8_len (take (utf8_len s) s) = utf8_len s"
  by (cases s) (auto simp: utf8_len.simps(2) split: option.splits if_splits dest: seq_in_take)

lemma utf8_len_take_append:
  "utf8_len s \<noteq> 0 \<Longrightarrow> utf8_len (take (utf8_len s) s @ t) = utf8_len s"
  by (simp add: utf8_len_append utf8_len_take)

lemma utf8_len_ascii: "byte c < 0x80 \<Longrightarrow> utf8_len (c # s) = 1"
  by (simp add: utf8_len.simps(2) utf8_width_def)

lemma hex_val_digit: "n < 16 \<Longrightarrow> hex_val (hex_digit n) = Some n"
  by (auto simp: hex_val_def hex_digit_def Let_def)

lemma hex4_low:
  assumes "p < 16" "q < 16"
  shows "hex4 (CHR ''0'' # CHR ''0'' # hex_digit p # hex_digit q # t) = Some (p * 16 + q)"
  using assms by (simp add: hex_val_digit) (simp add: hex_val_def)

lemma dec_quote [simp]: "dec (dquote # s) = Some ([], s)"
  by (simp add: dec.simps(2))

lemma dec_u:
  "hex4 t = Some r \<Longrightarrow> r < 0xD800 \<Longrightarrow>
   dec (backslash # CHR ''u'' # t) = prepend (utf8_encode r) (dec (drop 4 t))"
  by (simp add: dec.simps(2))

lemma char_of_byteI: "byte c = n \<Longrightarrow> char_of n = c"
  by (metis char_of_char)

lemma dec_esc_ascii:
  assumes "byte c < 0x80"
  shows "dec (esc_ascii c @ t) = prepend [c] (dec t)"
proof -
  consider (quote) "c = dquote \<or> c = backslash"
    | (b) "byte c = 8" | (f) "byte c = 12" | (n) "byte c = 10" | (r) "byte c = 13" | (t) "byte c = 9"
    | (u) "byte c < 32 \<or> c = CHR ''<'' \<or> c = CHR ''>'' \<or> c = CHR ''&''"
        "byte c \<notin> {8, 9, 10, 12, 13}" "c \<noteq> dquote" "c \<noteq> backslash"
    | (plain) "\<not> byte c < 32" "c \<notin> {CHR ''<'', CHR ''>'', CHR ''&'', dquote, backslash}"
    by blast
  then show ?thesis
  proof cases
    case u
    have "esc_ascii c = backslash # ''u00'' @ [hex_digit (byte c div 16), hex_digit (byte c mod 16)]"
      using u by (auto simp: esc_ascii_def)
    moreover have "byte c div 16 < 16" "byte c mod 16 < 16" using assms by simp_all
    moreover have "utf8_encode (byte c div 16 * 16 + byte c mod 16) = [c]"
      using assms by (simp add: utf8_encode_def)
    ultimately show ?thesis
      using assms by (simp add: dec_u [OF hex4_low])
  next
    case plain
    then show ?thesis using assms by (simp add: esc_ascii_def dec.simps(2))
  next
    case quote
    then show ?thesis by (auto simp: esc_ascii_def dec.simps(2) esc_char_def)
  qed (frule char_of_byteI, auto simp: esc_ascii_def dec.simps(2) esc_char_def)+
qed

lemma hex4_2028: "hex4 (''2028'' @ t) = Some 0x2028" "hex4 (''2029'' @ t) = Some 0x2029"
  by (simp_all add: hex_val_def)

lemma dec_multibyte:
  assumes "utf8_len (c # s) \<noteq> 0" "\<not> byte c < 0x80"
  shows "dec (take (utf8_len (c # s)) (c # s) @ t) =
    prepend (take (utf8_len (c # s)) (c # s)) (dec t)"
proof -
  let ?n = "utf8_len (c # s)"
  obtain m where m: "?n = Suc m" using assms(1) not0_implies_Suc by blast
  have len: "utf8_len (c # take m s @ t) = Suc m"
    using utf8_len_take_append [OF assms(1), of t] unfolding m by simp
  have le: "m \<le> length s" using utf8_len_le [of "c # s"] m by simp
  have ne: "c \<noteq> dquote" "c \<noteq> backslash" using assms(2) by auto
  show ?thesis
    unfolding m using assms(2) ne le
    by (simp add: dec.simps(2) [of c "take m s @ t"] len)
qed

theorem dec_enc: "utf8_valid s \<Longrightarrow> dec (enc s @ dquote # t) = Some (s, t)"
proof (induction s arbitrary: t rule: enc.induct)
  case 1
  then show ?case by simp
next
  case (2 c s)
  let ?n = "utf8_len (c # s)"
  from "2.prems" have n0: "?n \<noteq> 0" and valid: "utf8_valid (drop ?n (c # s))"
    by (auto simp: utf8_valid.simps(2) split: if_splits)
  show ?case
  proof (cases "byte c < 0x80")
    case True
    then have "?n = 1" by (rule utf8_len_ascii)
    with valid have "utf8_valid s" by simp
    then have "dec (enc s @ dquote # t) = Some (s, t)" using "2.IH"(1) True by blast
    then show ?thesis
      using True by (simp add: enc.simps(2) dec_esc_ascii prepend_def)
  next
    case False
    have IH: "dec (enc (drop ?n (c # s)) @ dquote # t) = Some (drop ?n (c # s), t)"
      using "2.IH"(3-5) False n0 valid by blast
    have eq: "take ?n (c # s) @ drop ?n (c # s) = c # s" by simp
    consider (a) "take ?n (c # s) = utf8_encode 0x2028"
      | (b) "take ?n (c # s) = utf8_encode 0x2029" "take ?n (c # s) \<noteq> utf8_encode 0x2028"
      | (c) "take ?n (c # s) \<noteq> utf8_encode 0x2029" "take ?n (c # s) \<noteq> utf8_encode 0x2028"
      by blast
    then show ?thesis
    proof cases
      case a
      have "enc (c # s) = backslash # CHR ''u'' # ''2028'' @ enc (drop ?n (c # s))"
        using a False n0 by (simp add: enc.simps(2))
      then show ?thesis
        using IH a eq by (simp add: dec_u hex_val_def prepend_def)
    next
      case b
      have "enc (c # s) = backslash # CHR ''u'' # ''2029'' @ enc (drop ?n (c # s))"
        using b False n0 by (simp add: enc.simps(2))
      then show ?thesis
        using IH b eq by (simp add: dec_u hex_val_def prepend_def)
    next
      case c
      have "enc (c # s) = take ?n (c # s) @ enc (drop ?n (c # s))"
        using c False n0 by (simp add: enc.simps(2))
      then show ?thesis
        using IH eq dec_multibyte [OF n0 False] by (simp add: prepend_def)
    qed
  qed
qed

section \<open>Numbers\<close>

text \<open>What may follow a value inside a printed document.\<close>

definition delim :: "string \<Rightarrow> bool" where
  "delim r \<longleftrightarrow> r = [] \<or> hd r \<in> {CHR '','', CHR '']'', CHR ''}'', CHR 0x0A}"

lemma delim_simps [simp]:
  "delim []" "delim (CHR '','' # r)" "delim (CHR '']'' # r)" "delim (CHR ''}'' # r)" "delim (CHR 0x0A # r)"
  by (simp_all add: delim_def)

lemma delim_nondigit: "delim (c # r) \<Longrightarrow> \<not> is_digit c"
  by (auto simp: delim_def is_digit_def)

lemma digits_append:
  assumes "digits s = Some (a, b)" "delim r"
  shows "digits (s @ r) = Some (a, b @ r)"
proof -
  have "takeWhile is_digit (s @ r) = takeWhile is_digit s \<and>
        dropWhile is_digit (s @ r) = dropWhile is_digit s @ r"
    using assms(2) by (induction s) (cases r; auto dest: delim_nondigit)+
  with assms(1) show ?thesis by (auto simp: digits_def Let_def split: if_splits)
qed

lemma int_part_append:
  "int_part s = Some (a, b) \<Longrightarrow> delim r \<Longrightarrow> int_part (s @ r) = Some (a, b @ r)"
  by (auto simp: int_part_def split: list.splits if_splits dest: digits_append)

lemma prepend_append:
  assumes "\<And>a b. x = Some (a, b) \<Longrightarrow> y = Some (a, b @ r)" "prepend p x = Some (a, b)"
  shows "prepend p y = Some (a, b @ r)"
  using assms by (auto simp: prepend_def)

lemma prepend_digits_append:
  "prepend p (digits s) = Some (a, b) \<Longrightarrow> delim r \<Longrightarrow> prepend p (digits (s @ r)) = Some (a, b @ r)"
  using digits_append prepend_append by blast

lemma frac_part_append:
  assumes "frac_part s = Some (a, b)" "delim r"
  shows "frac_part (s @ r) = Some (a, b @ r)"
proof (cases s)
  case Nil
  with assms show ?thesis
    by (cases r) (auto simp: frac_part_def delim_def)
next
  case (Cons c t)
  with assms show ?thesis
    by (auto simp: frac_part_def intro: prepend_digits_append split: if_splits)
qed

lemma exp_part_append:
  assumes "exp_part s = Some (a, b)" "delim r"
  shows "exp_part (s @ r) = Some (a, b @ r)"
proof (cases s)
  case Nil
  with assms show ?thesis
    by (cases r) (auto simp: exp_part_def delim_def)
next
  case (Cons c t)
  with assms show ?thesis
    by (cases t) (auto simp: exp_part_def prepend_digits_append
      dest: prepend_digits_append split: if_splits)
qed

lemma and_then_append:
  assumes "\<And>a b. x = Some (a, b) \<Longrightarrow> y = Some (a, b @ r)"
    and "\<And>s a b. f s = Some (a, b) \<Longrightarrow> f (s @ r) = Some (a, b @ r)"
    and "and_then x f = Some (a, b)"
  shows "and_then y f = Some (a, b @ r)"
proof -
  obtain p q where x: "x = Some (p, q)" and f: "prepend p (f q) = Some (a, b)"
    using assms(3) by (auto simp: and_then_def split: option.splits)
  have "prepend p (f (q @ r)) = Some (a, b @ r)"
    using assms(2) f by (rule prepend_append)
  with assms(1) [OF x] show ?thesis by (simp add: and_then_def)
qed

lemma number_append:
  assumes "number s = Some (a, b)" "delim r"
  shows "number (s @ r) = Some (a, b @ r)"
proof (cases s)
  case Nil
  with assms show ?thesis by (simp add: number_def)
next
  case (Cons c t)
  let ?f = "\<lambda>s. if c = CHR ''-'' then prepend [c] (int_part (tl s)) else int_part s"
  have "\<And>a b. ?f s = Some (a, b) \<Longrightarrow> ?f (s @ r) = Some (a, b @ r)"
    using assms(2) Cons
    by (auto intro: int_part_append [of "c # t", simplified] prepend_append [OF int_part_append]
          split: if_splits)
  then have "\<And>a b. and_then (?f s) frac_part = Some (a, b) \<Longrightarrow>
      and_then (?f (s @ r)) frac_part = Some (a, b @ r)"
    by (rule and_then_append) (use assms(2) in \<open>auto intro: frac_part_append\<close>)
  then have "\<And>a b. and_then (and_then (?f s) frac_part) exp_part = Some (a, b) \<Longrightarrow>
      and_then (and_then (?f (s @ r)) frac_part) exp_part = Some (a, b @ r)"
    by (rule and_then_append) (use assms(2) in \<open>auto intro: exp_part_append\<close>)
  moreover have "number s = and_then (and_then (?f s) frac_part) exp_part"
    "number (s @ r) = and_then (and_then (?f (s @ r)) frac_part) exp_part"
    using Cons by (simp_all add: number_def)
  ultimately show ?thesis using assms(1) by simp
qed

lemma number_head:
  assumes "number s = Some (a, b)"
  shows "\<exists>c t. s = c # t \<and> (c = CHR ''-'' \<or> is_digit c)"
proof (cases s)
  case Nil
  with assms show ?thesis by (simp add: number_def)
next
  case (Cons c t)
  have "is_digit c" if "c \<noteq> CHR ''-''"
    using assms that Cons
    by (auto simp: number_def and_then_def int_part_def digits_def is_digit_def Let_def
          split: option.splits if_splits)
  with Cons show ?thesis by blast
qed

section \<open>Values\<close>

text \<open>
  Values that printing does not alter: valid UTF-8 in every string and key, and number literals
  of the JSON grammar.
\<close>

fun wf_json :: "json \<Rightarrow> bool" where
  "wf_json JNull = True"
| "wf_json (JBool _) = True"
| "wf_json (JNum n) = (number n = Some (n, []))"
| "wf_json (JStr s) = utf8_valid s"
| "wf_json (JArr vs) = list_all wf_json vs"
| "wf_json (JObj ms) = list_all (\<lambda>(k, v). utf8_valid k \<and> wf_json v) ms"

lemma digit_char:
  assumes "c = CHR ''-'' \<or> is_digit c"
  shows "c \<noteq> CHR ''{''" "c \<noteq> CHR ''[''" "c \<noteq> CHR ''t''" "c \<noteq> CHR ''f''" "c \<noteq> CHR ''n''"
    "c \<noteq> CHR '']''" "c \<noteq> CHR ''}''" "c \<noteq> dquote" "\<not> is_ws c"
  using assms by (auto simp: is_digit_def is_ws_def)

lemma json_text_head:
  assumes "wf_json v"
  shows "\<exists>c t. json_text v = c # t \<and> \<not> is_ws c \<and> c \<noteq> CHR '']'' \<and> c \<noteq> CHR ''}''"
proof (cases v)
  case (JNum n)
  with assms obtain c t where "n = c # t" "c = CHR ''-'' \<or> is_digit c"
    using number_head [of n n "[]"] by auto
  with JNum digit_char [of c] show ?thesis by simp
next
  case (JArr vs)
  then show ?thesis by (cases vs) (auto simp: is_ws_def)
next
  case (JObj ms)
  then show ?thesis by (cases ms) (auto simp: is_ws_def)
qed (auto simp: is_ws_def qstr_def)

lemma pval_number:
  assumes "number n = Some (n, [])" "delim r"
  shows "pval (n @ r) = Some (JNum n, r)"
proof -
  obtain c t where n: "n = c # t" "c = CHR ''-'' \<or> is_digit c"
    using number_head [OF assms(1)] by blast
  have "number (n @ r) = Some (n, r)" using number_append [OF assms] by simp
  with n digit_char [OF n(2)] show ?thesis
    by (subst pval.simps) simp
qed

lemma pval_string:
  "utf8_valid s \<Longrightarrow> pval (qstr s @ r) = Some (JStr s, r)"
  by (subst pval.simps) (simp add: qstr_def is_ws_def dec_enc)

lemma pelems_step:
  assumes "pval (x @ y) = Some (v, y)" "x \<noteq> []" "y = c # t" "\<not> is_ws c"
  shows "pelems (x @ y) =
    (if c = CHR '','' then map_option (\<lambda>(vs, q). (v # vs, q)) (pelems t)
     else if c = CHR '']'' then Some ([v], t) else None)"
  by (subst pelems.simps) (use assms in simp)

lemma pmembers_step:
  assumes "utf8_valid k" "pval (x @ y) = Some (v, y)" "x \<noteq> []" "y = c # t" "\<not> is_ws c"
  shows "pmembers (qstr k @ CHR '':'' # x @ y) =
    (if c = CHR '','' then map_option (\<lambda>(ms, z). ((k, v) # ms, z)) (pmembers t)
     else if c = CHR ''}'' then Some ([(k, v)], t) else None)"
proof -
  have "dec (enc k @ dquote # CHR '':'' # x @ y) = Some (k, CHR '':'' # x @ y)"
    using assms(1) by (rule dec_enc)
  then show ?thesis
    by (subst pmembers.simps) (use assms in \<open>simp add: qstr_def is_ws_def\<close>)
qed

definition reads :: "json \<Rightarrow> bool" where
  "reads v \<longleftrightarrow> (\<forall>r. delim r \<longrightarrow> pval (json_text v @ r) = Some (v, r))"

lemma is_ws_punct [simp]:
  "\<not> is_ws (CHR '','')" "\<not> is_ws (CHR '']'')" "\<not> is_ws (CHR ''}'')" "\<not> is_ws (CHR '':'')"
  "\<not> is_ws (CHR ''['')" "\<not> is_ws (CHR ''{'')" "\<not> is_ws dquote"
  by (simp_all add: is_ws_def)

lemma text_nonempty: "wf_json v \<Longrightarrow> json_text v \<noteq> []"
  by (drule json_text_head) auto

lemma pval_json_text:
  "wf_json v \<Longrightarrow> reads v"
  "list_all wf_json vs \<Longrightarrow> wf_json v \<Longrightarrow> reads v \<Longrightarrow>
     pelems (json_text v @ elems_text vs @ r) = Some (v # vs, r)"
  "list_all (\<lambda>(k, v). utf8_valid k \<and> wf_json v) ms \<Longrightarrow> wf_json v \<Longrightarrow> reads v \<Longrightarrow> utf8_valid k \<Longrightarrow>
     pmembers (qstr k @ CHR '':'' # json_text v @ members_text ms @ r) = Some ((k, v) # ms, r)"
proof (induction v and vs and ms arbitrary: and v r and k v r
    rule: json_text_elems_text_members_text.induct)
  case (3 n)
  then show ?case by (simp add: reads_def pval_number)
next
  case (4 s)
  then show ?case by (simp add: reads_def pval_string)
next
  case (6 v vs)
  then obtain c t where c: "json_text v = c # t" "\<not> is_ws c" "c \<noteq> CHR '']''"
    using json_text_head [of v] by auto
  have "pelems (json_text v @ elems_text vs @ r) = Some (v # vs, r)" for r
    using 6 by simp
  with c show ?case
    unfolding reads_def by (subst pval.simps) simp
next
  case (8 k v ms)
  have "pmembers (qstr k @ CHR '':'' # json_text v @ members_text ms @ r) = Some ((k, v) # ms, r)" for r
    using 8 by simp
  then show ?case
    unfolding reads_def by (subst pval.simps) (simp add: qstr_def)
next
  case 9
  then show ?case
    using pelems_step [of "json_text v" "CHR '']'' # r" v]
    by (simp add: reads_def text_nonempty)
next
  case (10 w vs)
  then have "pelems (json_text w @ elems_text vs @ r) = Some (w # vs, r)" by simp
  then show ?case
    using 10 pelems_step [of "json_text v" "elems_text (w # vs) @ r" v]
    by (simp add: reads_def text_nonempty)
next
  case 11
  then show ?case
    using pmembers_step [of k "json_text v" "CHR ''}'' # r" v]
    by (simp add: reads_def text_nonempty)
next
  case (12 j w ms)
  then have "pmembers (qstr j @ CHR '':'' # json_text w @ members_text ms @ r) = Some ((j, w) # ms, r)"
    by simp
  then show ?case
    using 12 pmembers_step [of k "json_text v" "members_text ((j, w) # ms) @ r" v]
    by (simp add: reads_def text_nonempty)
qed (simp_all add: reads_def pval.simps literal_def is_ws_def)

theorem json_roundtrip: "wf_json v \<Longrightarrow> json_parse (json_text v) = Some v"
  using pval_json_text(1) [of v]
  by (auto simp: reads_def json_parse_def dest: spec [of _ "[]"])

text \<open>The line that \<^verbatim>\<open>json.Encoder\<close> writes reads back as well.\<close>

theorem json_line_roundtrip: "wf_json v \<Longrightarrow> json_parse (json_text v @ [CHR 0x0A]) = Some v"
  using pval_json_text(1) [of v]
  by (auto simp: reads_def json_parse_def is_ws_def dest: spec [of _ "[CHR 0x0A]"])

lemma ascii_utf8_valid: "list_all (\<lambda>c. byte c < 0x80) s \<Longrightarrow> utf8_valid s"
  by (induction s) (simp_all add: utf8_valid.simps(2) utf8_len_ascii)

end
