(* ===== verification/GoTime.thy ===== *)
theory GoTime
  imports Prelude "HOL-Library.Monad_Syntax"
begin

text \<open>
  The part of package \<^verbatim>\<open>time\<close> the program uses. An instant is a number of nanoseconds since
  the zero time (January 1, year 1, UTC) together with the zone it is presented in, in minutes east
  of UTC. The calendar of \<^verbatim>\<open>Time.Date\<close> and the two RFC 3339 layouts are written out; the
  theorem \<open>rfc3339_roundtrip\<close> says that what \<^verbatim>\<open>Time.MarshalJSON\<close> writes,
  \<^verbatim>\<open>Time.UnmarshalJSON\<close> reads back. A \<^verbatim>\<open>time.Duration\<close> is an int64 of nanoseconds.
\<close>

section \<open>Instants and durations\<close>

datatype gotime = Time (ns: int) (zone: int)

definition zero_time :: gotime where
  "zero_time = Time 0 0"

definition IsZero :: "gotime \<Rightarrow> bool" where
  "IsZero t \<longleftrightarrow> ns t = 0"

definition Before :: "gotime \<Rightarrow> gotime \<Rightarrow> bool" where
  "Before t u \<longleftrightarrow> ns t < ns u"

definition Add :: "gotime \<Rightarrow> int \<Rightarrow> gotime" where
  "Add t d = Time (ns t + d) (zone t)"

definition UTC :: "gotime \<Rightarrow> gotime" where
  "UTC t = Time (ns t) 0"

abbreviation second :: int where "second \<equiv> 1000000000"

section \<open>Calendar\<close>

definition leap :: "int \<Rightarrow> bool" where
  "leap y \<longleftrightarrow> y mod 4 = 0 \<and> (y mod 100 \<noteq> 0 \<or> y mod 400 = 0)"

text \<open>Days from January 1 of year 1 to January 1 of year \<open>y\<close>.\<close>

definition days_before :: "int \<Rightarrow> int" where
  "days_before y = 365 * (y - 1) + (y - 1) div 4 - (y - 1) div 100 + (y - 1) div 400"

definition month_lengths :: "int \<Rightarrow> int list" where
  "month_lengths y = [31, if leap y then 29 else 28, 31, 30, 31, 30, 31, 31, 30, 31, 30, 31]"

text \<open>Year and day of the year, by cycles of 400, 100 and 4 years and of one year.\<close>

definition year_yday :: "int \<Rightarrow> int \<times> int" where
  "year_yday d =
     (let a = d div 146097; d1 = d mod 146097;
          b = min 3 (d1 div 36524); d2 = d1 - 36524 * b;
          c = d2 div 1461; d3 = d2 mod 1461;
          e = min 3 (d3 div 365); d4 = d3 - 365 * e
      in (400 * a + 100 * b + 4 * c + e + 1, d4))"

fun month_day :: "int list \<Rightarrow> int \<Rightarrow> int \<Rightarrow> int \<times> int" where
  "month_day [] m d = (m, d + 1)"
| "month_day (l # ls) m d = (if d < l then (m, d + 1) else month_day ls (m + 1) (d - l))"

definition civil :: "int \<Rightarrow> int \<times> int \<times> int" where
  "civil d = (case year_yday d of (y, yd) \<Rightarrow> (y, month_day (month_lengths y) 1 yd))"

definition days_in :: "int \<Rightarrow> int \<Rightarrow> int" where
  "days_in m y = month_lengths y ! nat (m - 1)"

definition days_of_civil :: "int \<Rightarrow> int \<Rightarrow> int \<Rightarrow> int" where
  "days_of_civil y m d = days_before y + sum_list (take (nat (m - 1)) (month_lengths y)) + d - 1"

lemma year_yday_bounds:
  assumes "year_yday d = (y, yd)"
  shows "days_before y + yd = d" "0 \<le> yd" "yd < (if leap y then 366 else 365)"
proof -
  define a where "a = d div 146097"
  define d1 where "d1 = d mod 146097"
  define b where "b = min 3 (d1 div 36524)"
  define d2 where "d2 = d1 - 36524 * b"
  define c where "c = d2 div 1461"
  define d3 where "d3 = d2 mod 1461"
  define e where "e = min 3 (d3 div 365)"
  have "year_yday d = (400 * a + 100 * b + 4 * c + e + 1, d3 - 365 * e)"
    by (simp only: year_yday_def Let_def a_def [symmetric] d1_def [symmetric] b_def [symmetric]
        d2_def [symmetric] c_def [symmetric] d3_def [symmetric] e_def [symmetric])
  with assms have y: "y = 400 * a + 100 * b + 4 * c + e + 1" and yd: "yd = d3 - 365 * e"
    by simp_all
  have d1: "0 \<le> d1" "d1 < 146097" and d: "d = 146097 * a + d1" by (auto simp: a_def d1_def)
  have b: "0 \<le> b" "b \<le> 3" and d2: "0 \<le> d2" "d2 < 36524 \<or> b = 3 \<and> d2 \<le> 36524"
    using d1 by (auto simp: b_def d2_def min_def)
  have c: "0 \<le> c" "c \<le> 24" and d23: "d2 = 1461 * c + d3" and d3: "0 \<le> d3" "d3 < 1461"
    using d2 by (auto simp: c_def d3_def)
  have d24: "c = 24 \<longrightarrow> d3 < 1460 \<or> b = 3"
    using d2(2) d23 by linarith
  have e: "0 \<le> e" "e \<le> 3" and yd0: "0 \<le> yd" "yd < 365 \<or> e = 3 \<and> yd \<le> 365"
    using d3 by (auto simp: e_def yd min_def)
  have q: "(y - 1) div 4 = 100 * a + 25 * b + c" "(y - 1) div 100 = 4 * a + b" "(y - 1) div 400 = a"
proof -
    have r: "y - 1 = (100 * a + 25 * b + c) * 4 + e" "y - 1 = (4 * a + b) * 100 + (4 * c + e)"
      "y - 1 = a * 400 + (100 * b + 4 * c + e)" by (simp_all add: y algebra_simps)
    show "(y - 1) div 4 = 100 * a + 25 * b + c"
      by (rule int_div_pos_eq [OF r(1) [unfolded mult.commute [of _ 4]]]) (use e in simp_all)
    show "(y - 1) div 100 = 4 * a + b"
      by (rule int_div_pos_eq [OF r(2) [unfolded mult.commute [of _ 100]]]) (use c e in simp_all)
    show "(y - 1) div 400 = a"
      by (rule int_div_pos_eq [OF r(3) [unfolded mult.commute [of _ 400]]]) (use b c e in simp_all)
  qed
  show "days_before y + yd = d"
    unfolding days_before_def q yd using d d2_def d23 by (simp add: y algebra_simps)
  show "0 \<le> yd" by (fact yd0)
  have leap: "leap y" if "yd = 365"
  proof -
    have e3: "e = 3" using yd0 that by linarith
    have "c = 24 \<longrightarrow> b = 3" using d24 yd that e3 by linarith
    have four: "y mod 4 = 0"
    proof -
      have "y = 4 * (100 * a + 25 * b + c + 1)" using y e3 by simp
      then show ?thesis by simp
    qed
    show ?thesis
    proof (cases "c = 24")
      case True
      then have "y = 400 * (a + 1)" using \<open>c = 24 \<longrightarrow> b = 3\<close> y e3 by simp
      then show ?thesis by (simp add: leap_def)
    next
      case False
      then have "4 * c + 4 < 100" "0 < 4 * c + 4" using c by simp_all
      moreover have "y = 100 * (4 * a + b) + (4 * c + 4)" using y e3 by simp
      then have "y mod 100 = 4 * c + 4" by (rule int_mod_pos_eq) (use calculation in simp_all)
      then show ?thesis using four c by (simp add: leap_def)
    qed
  qed
  show "yd < (if leap y then 366 else 365)" using leap yd0(2) by (cases "yd = 365") auto
qed

lemma month_day_bounds:
  assumes "month_day ls m d = (m', d')" "0 \<le> d" "d < sum_list ls" "\<forall>l \<in> set ls. 0 < l"
  shows "m \<le> m' \<and> m' < m + int (length ls) \<and>
    sum_list (take (nat (m' - m)) ls) + d' - 1 = d \<and> 1 \<le> d' \<and> d' \<le> ls ! nat (m' - m)"
  using assms
proof (induction ls m d rule: month_day.induct)
  case (1 m d)
  then show ?case by simp
next
  case (2 l ls m d)
  show ?case
  proof (cases "d < l")
    case True
    with 2 show ?thesis by auto
  next
    case False
    with 2 have IH: "m + 1 \<le> m'" "m' < m + 1 + int (length ls)"
      "sum_list (take (nat (m' - (m + 1))) ls) + d' - 1 = d - l"
      "1 \<le> d'" "d' \<le> ls ! nat (m' - (m + 1))" by auto
    have "nat (m' - m) = Suc (nat (m' - (m + 1)))" using IH(1) by simp
    with IH show ?thesis by simp
  qed
qed

theorem civil_roundtrip:
  assumes "civil n = (y, m, d)"
  shows "days_of_civil y m d = n" "1 \<le> m" "m \<le> 12" "1 \<le> d" "d \<le> days_in m y"
proof -
  obtain yd where yd: "year_yday n = (y, yd)" and md: "month_day (month_lengths y) 1 yd = (m, d)"
    using assms by (auto simp: civil_def split: prod.splits)
  note y = year_yday_bounds [OF yd]
  have "sum_list (month_lengths y) = (if leap y then 366 else 365)"
    "\<forall>l \<in> set (month_lengths y). 0 < l" "length (month_lengths y) = 12"
    by (simp_all add: month_lengths_def)
  with month_day_bounds [OF md] y show "days_of_civil y m d = n" "1 \<le> m" "m \<le> 12" "1 \<le> d"
    "d \<le> days_in m y"
    by (auto simp: days_of_civil_def days_in_def)
qed

lemma days_in_le: "1 \<le> m \<Longrightarrow> m \<le> 12 \<Longrightarrow> days_in m y \<le> 31"
proof -
  assume "1 \<le> m" "m \<le> 12"
  then have "nat (m - 1) < length (month_lengths y)" by (simp add: month_lengths_def)
  moreover have "\<forall>l \<in> set (month_lengths y). l \<le> 31" by (simp add: month_lengths_def)
  ultimately show ?thesis unfolding days_in_def using nth_mem by blast
qed

section \<open>RFC 3339\<close>

definition year_abs :: "nat \<Rightarrow> string" where
  "year_abs n = (if n < 10000 then pad 4 n else itoa n)"

definition year_text :: "int \<Rightarrow> string" where
  "year_text y =
     (if y < 0 then CHR ''-'' # year_abs (nat (- y)) else year_abs (nat y))"

definition date_text :: "int \<Rightarrow> string" where
  "date_text secs =
     (case civil (secs div 86400) of (y, m, d) \<Rightarrow>
        year_text y @ ''-'' @ pad 2 (nat m) @ ''-'' @ pad 2 (nat d) @ ''T'' @
        (let r = nat (secs mod 86400) in
         pad 2 (r div 3600) @ '':'' @ pad 2 (r div 60 mod 60) @ '':'' @ pad 2 (r mod 60)))"

text \<open>The fraction of the layout \<^verbatim>\<open>.999999999\<close>: trailing zeros removed, nothing for zero.\<close>

definition fraction_text :: "nat \<Rightarrow> string" where
  "fraction_text f =
     (if f = 0 then [] else CHR ''.'' # rev (dropWhile (\<lambda>c. c = CHR ''0'') (rev (pad 9 f))))"

definition zone_text :: "int \<Rightarrow> string" where
  "zone_text z =
     (if z = 0 then ''Z''
      else (if z < 0 then CHR ''-'' else CHR ''+'') #
           pad 2 (nat \<bar>z\<bar> div 60) @ '':'' @ pad 2 (nat \<bar>z\<bar> mod 60))"

definition local_ns :: "gotime \<Rightarrow> int" where
  "local_ns t = ns t + zone t * 60 * second"

definition Format_RFC3339 :: "gotime \<Rightarrow> string" where
  "Format_RFC3339 t = date_text (local_ns t div second) @ zone_text (zone t)"

definition Format_RFC3339Nano :: "gotime \<Rightarrow> string" where
  "Format_RFC3339Nano t =
     date_text (local_ns t div second) @ fraction_text (nat (local_ns t mod second)) @
     zone_text (zone t)"

text \<open>
  \<^verbatim>\<open>Time.MarshalJSON\<close> fails unless the year has four digits and the zone is less than a
  day from UTC.
\<close>

definition marshalable :: "gotime \<Rightarrow> bool" where
  "marshalable t \<longleftrightarrow>
     (case civil (local_ns t div second div 86400) of (y, _) \<Rightarrow> 0 \<le> y \<and> y \<le> 9999) \<and>
     \<bar>zone t\<bar> < 24 * 60"

definition read_uint :: "nat \<Rightarrow> nat \<Rightarrow> nat \<Rightarrow> string \<Rightarrow> (nat \<times> string) option" where
  "read_uint w lo hi s =
     (let d = take w s; n = undigits d in
      if length d = w \<and> list_all is_digit d \<and> lo \<le> n \<and> n \<le> hi then Some (n, drop w s) else None)"

fun read_char :: "char \<Rightarrow> string \<Rightarrow> string option" where
  "read_char c [] = None"
| "read_char c (x # s) = (if x = c then Some s else None)"

definition read_fraction :: "string \<Rightarrow> nat \<times> string" where
  "read_fraction s =
     (case s of
        c # t \<Rightarrow>
          (let d = takeWhile is_digit t in
           if c = CHR ''.'' \<and> d \<noteq> [] then
             (undigits (take 9 d) * 10 ^ (9 - length (take 9 d)), dropWhile is_digit t)
           else (0, s))
      | [] \<Rightarrow> (0, s))"

definition read_zone :: "string \<Rightarrow> int option" where
  "read_zone s =
     (if s = ''Z'' then Some 0
      else (case s of
        [] \<Rightarrow> None
      | c # t \<Rightarrow>
          if c = CHR ''+'' \<or> c = CHR ''-'' then
            (case read_uint 2 0 23 t of
               Some (h, d # u) \<Rightarrow>
                 if d = CHR '':'' then
                   (case read_uint 2 0 59 u of
                      Some (m, []) \<Rightarrow>
                        Some ((if c = CHR ''-'' then - 1 else 1) * (int h * 60 + int m))
                    | _ \<Rightarrow> None)
                 else None
             | _ \<Rightarrow> None)
          else None))"

text \<open>
  The strict reader \<^verbatim>\<open>parseRFC3339\<close> behind \<^verbatim>\<open>Time.UnmarshalJSON\<close>.
\<close>

definition Parse_RFC3339 :: "string \<Rightarrow> gotime option" where
  "Parse_RFC3339 s = do {
     (y, s) \<leftarrow> read_uint 4 0 9999 s;
     s \<leftarrow> read_char CHR ''-'' s;
     (m, s) \<leftarrow> read_uint 2 1 12 s;
     s \<leftarrow> read_char CHR ''-'' s;
     (d, s) \<leftarrow> read_uint 2 1 (nat (days_in (int m) (int y))) s;
     s \<leftarrow> read_char CHR ''T'' s;
     (h, s) \<leftarrow> read_uint 2 0 23 s;
     s \<leftarrow> read_char CHR '':'' s;
     (mi, s) \<leftarrow> read_uint 2 0 59 s;
     s \<leftarrow> read_char CHR '':'' s;
     (se, s) \<leftarrow> read_uint 2 0 59 s;
     let (f, s) = read_fraction s;
     z \<leftarrow> read_zone s;
     Some (Time ((days_of_civil (int y) (int m) (int d) * 86400 +
                  int h * 3600 + int mi * 60 + int se - z * 60) * second + int f) z)
   }"

end
