(* ===== verification/TimeRoundtrip.thy ===== *)
theory TimeRoundtrip
  imports GoTime
begin

text \<open>
  \<^verbatim>\<open>Time.UnmarshalJSON\<close> reads back what \<^verbatim>\<open>Time.MarshalJSON\<close> wrote: the instant to the
  nanosecond and the zone to the minute.
\<close>

lemma read_uint_pad [simp]:
  "n < 10 ^ w \<Longrightarrow> lo \<le> n \<Longrightarrow> n \<le> hi \<Longrightarrow> read_uint w lo hi (pad w n @ s) = Some (n, s)"
  by (simp add: read_uint_def pad_digits undigits_pad)

lemma undigits_zeros: "undigits (p @ replicate k (CHR ''0'')) = undigits p * 10 ^ k"
proof -
  have "foldl (\<lambda>a c. 10 * a + (of_char c - 48)) a (replicate k (CHR ''0'')) = a * 10 ^ k" for a :: nat
    by (induction k arbitrary: a) simp_all
  then show ?thesis by (simp add: undigits_def)
qed

lemma zone_text_head:
  "\<exists>c t. zone_text z = c # t \<and> c \<noteq> CHR ''.'' \<and> \<not> is_digit c"
  by (auto simp: zone_text_def is_digit_def)

lemma read_fraction_text:
  assumes "f < 10 ^ 9"
  shows "read_fraction (fraction_text f @ zone_text z) = (f, zone_text z)"
proof (cases "f = 0")
  case True
  then show ?thesis
    using zone_text_head [of z] by (auto simp: fraction_text_def read_fraction_def Let_def)
next
  case False
  let ?zero = "\<lambda>c. c = CHR ''0''"
  define p where "p = rev (dropWhile ?zero (rev (pad 9 f)))"
  define k where "k = length (takeWhile ?zero (rev (pad 9 f)))"
  have "takeWhile ?zero (rev (pad 9 f)) = replicate k (CHR ''0'')"
    unfolding k_def by (rule replicate_length_same [symmetric]) (auto dest: set_takeWhileD)
  then have "rev (pad 9 f) = replicate k (CHR ''0'') @ rev p"
    using takeWhile_dropWhile_id [of ?zero "rev (pad 9 f)"] by (simp only: p_def rev_rev_ident)
  from arg_cong [OF this, of rev] have split: "pad 9 f = p @ replicate k (CHR ''0'')"
    by simp
  have f: "undigits p * 10 ^ k = f"
    using undigits_pad [of 9 f] assms by (simp add: split undigits_zeros)
  have len: "length p + k = 9" using arg_cong [OF split, of length] by simp
  have dig: "list_all is_digit p" using pad_digits [of 9 f] by (simp add: split)
  have ne: "p \<noteq> []" using f False by (auto simp: undigits_def)
  obtain c t where z: "zone_text z = c # t" "\<not> is_digit c" using zone_text_head [of z] by blast
  have tw: "takeWhile is_digit (p @ zone_text z) = p" "dropWhile is_digit (p @ zone_text z) = zone_text z"
    using dig z by (auto simp: list_all_iff takeWhile_append dropWhile_append)
  have "9 - length p = k" using len by simp
  then show ?thesis
    using f len ne False
    by (simp add: fraction_text_def read_fraction_def tw Let_def flip: p_def)
qed

lemma read_zone_text:
  assumes "\<bar>z\<bar> < 24 * 60"
  shows "read_zone (zone_text z) = Some z"
proof (cases "z = 0")
  case False
  let ?n = "nat \<bar>z\<bar>"
  have n: "?n < 1440" using assms by linarith
  then have b: "?n div 60 \<le> 23" "?n div 60 < 100" by simp_all
  have "?n mod 60 < 60" by simp
  then have c: "?n mod 60 \<le> 59" "?n mod 60 < 100" by linarith+
  have "int ?n = int (?n div 60) * 60 + int (?n mod 60)"
    by (metis div_mult_mod_eq of_nat_add of_nat_mult of_nat_numeral)
  then have "(if z < 0 then - 1 else 1) * (int (?n div 60) * 60 + int (?n mod 60)) = z"
    by (auto simp: abs_if split: if_splits)
  moreover have "read_uint 2 0 23 (pad 2 (?n div 60) @ s) = Some (?n div 60, s)" for s
    using b by simp
  moreover have "read_uint 2 0 59 (pad 2 (?n mod 60)) = Some (?n mod 60, [])"
    using c read_uint_pad [of "?n mod 60" 2 0 59 "[]"] by simp
  ultimately show ?thesis
    using False by (auto simp: zone_text_def read_zone_def split: if_splits)
qed (simp add: zone_text_def read_zone_def)

theorem rfc3339_roundtrip:
  assumes "marshalable t"
  shows "Parse_RFC3339 (Format_RFC3339Nano t) = Some t"
proof -
  define secs where "secs = local_ns t div second"
  define f where "f = nat (local_ns t mod second)"
  define r where "r = nat (secs mod 86400)"
  obtain y m d where civ: "civil (secs div 86400) = (y, m, d)" by (cases "civil (secs div 86400)")
  have y: "0 \<le> y" "y \<le> 9999" and z: "\<bar>zone t\<bar> < 24 * 60"
    using assms civ by (auto simp: marshalable_def secs_def)
  note cr = civil_roundtrip [OF civ]
  have md: "nat m < 100" "1 \<le> nat m" "nat m \<le> 12" "nat d < 100" "1 \<le> nat d"
    "nat d \<le> nat (days_in m y)"
    using cr days_in_le [of m y] by auto
  have r: "r < 86400" by (simp add: r_def nat_less_iff)
  then have t3: "r div 3600 \<le> 23" "r div 3600 < 100" "r div 60 mod 60 \<le> 59" "r div 60 mod 60 < 100"
    "r mod 60 \<le> 59" "r mod 60 < 100"
    by (simp_all add: less_Suc_eq_le [symmetric] le_less_trans [of _ 59])
  have f9: "f < 10 ^ 9" by (simp add: f_def nat_less_iff)
  have hms: "int (r div 3600) * 3600 + int (r div 60 mod 60) * 60 + int (r mod 60) = secs mod 86400"
  proof -
    have "r div 3600 = r div 60 div 60" by (simp flip: div_mult2_eq)
    then have "r = r div 3600 * 3600 + r div 60 mod 60 * 60 + r mod 60"
      using div_mult_mod_eq [of r 60] div_mult_mod_eq [of "r div 60" 60] by linarith
    then have "int r = int (r div 3600) * 3600 + int (r div 60 mod 60) * 60 + int (r mod 60)"
      by linarith
    then show ?thesis by (simp add: r_def)
  qed
  have "Format_RFC3339Nano t =
      pad 4 (nat y) @ ''-'' @ pad 2 (nat m) @ ''-'' @ pad 2 (nat d) @ ''T'' @
      pad 2 (r div 3600) @ '':'' @ pad 2 (r div 60 mod 60) @ '':'' @ pad 2 (r mod 60) @
      fraction_text f @ zone_text (zone t)"
    using y civ nat_less_iff [of y 10000]
    by (simp add: Format_RFC3339Nano_def date_text_def year_text_def year_abs_def secs_def f_def
        r_def Let_def)
  moreover have "(days_of_civil y m d * 86400 + int (r div 3600) * 3600 +
      int (r div 60 mod 60) * 60 + int (r mod 60) - zone t * 60) * second + int f = ns t"
  proof -
    have "days_of_civil y m d * 86400 + secs mod 86400 = secs" using cr(1) by simp
    moreover have "secs * second + int f = local_ns t" by (simp add: secs_def f_def)
    ultimately show ?thesis using hms by (simp add: local_ns_def algebra_simps)
  qed
  ultimately show ?thesis
    using md t3 y cr z f9 nat_less_iff [of y 10000]
    by (simp add: Parse_RFC3339_def read_fraction_text read_zone_text)
qed

end
