(* ===== verification/Hash.thy ===== *)
theory Hash
  imports Prelude "HOL-Library.Word"
begin

text \<open>
  The functions of \<^verbatim>\<open>crypto/sha256\<close> and \<^verbatim>\<open>encoding/hex\<close> behind the names of cache files
  and keychain items: SHA-256 (FIPS 180-4) on byte strings and lower-case hexadecimal. Nothing is
  assumed about collisions; what the development needs is the shape of the digest.
\<close>

unbundle bit_operations_syntax

type_synonym u32 = "32 word"

definition rotr :: "nat \<Rightarrow> u32 \<Rightarrow> u32" where
  "rotr n x = drop_bit n x OR push_bit (32 - n) x"

text \<open>
  The constants: the first 32 bits of the fractional parts of the cube roots of the first 64 primes,
  and of the square roots of the first eight.
\<close>

definition small_primes :: "nat list" where
  "small_primes = filter (\<lambda>n. list_all (\<lambda>d. n mod d \<noteq> 0) [2..<n]) [2..<312]"

definition root_bits :: "nat \<Rightarrow> nat \<Rightarrow> nat" where
  "root_bits e p =
     foldl (\<lambda>r k. if (r + 2 ^ k) ^ e \<le> p * 2 ^ (32 * e) then r + 2 ^ k else r) 0 (rev [0..<35])"

definition round_constants :: "u32 list" where
  "round_constants = map (\<lambda>p. of_nat (root_bits 3 p mod 2 ^ 32)) small_primes"

datatype hash_state = HS u32 u32 u32 u32 u32 u32 u32 u32

definition initial_state :: hash_state where
  "initial_state =
     (let h = (\<lambda>p. of_nat (root_bits 2 p mod 2 ^ 32)) in HS (h 2) (h 3) (h 5) (h 7) (h 11) (h 13) (h 17) (h 19))"

text \<open>The message schedule, newest word first.\<close>

fun expand :: "nat \<Rightarrow> u32 list \<Rightarrow> u32 list" where
  "expand 0 ws = ws"
| "expand (Suc k) ws =
     (let w2 = ws ! 1; w7 = ws ! 6; w15 = ws ! 14; w16 = ws ! 15;
          s0 = rotr 7 w15 XOR rotr 18 w15 XOR drop_bit 3 w15;
          s1 = rotr 17 w2 XOR rotr 19 w2 XOR drop_bit 10 w2
      in expand k ((w16 + s0 + w7 + s1) # ws))"

fun round :: "hash_state \<Rightarrow> u32 \<times> u32 \<Rightarrow> hash_state" where
  "round (HS a b c d e f g h) (k, w) =
     (let s1 = rotr 6 e XOR rotr 11 e XOR rotr 25 e;
          ch = (e AND f) XOR (NOT e AND g);
          t1 = h + s1 + ch + k + w;
          s0 = rotr 2 a XOR rotr 13 a XOR rotr 22 a;
          maj = (a AND b) XOR (a AND c) XOR (b AND c)
      in HS (t1 + s0 + maj) a b c (d + t1) e f g)"

fun add_state :: "hash_state \<Rightarrow> hash_state \<Rightarrow> hash_state" where
  "add_state (HS a b c d e f g h) (HS a' b' c' d' e' f' g' h') =
     HS (a + a') (b + b') (c + c') (d + d') (e + e') (f + f') (g + g') (h + h')"

fun words_of :: "nat list \<Rightarrow> u32 list" where
  "words_of (a # b # c # d # r) = of_nat (((a * 256 + b) * 256 + c) * 256 + d) # words_of r"
| "words_of _ = []"

definition compress :: "hash_state \<Rightarrow> nat list \<Rightarrow> hash_state" where
  "compress s block =
     add_state s (foldl round s (zip round_constants (rev (expand 48 (rev (words_of block))))))"

fun bytes_be :: "nat \<Rightarrow> nat \<Rightarrow> nat list" where
  "bytes_be 0 n = []"
| "bytes_be (Suc w) n = bytes_be w (n div 256) @ [n mod 256]"

text \<open>The padding: a one bit, zeros to 56 modulo 64 bytes, the length in bits on 8 bytes.\<close>

definition padded :: "string \<Rightarrow> nat list" where
  "padded s =
     (let n = length s in
      map of_char s @ [0x80] @ replicate ((119 - n mod 64) mod 64) 0 @ bytes_be 8 (8 * n))"

function blocks :: "hash_state \<Rightarrow> nat list \<Rightarrow> hash_state" where
  "blocks s bs = (if bs = [] then s else blocks (compress s (take 64 bs)) (drop 64 bs))"
  by pat_completeness auto
termination
  by (relation "measure (\<lambda>(s, bs). length bs)") auto

declare blocks.simps [simp del]

fun digest :: "hash_state \<Rightarrow> nat list" where
  "digest (HS a b c d e f g h) = concat (map (\<lambda>w. bytes_be 4 (unat w)) [a, b, c, d, e, f, g, h])"

definition sha256 :: "string \<Rightarrow> nat list" where
  "sha256 s = digest (blocks initial_state (padded s))"

definition hex_char :: "nat \<Rightarrow> char" where
  "hex_char n = (if n < 10 then char_of (48 + n) else char_of (87 + n))"

definition hex_encode :: "nat list \<Rightarrow> string" where
  "hex_encode bs = concat (map (\<lambda>b. [hex_char (b div 16), hex_char (b mod 16)]) bs)"

text \<open>The characters of a hexadecimal string: digits and \<^verbatim>\<open>a\<close> to \<^verbatim>\<open>f\<close>.\<close>

definition is_hex :: "char \<Rightarrow> bool" where
  "is_hex c \<longleftrightarrow> is_digit c \<or> 97 \<le> (of_char c :: nat) \<and> (of_char c :: nat) \<le> 102"

lemma hex_char_is_hex: "n < 16 \<Longrightarrow> is_hex (hex_char n)"
  by (auto simp: hex_char_def is_hex_def is_digit_def)

lemma bytes_be_length [simp]: "length (bytes_be w n) = w"
  by (induction w arbitrary: n) auto

lemma bytes_be_bound: "b \<in> set (bytes_be w n) \<Longrightarrow> b < 256"
  by (induction w arbitrary: n) auto

lemma digest_length: "length (digest s) = 32"
  by (cases s) simp

lemma digest_bound: "b \<in> set (digest s) \<Longrightarrow> b < 256"
  by (cases s) (auto dest: bytes_be_bound)

lemma hex_encode_length: "length (hex_encode bs) = 2 * length bs"
  by (induction bs) (auto simp: hex_encode_def)

lemma hex_encode_chars:
  assumes "\<forall>b \<in> set bs. b < 256"
  shows "list_all is_hex (hex_encode bs)"
  using assms by (auto simp: hex_encode_def list_all_iff hex_char_is_hex)

end
