(* ===== verification/Store.thy ===== *)
theory Store
  imports JsonRoundtrip TimeRoundtrip Hash
begin

text \<open>
  internal/cache/store.go and the naming of profiles: the cached \<^verbatim>\<open>Entry\<close> with its JSON form,
  the profile key, the \<^verbatim>\<open>Store\<close> interface as a record of operations, and the contract of that
  interface as two locales: \<open>base_store\<close> (every backend) and \<open>persistent_store\<close> (a backend that
  remembers what it saved).
\<close>

section \<open>Entries\<close>

record entry =
  e_Issuer :: string
  e_ClientID :: string
  e_AccessToken :: string
  e_IDToken :: string
  e_RefreshToken :: string
  e_Expiry :: gotime

definition zero_entry :: entry where
  "zero_entry = \<lparr>e_Issuer = [], e_ClientID = [], e_AccessToken = [], e_IDToken = [],
     e_RefreshToken = [], e_Expiry = zero_time\<rparr>"

definition omitempty :: "string \<Rightarrow> string \<Rightarrow> (string \<times> json) list" where
  "omitempty k v = (if v = [] then [] else [(k, JStr v)])"

definition entry_json :: "entry \<Rightarrow> json" where
  "entry_json e = JObj (
     [(''issuer'', JStr (e_Issuer e)), (''client_id'', JStr (e_ClientID e))] @
     omitempty ''access_token'' (e_AccessToken e) @
     omitempty ''id_token'' (e_IDToken e) @
     omitempty ''refresh_token'' (e_RefreshToken e) @
     [(''expiry'', JStr (Format_RFC3339Nano (e_Expiry e)))])"

definition Marshal_Entry :: "entry \<Rightarrow> error + string" where
  "Marshal_Entry e =
     (if marshalable (e_Expiry e) then Inr (json_text (entry_json e))
      else Inl (External ''json: error calling MarshalJSON for type time.Time''))"

definition entry_fields :: "string list" where
  "entry_fields =
     [''issuer'', ''client_id'', ''access_token'', ''id_token'', ''refresh_token'', ''expiry'']"

text \<open>One member of the object: a JSON null leaves the field, any other type is an error.\<close>

definition set_entry_field :: "string \<Rightarrow> json \<Rightarrow> entry \<Rightarrow> entry option" where
  "set_entry_field k v e =
     (case struct_field entry_fields k of
        None \<Rightarrow> Some e
      | Some f \<Rightarrow>
          (case v of
             JNull \<Rightarrow> Some e
           | JStr s \<Rightarrow>
               if f = ''issuer'' then Some (e\<lparr>e_Issuer := s\<rparr>)
               else if f = ''client_id'' then Some (e\<lparr>e_ClientID := s\<rparr>)
               else if f = ''access_token'' then Some (e\<lparr>e_AccessToken := s\<rparr>)
               else if f = ''id_token'' then Some (e\<lparr>e_IDToken := s\<rparr>)
               else if f = ''refresh_token'' then Some (e\<lparr>e_RefreshToken := s\<rparr>)
               else map_option (\<lambda>t. e\<lparr>e_Expiry := t\<rparr>) (Parse_RFC3339 s)
           | _ \<Rightarrow> None))"

fun set_entry_fields :: "(string \<times> json) list \<Rightarrow> entry \<Rightarrow> entry option" where
  "set_entry_fields [] e = Some e"
| "set_entry_fields ((k, v) # ms) e =
     (case set_entry_field k v e of None \<Rightarrow> None | Some e' \<Rightarrow> set_entry_fields ms e')"

definition Unmarshal_Entry :: "string \<Rightarrow> entry option" where
  "Unmarshal_Entry b =
     (case json_parse b of
        Some JNull \<Rightarrow> Some zero_entry
      | Some (JObj ms) \<Rightarrow> set_entry_fields ms zero_entry
      | _ \<Rightarrow> None)"

text \<open>The entries JSON does not alter: valid UTF-8 in every field, an expiry with a four-digit year.\<close>

definition storable :: "entry \<Rightarrow> bool" where
  "storable e \<longleftrightarrow>
     utf8_valid (e_Issuer e) \<and> utf8_valid (e_ClientID e) \<and> utf8_valid (e_AccessToken e) \<and>
     utf8_valid (e_IDToken e) \<and> utf8_valid (e_RefreshToken e) \<and> marshalable (e_Expiry e)"

lemma digits_ascii: "list_all is_digit s \<Longrightarrow> list_all (\<lambda>c. byte c < 0x80) s"
  by (auto simp: list_all_iff is_digit_def)

lemma itoa_ascii: "list_all (\<lambda>c. byte c < 0x80) (itoa n)"
  using itoa_digits digits_ascii by blast

lemma pad_ascii: "list_all (\<lambda>c. byte c < 0x80) (pad w n)"
  using pad_digits digits_ascii by blast

lemma fraction_ascii: "list_all (\<lambda>c. byte c < 0x80) (fraction_text f)"
  using pad_ascii [of 9 f] by (auto simp: fraction_text_def list_all_iff dest: set_dropWhileD)

lemma date_ascii: "list_all (\<lambda>c. byte c < 0x80) (Format_RFC3339Nano t)"
  using pad_ascii itoa_ascii fraction_ascii
  by (auto simp: Format_RFC3339Nano_def date_text_def year_text_def year_abs_def zone_text_def Let_def
      split: prod.splits)

lemma entry_json_wf: "storable e \<Longrightarrow> wf_json (entry_json e)"
  by (simp add: storable_def entry_json_def omitempty_def ascii_utf8_valid date_ascii)

theorem entry_roundtrip: "storable e \<Longrightarrow> Marshal_Entry e = Inr b \<Longrightarrow> Unmarshal_Entry b = Some e"
  using json_roundtrip [OF entry_json_wf, of e]
  by (auto simp: Marshal_Entry_def Unmarshal_Entry_def storable_def entry_json_def omitempty_def
      set_entry_field_def entry_fields_def zero_entry_def rfc3339_roundtrip split: if_splits)

lemma storable_marshals: "storable e \<Longrightarrow> \<exists>b. Marshal_Entry e = Inr b"
  by (simp add: Marshal_Entry_def storable_def)

section \<open>Profile keys\<close>

definition profileKey :: "string \<Rightarrow> string \<Rightarrow> string" where
  "profileKey issuer clientID = hex_encode (sha256 (issuer @ [CHR 0x00] @ clientID))"

lemma profileKey_hex: "list_all is_hex (profileKey i c)"
  unfolding profileKey_def by (rule hex_encode_chars) (auto simp: sha256_def dest: digest_bound)

lemma profileKey_length: "length (profileKey i c) = 64"
  by (simp add: profileKey_def hex_encode_length sha256_def digest_length)

section \<open>The Store interface\<close>

text \<open>
  \<^verbatim>\<open>Load\<close> returns \<open>Inr None\<close> for Go's \<^verbatim>\<open>(Entry{}, false, nil)\<close>. The closure that
  \<^verbatim>\<open>WithLock\<close> runs returns, beside its error, a value of type \<open>'r\<close>: what the caller's
  captured variables hold afterwards.
\<close>

record ('w, 'r) store =
  Load :: "string \<Rightarrow> string \<Rightarrow> 'w \<Rightarrow> (error + entry option) \<times> 'w"
  Save :: "entry \<Rightarrow> 'w \<Rightarrow> error option \<times> 'w"
  Delete :: "string \<Rightarrow> string \<Rightarrow> 'w \<Rightarrow> error option \<times> 'w"
  WithLock :: "string \<Rightarrow> string \<Rightarrow> ('w \<Rightarrow> (error + 'r) \<times> 'w) \<Rightarrow> 'w \<Rightarrow> (error + 'r) \<times> 'w"

text \<open>
  The contract of store.go's comments: what \<^verbatim>\<open>Load\<close> reports is the backend's view of the
  profile and reading changes nothing; \<^verbatim>\<open>Delete\<close> removes the entry or fails and changes
  nothing; \<^verbatim>\<open>Save\<close> never touches another profile.
\<close>

locale base_store =
  fixes load :: "string \<Rightarrow> string \<Rightarrow> 'w \<Rightarrow> (error + entry option) \<times> 'w"
    and save :: "entry \<Rightarrow> 'w \<Rightarrow> error option \<times> 'w"
    and delete :: "string \<Rightarrow> string \<Rightarrow> 'w \<Rightarrow> error option \<times> 'w"
    and view :: "'w \<Rightarrow> string \<Rightarrow> entry option"
  assumes load_view: "load i c w = (Inr x, w') \<Longrightarrow> x = view w (profileKey i c)"
    and load_frame: "load i c w = (y, w') \<Longrightarrow> view w' = view w"
    and save_other: "save e w = (r, w') \<Longrightarrow> k \<noteq> profileKey (e_Issuer e) (e_ClientID e) \<Longrightarrow>
      view w' k = view w k"
    and delete_ok: "delete i c w = (None, w') \<Longrightarrow> view w' = (view w)(profileKey i c := None)"
    and delete_err: "delete i c w = (Some err, w') \<Longrightarrow> view w' = view w"
begin

lemma load_after_delete:
  assumes "delete i c w = (None, w1)" "load i c w1 = (Inr r, w2)"
  shows "r = None"
  using assms delete_ok load_view by fastforce

lemma delete_other:
  assumes "delete i c w = (r, w')" "k \<noteq> profileKey i c"
  shows "view w' k = view w k"
  using assms delete_ok delete_err by (cases r) fastforce+

lemma load_twice:
  assumes "load i c w = (r, w1)" "load i c w1 = (Inr x, w2)"
  shows "x = view w (profileKey i c)"
  using assms load_view load_frame by metis

end

locale persistent_store = base_store +
  assumes save_ok: "storable e \<Longrightarrow> save e w = (None, w') \<Longrightarrow>
      view w' = (view w)(profileKey (e_Issuer e) (e_ClientID e) \<mapsto> e)"
    and save_err: "save e w = (Some err, w') \<Longrightarrow> view w' = view w"
begin

lemma load_after_save:
  assumes "storable e" "save e w = (None, w1)" "load (e_Issuer e) (e_ClientID e) w1 = (Inr r, w2)"
  shows "r = Some e"
  using assms save_ok load_view by fastforce

lemma load_after_failed_save:
  assumes "save e w = (Some err, w1)" "load i c w1 = (Inr r, w2)"
  shows "r = view w (profileKey i c)"
  using assms save_err load_view by metis

end

text \<open>
  A store whose lock is an error without a call of the closure, or one call of it: taking and
  releasing the lock changes no entry.
\<close>

locale locked_store = persistent_store +
  fixes withlock :: "string \<Rightarrow> string \<Rightarrow> ('a \<Rightarrow> (error + 'r) \<times> 'a) \<Rightarrow> 'a \<Rightarrow> (error + 'r) \<times> 'a"
  assumes lock: "withlock i c fn w = (y, w') \<Longrightarrow>
      (\<exists>err. y = Inl err \<and> view w' = view w) \<or>
      (\<exists>v v'. view v = view w \<and> fn v = (y, v') \<and> view w' = view v')"
begin

lemma lock_success:
  assumes "withlock i c fn w = (Inr x, w')"
  obtains v v' where "view v = view w" "fn v = (Inr x, v')" "view w' = view v'"
  using lock [OF assms] by blast

text \<open>The store as the record of its operations.\<close>

definition ops :: "('a, 'r) store" where
  "ops = \<lparr>Load = load, Save = save, Delete = delete, WithLock = withlock\<rparr>"

lemma ops_simps [simp]: "Load ops = load" "Save ops = save" "Delete ops = delete" "WithLock ops = withlock"
  by (simp_all add: ops_def)

end

end
