(* ===== verification/Output.thy ===== *)
theory Output
  imports Store
begin

text \<open>
  internal/output/output.go: the credential material of a run and the three documents it is printed
  as. A writer is a function of the world that may fail; the documents are built as maps and written
  in one call.
\<close>

section \<open>Results and documents\<close>

definition TokenTypeAccessToken :: string where "TokenTypeAccessToken = ''access_token''"
definition TokenTypeIDToken :: string where "TokenTypeIDToken = ''id_token''"

lemmas token_types = TokenTypeAccessToken_def TokenTypeIDToken_def

definition DefaultExecCredentialAPIVersion :: string where
  "DefaultExecCredentialAPIVersion = ''client.authentication.k8s.io/v1''"

text \<open>
  \<^verbatim>\<open>Extra\<close> is a nil map or one decoded from JSON; nil and empty behave alike, both are \<open>[]\<close>.
\<close>

record result =
  r_AccessToken :: string
  r_IDToken :: string
  r_RefreshToken :: string
  r_Expiry :: gotime
  r_IDTokenError :: "error option"
  r_IssuedTokenType :: string
  r_Extra :: jmap

definition zero_result :: result where
  "zero_result = \<lparr>r_AccessToken = [], r_IDToken = [], r_RefreshToken = [], r_Expiry = zero_time,
     r_IDTokenError = None, r_IssuedTokenType = [], r_Extra = []\<rparr>"

definition Select :: "result \<Rightarrow> string \<Rightarrow> string \<times> bool" where
  "Select r tt =
     (if tt = TokenTypeIDToken then (r_IDToken r, r_IDToken r \<noteq> [])
      else if tt = TokenTypeAccessToken then (r_AccessToken r, r_AccessToken r \<noteq> [])
      else ([], False))"

type_synonym 'w writer = "string \<Rightarrow> 'w \<Rightarrow> error option \<times> 'w"

definition no_token :: "string \<Rightarrow> error" where
  "no_token tt = Errorf [T ''output: no '', S tt, T '' available'']"

definition WriteBare :: "'w writer \<Rightarrow> result \<Rightarrow> string \<Rightarrow> 'w \<Rightarrow> error option \<times> 'w" where
  "WriteBare out r tt w =
     (case Select r tt of (token, ok) \<Rightarrow>
        if \<not> ok then (Some (no_token tt), w) else out token w)"

text \<open>\<^verbatim>\<open>json.Marshal\<close> of a map of strings and decoded JSON values cannot fail.\<close>

definition set_key :: "bool \<Rightarrow> string \<Rightarrow> json \<Rightarrow> jmap \<Rightarrow> jmap" where
  "set_key present k v m = (if present then AList.update k v m else m)"

definition all_doc :: "result \<Rightarrow> jmap" where
  "all_doc r =
     (let doc = set_key (r_AccessToken r \<noteq> []) ''access_token'' (JStr (r_AccessToken r)) [];
          doc = set_key (r_IDToken r \<noteq> []) ''id_token'' (JStr (r_IDToken r)) doc;
          doc = set_key (r_RefreshToken r \<noteq> []) ''refresh_token'' (JStr (r_RefreshToken r)) doc;
          doc = set_key (\<not> IsZero (r_Expiry r)) ''expiry'' (JStr (Format_RFC3339 (UTC (r_Expiry r)))) doc;
          doc = set_key (r_IssuedTokenType r \<noteq> []) ''issued_token_type'' (JStr (r_IssuedTokenType r)) doc
      in foldl (\<lambda>m (k, v). AList.update k v m) doc (r_Extra r))"

definition WriteAll :: "'w writer \<Rightarrow> result \<Rightarrow> 'w \<Rightarrow> error option \<times> 'w" where
  "WriteAll out r w = out (json_text (canonical (JObj (all_doc r)))) w"

definition exec_doc :: "result \<Rightarrow> string \<Rightarrow> string \<Rightarrow> json" where
  "exec_doc r token apiVersion =
     (let status = set_key (\<not> IsZero (r_Expiry r)) ''expirationTimestamp''
            (JStr (Format_RFC3339 (UTC (r_Expiry r)))) [(''token'', JStr token)]
      in JObj [(''apiVersion'', JStr apiVersion), (''kind'', JStr ''ExecCredential''),
               (''status'', JObj status)])"

definition WriteExecCredential ::
  "'w writer \<Rightarrow> result \<Rightarrow> string \<Rightarrow> string \<Rightarrow> 'w \<Rightarrow> error option \<times> 'w" where
  "WriteExecCredential out r tt apiVersion w =
     (case Select r tt of (token, ok) \<Rightarrow>
        if \<not> ok then (Some (no_token tt), w)
        else (let apiVersion = (if apiVersion = [] then DefaultExecCredentialAPIVersion else apiVersion)
              in out (json_text (canonical (exec_doc r token apiVersion))) w))"

text \<open>
  Decoding \<^verbatim>\<open>$KUBERNETES_EXEC_INFO\<close> into a struct with the one field \<^verbatim>\<open>apiVersion\<close>:
  a field of another type is an error, whatever else the object holds.
\<close>

fun api_version_of :: "(string \<times> json) list \<Rightarrow> string \<Rightarrow> string option" where
  "api_version_of [] v = Some v"
| "api_version_of ((k, x) # ms) v =
     (if struct_field [''apiVersion''] k = None then api_version_of ms v
      else (case x of
          JNull \<Rightarrow> api_version_of ms v
        | JStr s \<Rightarrow> api_version_of ms s
        | _ \<Rightarrow> None))"

definition Unmarshal_execCredentialEnv :: "string \<Rightarrow> string option" where
  "Unmarshal_execCredentialEnv raw =
     (case json_parse raw of
        Some JNull \<Rightarrow> Some []
      | Some (JObj ms) \<Rightarrow> api_version_of ms []
      | _ \<Rightarrow> None)"

definition ExecCredentialAPIVersion :: "(string \<Rightarrow> string) option \<Rightarrow> string" where
  "ExecCredentialAPIVersion getenv =
     (case getenv of
        None \<Rightarrow> DefaultExecCredentialAPIVersion
      | Some env \<Rightarrow>
          (let raw = env ''KUBERNETES_EXEC_INFO'' in
           if raw = [] then DefaultExecCredentialAPIVersion
           else (case Unmarshal_execCredentialEnv raw of
               None \<Rightarrow> DefaultExecCredentialAPIVersion
             | Some v \<Rightarrow> if v = [] then DefaultExecCredentialAPIVersion else v)))"

section \<open>Sorted maps\<close>

lemma mset_insert_key: "set (insert_key p m) = insert p (set m)"
  by (induction m) auto

lemma set_sort_keys: "set (sort_keys m) = set m"
  by (induction m) (auto simp: sort_keys_def mset_insert_key)

lemma fst_insert_key: "fst ` set (insert_key p m) = insert (fst p) (fst ` set m)"
  by (simp add: mset_insert_key)

lemma distinct_insert_key:
  "distinct (map fst m) \<Longrightarrow> fst p \<notin> fst ` set m \<Longrightarrow> distinct (map fst (insert_key p m))"
  by (induction m) (auto simp: fst_insert_key)

lemma distinct_sort_keys: "distinct (map fst m) \<Longrightarrow> distinct (map fst (sort_keys m))"
proof (induction m)
  case (Cons p m)
  have "fst ` set (foldr insert_key m []) = fst ` set m"
    using set_sort_keys [of m] by (simp add: sort_keys_def)
  with Cons show ?case by (simp add: sort_keys_def distinct_insert_key)
qed (simp add: sort_keys_def)

lemma map_of_sort_keys: "distinct (map fst m) \<Longrightarrow> map_of (sort_keys m) = map_of m"
  by (rule map_of_inject_set [THEN iffD2, rotated 2]) (simp_all add: set_sort_keys distinct_sort_keys)

lemma list_all_sort_keys: "list_all P (sort_keys m) = list_all P m"
  by (simp add: list_all_iff set_sort_keys)

lemma canonical_wf: "wf_json v \<Longrightarrow> wf_json (canonical v)"
proof (induction v rule: canonical.induct)
  case (2 ms)
  then show ?case by (auto simp: list_all_sort_keys) (auto simp: list_all_iff)
qed (auto simp: list_all_iff)

lemma map_of_canonical:
  "map_of (map (\<lambda>(k, v). (k, f v)) m) k = map_option f (map_of m k)"
  by (induction m) auto

lemma fst_map_canonical: "map fst (map (\<lambda>(k, v). (k, f v)) m) = map fst m"
  by (induction m) auto

text \<open>What a reader of a written map finds.\<close>

lemma written_map:
  assumes "list_all (\<lambda>(k, v). utf8_valid k \<and> wf_json v) m" "distinct (map fst m)"
  shows "\<exists>ms. json_parse (json_text (canonical (JObj m))) = Some (JObj ms) \<and>
    (\<forall>k. map_of ms k = map_option canonical (map_of m k))"
proof -
  have "wf_json (JObj m)" using assms(1) by simp
  then have "json_parse (json_text (canonical (JObj m))) = Some (canonical (JObj m))"
    by (intro json_roundtrip canonical_wf)
  moreover have "distinct (map fst (map (\<lambda>(k, v). (k, canonical v)) m))"
    unfolding fst_map_canonical by (rule assms(2))
  ultimately show ?thesis by (simp add: map_of_sort_keys map_of_canonical)
qed

section \<open>The documents as maps\<close>

lemma foldl_update_distinct:
  "distinct (map fst m) \<Longrightarrow> distinct (map fst (foldl (\<lambda>m (k, v). AList.update k v m) m xs))"
  by (induction xs arbitrary: m) (auto simp: distinct_update)

lemma foldl_update_map:
  "distinct (map fst xs) \<Longrightarrow>
   map_of (foldl (\<lambda>m (k, v). AList.update k v m) m xs) k =
     (case map_of xs k of Some v \<Rightarrow> Some v | None \<Rightarrow> map_of m k)"
proof (induction xs arbitrary: m)
  case (Cons p xs)
  then show ?case
    by (cases p) (auto simp: update_conv' split: option.splits dest: map_of_SomeD intro: rev_image_eqI)
qed simp

lemma foldl_update_all:
  assumes "list_all P m" "list_all P xs"
  shows "list_all P (foldl (\<lambda>m (k, v). AList.update k v m) m xs)"
  using assms
proof (induction xs arbitrary: m)
  case (Cons p xs)
  obtain k v where p: "p = (k, v)" by (cases p)
  have "set (AList.update k v m) \<subseteq> insert (k, v) (set m)"
    by (induction m) auto
  with Cons.prems p have "list_all P (AList.update k v m)" by (auto simp: list_all_iff)
  then show ?case using Cons p by simp
qed simp

lemma fraction_less_ascii: "list_all (\<lambda>c. byte c < 0x80) (Format_RFC3339 t)"
  using pad_ascii itoa_ascii
  by (auto simp: Format_RFC3339_def date_text_def year_text_def year_abs_def zone_text_def Let_def
      split: prod.splits)

lemma rfc3339_utf8 [simp]: "utf8_valid (Format_RFC3339 t)"
  by (intro ascii_utf8_valid fraction_less_ascii)

definition printable :: "result \<Rightarrow> bool" where
  "printable r \<longleftrightarrow> utf8_valid (r_AccessToken r) \<and> utf8_valid (r_IDToken r) \<and>
     utf8_valid (r_RefreshToken r) \<and> utf8_valid (r_IssuedTokenType r) \<and>
     list_all (\<lambda>(k, v). utf8_valid k \<and> wf_json v) (r_Extra r) \<and> distinct (map fst (r_Extra r))"

lemma ascii_keys [simp]:
  "utf8_valid ''access_token''" "utf8_valid ''id_token''" "utf8_valid ''refresh_token''"
  "utf8_valid ''expiry''" "utf8_valid ''issued_token_type''" "utf8_valid ''token''"
  "utf8_valid ''expirationTimestamp''" "utf8_valid ''apiVersion''" "utf8_valid ''kind''"
  "utf8_valid ''status''" "utf8_valid ''ExecCredential''"
  by (simp_all add: ascii_utf8_valid)

lemma set_key_map: "map_of (set_key b k v m) k' = (if k' = k \<and> b then Some v else map_of m k')"
  by (simp add: set_key_def update_conv')

lemma set_key_distinct: "distinct (map fst m) \<Longrightarrow> distinct (map fst (set_key b k v m))"
  by (simp add: set_key_def distinct_update)

lemma set_key_all: "list_all P m \<Longrightarrow> P (k, v) \<Longrightarrow> list_all P (set_key b k v m)"
  using foldl_update_all [of P m "[(k, v)]"] by (simp add: set_key_def)

lemma all_doc_wf:
  assumes "printable r"
  shows "list_all (\<lambda>(k, v). utf8_valid k \<and> wf_json v) (all_doc r)" "distinct (map fst (all_doc r))"
  unfolding all_doc_def Let_def
   apply (intro foldl_update_all set_key_all; use assms in \<open>simp add: printable_def\<close>)
  apply (intro foldl_update_distinct set_key_distinct; simp)
  done

lemma all_doc_map:
  assumes "distinct (map fst (r_Extra r))"
  shows "map_of (all_doc r) k =
    (case map_of (r_Extra r) k of Some v \<Rightarrow> Some v | None \<Rightarrow>
       (if k = ''issued_token_type'' \<and> r_IssuedTokenType r \<noteq> [] then Some (JStr (r_IssuedTokenType r))
        else if k = ''expiry'' \<and> \<not> IsZero (r_Expiry r) then Some (JStr (Format_RFC3339 (UTC (r_Expiry r))))
        else if k = ''refresh_token'' \<and> r_RefreshToken r \<noteq> [] then Some (JStr (r_RefreshToken r))
        else if k = ''id_token'' \<and> r_IDToken r \<noteq> [] then Some (JStr (r_IDToken r))
        else if k = ''access_token'' \<and> r_AccessToken r \<noteq> [] then Some (JStr (r_AccessToken r))
        else None))"
  unfolding all_doc_def Let_def foldl_update_map [OF assms] set_key_map map_of.simps by (rule refl)

end
