(* ===== verification/SubjectToken.thy ===== *)
theory SubjectToken
  imports UrlParse Output
begin

text \<open>
  internal/subjecttoken and the HTTP requests of the program. The HTTP client is a parameter: a
  function of the request and the world. The source of subject tokens that exists asks GitHub
  Actions' token endpoint.
\<close>

section \<open>HTTP\<close>

text \<open>
  \<open>rs_Body\<close> is what can be read of the body; \<open>rs_BodyErr\<close> the error after it, if the connection
  broke.
\<close>

record http_request =
  rq_Method :: string
  rq_URL :: string
  rq_Header :: "(string \<times> string) list"
  rq_Body :: string

record http_response =
  rs_StatusCode :: nat
  rs_Body :: string
  rs_BodyErr :: "error option"

type_synonym 'w http_client = "http_request \<Rightarrow> 'w \<Rightarrow> (error + http_response) \<times> 'w"

text \<open>\<^verbatim>\<open>http.NewRequestWithContext\<close>: the URL is parsed; constant methods are valid.\<close>

definition NewRequest :: "string \<Rightarrow> string \<Rightarrow> string \<Rightarrow> error + http_request" where
  "NewRequest m raw body =
     (case url_Parse raw of
        Inl err \<Rightarrow> Inl err
      | Inr u \<Rightarrow> Inr \<lparr>rq_Method = m, rq_URL = raw, rq_Header = [], rq_Body = body\<rparr>)"

definition set_header :: "string \<Rightarrow> string \<Rightarrow> http_request \<Rightarrow> http_request" where
  "set_header k v r = r\<lparr>rq_Header := AList.update k v (rq_Header r)\<rparr>"

text \<open>\<^verbatim>\<open>io.ReadAll(io.LimitReader(resp.Body, n))\<close>.\<close>

definition read_limited :: "nat \<Rightarrow> http_response \<Rightarrow> error + string" where
  "read_limited n rs =
     (case rs_BodyErr rs of
        Some err \<Rightarrow> if length (rs_Body rs) < n then Inl err else Inr (take n (rs_Body rs))
      | None \<Rightarrow> Inr (take n (rs_Body rs)))"

section \<open>Sources\<close>

record 'w subject_source =
  src_Name :: string
  src_DefaultTokenType :: string
  src_Fetch :: "string \<Rightarrow> 'w \<Rightarrow> (error + string) \<times> 'w"

definition FindSource :: "'w subject_source list \<Rightarrow> string \<Rightarrow> 'w subject_source option" where
  "FindSource sources name = find (\<lambda>s. src_Name s = name) sources"

definition SourceNames :: "'w subject_source list \<Rightarrow> string list" where
  "SourceNames sources = map src_Name sources"

section \<open>GitHub Actions\<close>

definition DefaultTokenTypeGitHubActions :: string where
  "DefaultTokenTypeGitHubActions = ''urn:ietf:params:oauth:token-type:id_token''"

definition maxResponseBytes :: nat where
  "maxResponseBytes = 2 ^ 20"

text \<open>A struct with one string field: other members are ignored, null leaves the field.\<close>

fun string_member :: "string \<Rightarrow> (string \<times> json) list \<Rightarrow> string \<Rightarrow> string option" where
  "string_member f [] v = Some v"
| "string_member f ((k, x) # ms) v =
     (if struct_field [f] k = None then string_member f ms v
      else (case x of
          JNull \<Rightarrow> string_member f ms v
        | JStr s \<Rightarrow> string_member f ms s
        | _ \<Rightarrow> None))"

definition Unmarshal_githubActionsTokenResponse :: "string \<Rightarrow> string option" where
  "Unmarshal_githubActionsTokenResponse body =
     (case json_parse body of
        Some JNull \<Rightarrow> Some []
      | Some (JObj ms) \<Rightarrow> string_member ''value'' ms []
      | _ \<Rightarrow> None)"

definition github_request :: "string \<Rightarrow> string \<Rightarrow> string \<Rightarrow> error + http_request" where
  "github_request reqURL reqToken audience =
     (case url_Parse reqURL of
        Inl err \<Rightarrow> Inl (wrap ''subjecttoken: parse $ACTIONS_ID_TOKEN_REQUEST_URL: '' err)
      | Inr u \<Rightarrow>
          (let u' = (if audience \<noteq> [] then u\<lparr>u_RawQuery := Encode (vals_Set ''audience'' audience (url_Query u))\<rparr> else u)
           in case NewRequest ''GET'' (url_String u') [] of
                Inl err \<Rightarrow> Inl (wrap ''subjecttoken: build github-actions token request: '' err)
              | Inr req \<Rightarrow> Inr (set_header ''Authorization'' (''bearer '' @ reqToken) req)))"

text \<open>
  The client is the one given, or the package's own for a nil one; the error of a status other than 200
  names it by its number, where the code has \<^verbatim>\<open>resp.Status\<close>.
\<close>

definition FetchGitHubActions ::
  "(string \<Rightarrow> string) \<Rightarrow> string \<Rightarrow> 'w http_client \<Rightarrow> 'w \<Rightarrow> (error + string) \<times> 'w" where
  "FetchGitHubActions getenv audience client w =
     (let reqURL = getenv ''ACTIONS_ID_TOKEN_REQUEST_URL'';
          reqToken = getenv ''ACTIONS_ID_TOKEN_REQUEST_TOKEN'' in
      if reqURL = [] \<or> reqToken = [] then
        (Inl (errorf ''subjecttoken: --subject-token-source=github-actions requires $ACTIONS_ID_TOKEN_REQUEST_URL and $ACTIONS_ID_TOKEN_REQUEST_TOKEN, set by GitHub Actions only when the job has \"permissions: id-token: write\"''), w)
      else (case github_request reqURL reqToken audience of
          Inl err \<Rightarrow> (Inl err, w)
        | Inr req \<Rightarrow>
            (case client req w of
               (Inl err, w') \<Rightarrow> (Inl (wrap ''subjecttoken: fetch github-actions token: '' err), w')
             | (Inr rs, w') \<Rightarrow>
                 (case read_limited maxResponseBytes rs of
                    Inl err \<Rightarrow> (Inl (wrap ''subjecttoken: read github-actions token response: '' err), w')
                  | Inr body \<Rightarrow>
                      if rs_StatusCode rs \<noteq> 200 then
                        (Inl (Errorf [T ''subjecttoken: github-actions token endpoint returned '',
                           S (itoa (rs_StatusCode rs)), T '': '', S body]), w')
                      else (case Unmarshal_githubActionsTokenResponse body of
                          None \<Rightarrow> (Inl (wrap ''subjecttoken: parse github-actions token response: ''
                                     (External ''json'')), w')
                        | Some v \<Rightarrow>
                            if v = [] then (Inl (errorf ''subjecttoken: github-actions token response has empty \"value\"''), w')
                            else (Inr v, w'))))))"

definition GitHubActions :: "(string \<Rightarrow> string) \<Rightarrow> 'w http_client \<Rightarrow> 'w subject_source" where
  "GitHubActions getenv client = \<lparr>src_Name = ''github-actions'',
     src_DefaultTokenType = DefaultTokenTypeGitHubActions,
     src_Fetch = (\<lambda>audience. FetchGitHubActions getenv audience client)\<rparr>"

section \<open>What is asked and what is returned\<close>

lemma FetchGitHubActions_cases:
  assumes "FetchGitHubActions getenv audience client w = (Inr v, w')"
  obtains req rs body where
    "github_request (getenv ''ACTIONS_ID_TOKEN_REQUEST_URL'') (getenv ''ACTIONS_ID_TOKEN_REQUEST_TOKEN'') audience = Inr req"
    "client req w = (Inr rs, w')" "rs_StatusCode rs = 200" "read_limited maxResponseBytes rs = Inr body"
    "Unmarshal_githubActionsTokenResponse body = Some v" "v \<noteq> []"
    "getenv ''ACTIONS_ID_TOKEN_REQUEST_TOKEN'' \<noteq> []"
  using assms unfolding FetchGitHubActions_def Let_def
  by (auto split: if_splits sum.splits prod.splits option.splits)

lemma github_request_header:
  "github_request url tok aud = Inr req \<Longrightarrow> map_of (rq_Header req) ''Authorization'' = Some (''bearer '' @ tok)"
  by (auto simp: github_request_def set_header_def NewRequest_def update_conv' Let_def split: sum.splits)

end
