(* ===== verification/FlagSet.thy ===== *)
theory FlagSet
  imports Url
begin

text \<open>
  What the program uses of Go's packages \<^verbatim>\<open>flag\<close> and \<^verbatim>\<open>strconv\<close>: a flag set with typed
  values, the parsing of an argument list with \<^verbatim>\<open>ContinueOnError\<close>, and the conversions of
  integers and booleans.
\<close>

section \<open>strconv\<close>

text \<open>\<^verbatim>\<open>strconv.Atoi\<close> on 64 bits: an optional sign and decimal digits.\<close>

definition in_int64 :: "int \<Rightarrow> bool" where
  "in_int64 n \<longleftrightarrow> - (2 ^ 63) \<le> n \<and> n < 2 ^ 63"

definition signed :: "(string \<Rightarrow> nat option) \<Rightarrow> string \<Rightarrow> int option" where
  "signed f s =
     (case s of
        [] \<Rightarrow> None
      | c # t \<Rightarrow>
          (case (if c = CHR ''-'' then map_option (\<lambda>n. - int n) (f t)
                 else if c = CHR ''+'' then map_option int (f t) else map_option int (f s)) of
             None \<Rightarrow> None
           | Some n \<Rightarrow> if in_int64 n then Some n else None))"

definition decimal :: "string \<Rightarrow> nat option" where
  "decimal s = (if s \<noteq> [] \<and> list_all is_digit s then Some (undigits s) else None)"

definition Atoi :: "string \<Rightarrow> int option" where
  "Atoi s = signed decimal s"

definition digit_val :: "char \<Rightarrow> nat option" where
  "digit_val c =
     (if is_digit c then Some (byte c - 48)
      else if 97 \<le> byte (to_lower c) \<and> byte (to_lower c) \<le> 122 then Some (byte (to_lower c) - 87)
      else None)"

text \<open>The digits of a base, underscores skipped; and where underscores may stand.\<close>

fun base_digits :: "nat \<Rightarrow> string \<Rightarrow> nat \<Rightarrow> nat option" where
  "base_digits b [] n = Some n"
| "base_digits b (c # s) n =
     (if c = CHR ''_'' then base_digits b s n
      else (case digit_val c of
          None \<Rightarrow> None
        | Some d \<Rightarrow> if d < b then base_digits b s (n * b + d) else None))"

text \<open>The last thing seen: \<open>0\<close> a digit, \<open>1\<close> an underscore, \<open>2\<close> something else.\<close>

fun underscores_ok :: "bool \<Rightarrow> nat \<Rightarrow> string \<Rightarrow> bool" where
  "underscores_ok hex saw [] = (saw \<noteq> 1)"
| "underscores_ok hex saw (c # s) =
     (if is_digit c \<or> (hex \<and> 97 \<le> byte (to_lower c) \<and> byte (to_lower c) \<le> 102)
      then underscores_ok hex 0 s
      else if c = CHR ''_'' then saw = 0 \<and> underscores_ok hex 1 s
      else saw \<noteq> 1 \<and> underscores_ok hex 2 s)"

definition base0 :: "string \<Rightarrow> nat option" where
  "base0 s =
     (let p = map to_lower (take 2 s); long = length s \<ge> 3;
          (b, t) = (if s = [] then (0, [])
            else if hd s \<noteq> CHR ''0'' then (10, s)
            else if long \<and> p = ''0b'' then (2, drop 2 s)
            else if long \<and> p = ''0o'' then (8, drop 2 s)
            else if long \<and> p = ''0x'' then (16, drop 2 s)
            else (8, tl s));
          prefixed = (length s \<ge> 2 \<and> p \<in> {''0b'', ''0o'', ''0x''});
          ok = underscores_ok (p = ''0x'') (if prefixed then 0 else 2) (if prefixed then drop 2 s else s)
      in if s = [] \<or> (CHR ''_'' \<in> set s \<and> \<not> ok) then None else base_digits b t 0)"

text \<open>\<^verbatim>\<open>strconv.ParseInt(s, 0, 64)\<close> and \<^verbatim>\<open>strconv.ParseBool\<close>.\<close>

definition ParseInt0 :: "string \<Rightarrow> int option" where
  "ParseInt0 s = signed base0 s"

definition ParseBool :: "string \<Rightarrow> bool option" where
  "ParseBool s =
     (if s \<in> set [''1'', ''t'', ''T'', ''true'', ''TRUE'', ''True''] then Some True
      else if s \<in> set [''0'', ''f'', ''F'', ''false'', ''FALSE'', ''False''] then Some False
      else None)"

section \<open>Flag sets\<close>

text \<open>
  The types of flag values the program registers: those of \<^verbatim>\<open>fs.String\<close>, \<^verbatim>\<open>fs.Bool\<close> and
  \<^verbatim>\<open>fs.Int\<close>, and its own \<^verbatim>\<open>sliceValue\<close> (internal/flagbinding) and \<^verbatim>\<open>extraFieldsFlag\<close>
  (internal/config).
\<close>

datatype flag_value = StringValue string | BoolValue bool | IntValue int
  | SliceValue "string list" | ExtraValue vals

text \<open>\<^verbatim>\<open>extraFieldsFlag.Set\<close> and \<^verbatim>\<open>sliceValue.Set\<close>.\<close>

definition extra_Set :: "string \<Rightarrow> vals \<Rightarrow> error + vals" where
  "extra_Set v f =
     (case Cut (CHR ''='') v of
        (k, val, True) \<Rightarrow> Inr (vals_Add k val f)
      | _ \<Rightarrow> Inl (Errorf [T ''--extra value '', S v, T '' must be key=value'']))"

definition slice_Set :: "string \<Rightarrow> string list \<Rightarrow> string list" where
  "slice_Set v s = s @ [v]"

fun value_Set :: "string \<Rightarrow> flag_value \<Rightarrow> error + flag_value" where
  "value_Set v (StringValue _) = Inr (StringValue v)"
| "value_Set v (BoolValue _) =
     (case ParseBool v of Some b \<Rightarrow> Inr (BoolValue b) | None \<Rightarrow> Inl (External ''parse error''))"
| "value_Set v (IntValue _) =
     (case ParseInt0 v of Some n \<Rightarrow> Inr (IntValue n) | None \<Rightarrow> Inl (External ''parse error''))"
| "value_Set v (SliceValue s) = Inr (SliceValue (slice_Set v s))"
| "value_Set v (ExtraValue f) = map_sum id ExtraValue (extra_Set v f)"

fun is_bool_flag :: "flag_value \<Rightarrow> bool" where
  "is_bool_flag (BoolValue _) = True"
| "is_bool_flag _ = False"

record flag =
  fl_Name :: string
  fl_Usage :: string
  fl_Value :: flag_value
  fl_DefValue :: string

text \<open>\<open>actual\<close>: the names of the flags set on the command line, in the order of first use.\<close>

record flagset =
  formal :: "(string \<times> flag) list"
  actual :: "string list"

definition register :: "flag \<Rightarrow> flagset \<Rightarrow> flagset" where
  "register f fs = fs\<lparr>formal := formal fs @ [(fl_Name f, f)]\<rparr>"

definition flag_of :: "flagset \<Rightarrow> string \<Rightarrow> flag_value option" where
  "flag_of fs n = map_option fl_Value (map_of (formal fs) n)"

definition set_flag :: "string \<Rightarrow> flag_value \<Rightarrow> flagset \<Rightarrow> flagset" where
  "set_flag n v fs =
     fs\<lparr>formal := map (\<lambda>(k, f). (k, if k = n then f\<lparr>fl_Value := v\<rparr> else f)) (formal fs),
        actual := (if n \<in> set (actual fs) then actual fs else actual fs @ [n])\<rparr>"

definition explicit :: "flagset \<Rightarrow> string \<Rightarrow> bool" where
  "explicit fs n \<longleftrightarrow> n \<in> set (actual fs)"

text \<open>One argument: not a flag, the terminator, a flag's name with its value, or bad syntax.\<close>

datatype arg = NotAFlag | Terminator | BadSyntax | FlagArg string "string option"

definition classify :: "string \<Rightarrow> arg" where
  "classify s =
     (if length s < 2 \<or> hd s \<noteq> CHR ''-'' then NotAFlag
      else if s = ''--'' then Terminator
      else (let name = (if take 2 s = ''--'' then drop 2 s else tl s) in
        if name = [] \<or> hd name = CHR ''-'' \<or> hd name = CHR ''='' then BadSyntax
        else (case Cut (CHR ''='') (tl name) of
            (n, v, True) \<Rightarrow> FlagArg (hd name # n) (Some v)
          | _ \<Rightarrow> FlagArg name None)))"

text \<open>
  \<^verbatim>\<open>FlagSet.Parse\<close>. An error is printed, with the usage; so is the usage for \<^verbatim>\<open>-h\<close> and
  \<^verbatim>\<open>-help\<close>. The result: the error, the flag set, and whether to print, with the error's line.
\<close>

type_synonym parsed = "error option \<times> flagset \<times> line list"

definition failf :: "line \<Rightarrow> (flagset \<Rightarrow> line list) \<Rightarrow> flagset \<Rightarrow> parsed" where
  "failf msg usage fs = (Some (Errorf msg), fs, msg # usage fs)"

fun flag_Parse :: "(flagset \<Rightarrow> line list) \<Rightarrow> string list \<Rightarrow> flagset \<Rightarrow> parsed" where
  "flag_Parse usage [] fs = (None, fs, [])"
| "flag_Parse usage (s # args) fs =
     (case classify s of
        NotAFlag \<Rightarrow> (None, fs, [])
      | Terminator \<Rightarrow> (None, fs, [])
      | BadSyntax \<Rightarrow> failf [T ''bad flag syntax: '', S s] usage fs
      | FlagArg name val \<Rightarrow>
          (case flag_of fs name of
             None \<Rightarrow>
               if name = ''help'' \<or> name = ''h'' then (Some (Sentinel ErrHelp), fs, usage fs)
               else failf [T ''flag provided but not defined: -'', S name] usage fs
           | Some fv \<Rightarrow>
               if is_bool_flag fv then
                 (case value_Set (case val of None \<Rightarrow> ''true'' | Some v \<Rightarrow> v) fv of
                    Inl e \<Rightarrow> failf [T ''invalid boolean value for -'', S name, T '': '', S ''parse error''] usage fs
                  | Inr fv' \<Rightarrow> flag_Parse usage args (set_flag name fv' fs))
               else (case (val, args) of
                   (None, []) \<Rightarrow> failf [T ''flag needs an argument: -'', S name] usage fs
                 | (Some v, _) \<Rightarrow>
                     (case value_Set v fv of
                        Inl e \<Rightarrow> failf [T ''invalid value '', S v, T '' for flag -'', S name] usage fs
                      | Inr fv' \<Rightarrow> flag_Parse usage args (set_flag name fv' fs))
                 | (None, v # args') \<Rightarrow>
                     (case value_Set v fv of
                        Inl e \<Rightarrow> failf [T ''invalid value '', S v, T '' for flag -'', S name] usage fs
                      | Inr fv' \<Rightarrow> flag_Parse usage args' (set_flag name fv' fs)))))"

section \<open>Reading the set\<close>

lemma flag_of_set_flag:
  "flag_of (set_flag n v fs) m = (if m = n \<and> flag_of fs n \<noteq> None then Some v else flag_of fs m)"
proof -
  have "map_option fl_Value (map_of (map (\<lambda>(k, f). (k, if k = n then f\<lparr>fl_Value := v\<rparr> else f)) ps) m) =
      (if m = n \<and> map_option fl_Value (map_of ps n) \<noteq> None then Some v else map_option fl_Value (map_of ps m))" for ps
    by (induction ps) auto
  from this [of "formal fs"] show ?thesis unfolding flag_of_def set_flag_def by auto
qed

lemma explicit_set_flag: "explicit (set_flag n v fs) m \<longleftrightarrow> m = n \<or> explicit fs m"
  by (auto simp: explicit_def set_flag_def)

lemma explicit_register [simp]: "explicit (register f fs) n = explicit fs n"
  by (simp add: explicit_def register_def)

lemma flag_of_register:
  "flag_of (register f fs) n = (case flag_of fs n of None \<Rightarrow> if n = fl_Name f then Some (fl_Value f) else None | Some v \<Rightarrow> Some v)"
  by (auto simp: flag_of_def register_def map_add_def map_of_append split: option.split)

text \<open>Arguments written \<^verbatim>\<open>--name=value\<close>, for string flags.\<close>

definition arg_text :: "string \<times> string \<Rightarrow> string" where
  "arg_text p = ''--'' @ fst p @ ''='' @ snd p"

definition flag_name :: "string \<Rightarrow> bool" where
  "flag_name n \<longleftrightarrow> n \<noteq> [] \<and> hd n \<noteq> CHR ''-'' \<and> CHR ''='' \<notin> set n"

lemma classify_arg:
  assumes "flag_name n"
  shows "classify (arg_text (n, v)) = FlagArg n (Some v)"
proof -
  obtain c cs where n: "n = c # cs" using assms by (cases n) (auto simp: flag_name_def)
  then have "Cut (CHR ''='') (cs @ CHR ''='' # v) = (cs, v, True)"
    using assms by (intro Cut_append) (auto simp: flag_name_def)
  then show ?thesis
    using assms n by (auto simp: classify_def arg_text_def flag_name_def Let_def)
qed

definition is_string_flag :: "flagset \<Rightarrow> string \<Rightarrow> bool" where
  "is_string_flag fs n \<longleftrightarrow> (case flag_of fs n of Some (StringValue _) \<Rightarrow> True | _ \<Rightarrow> False)"

lemma is_string_flag_set [simp]:
  "is_string_flag fs n \<Longrightarrow> is_string_flag (set_flag m (StringValue v) fs) n"
  by (simp add: is_string_flag_def flag_of_set_flag)

lemma flag_Parse_step:
  assumes "flag_name n" "is_string_flag fs n"
  shows "flag_Parse usage (arg_text (n, v) # args) fs = flag_Parse usage args (set_flag n (StringValue v) fs)"
proof -
  obtain x where "flag_of fs n = Some (StringValue x)"
    using assms(2) by (auto simp: is_string_flag_def split: option.splits flag_value.splits)
  then show ?thesis
    by (simp add: classify_arg [OF assms(1)])
qed

definition set_flags :: "(string \<times> string) list \<Rightarrow> flagset \<Rightarrow> flagset" where
  "set_flags ps fs = fold (\<lambda>(n, v). set_flag n (StringValue v)) ps fs"

lemma flag_Parse_args:
  assumes "list_all (\<lambda>(n, v). flag_name n \<and> is_string_flag fs n) ps"
  shows "flag_Parse usage (map arg_text ps) fs = (None, set_flags ps fs, [])"
  using assms
proof (induction ps arbitrary: fs)
  case (Cons p ps)
  obtain n v where p: "p = (n, v)" by (cases p)
  have "list_all (\<lambda>(n, v). flag_name n \<and> is_string_flag (set_flag (fst p) (StringValue (snd p)) fs) n) ps"
    using Cons.prems by (auto simp: list_all_iff)
  from Cons.IH [OF this] show ?case
    using Cons.prems by (simp add: flag_Parse_step set_flags_def p del: flag_Parse.simps)
qed (simp add: set_flags_def)

lemma explicit_set_flags: "explicit (set_flags ps fs) n \<longleftrightarrow> n \<in> fst ` set ps \<or> explicit fs n"
  unfolding set_flags_def by (induction ps arbitrary: fs) (auto simp: explicit_set_flag)

lemma flag_of_set_flags:
  assumes "list_all (\<lambda>(n, v). is_string_flag fs n) ps"
  shows "flag_of (set_flags ps fs) n =
    (case map_of (rev ps) n of Some v \<Rightarrow> Some (StringValue v) | None \<Rightarrow> flag_of fs n)"
  using assms
proof (induction ps arbitrary: fs)
  case (Cons p ps)
  obtain m v where p: "p = (m, v)" by (cases p)
  have all: "list_all (\<lambda>(n, v). is_string_flag (set_flag m (StringValue v) fs) n) ps"
    "flag_of fs m \<noteq> None"
    using Cons.prems p by (auto simp: list_all_iff is_string_flag_def flag_of_set_flag split: option.splits)
  have "list_all (\<lambda>(n, x). is_string_flag (set_flag m (StringValue v) fs) n) ps"
    using Cons.prems p by (auto simp: list_all_iff)
  from Cons.IH [OF this] all(2) show ?case
    by (auto simp: set_flags_def p flag_of_set_flag map_of_append map_add_def split: option.split)
qed (simp add: set_flags_def)

end
