(* ===== verification/Float64.thy ===== *)
theory Float64
  imports Json
begin

text \<open>
  Numbers decoded into \<^verbatim>\<open>any\<close>: \<^verbatim>\<open>encoding/json\<close> makes a float64 of each, and prints it with
  the fewest digits that read back as the same float64. Nearest-even rounding of a decimal literal
  and that printing, on exact fractions of natural numbers.
\<close>

section \<open>Decimal literal to float64\<close>

text \<open>A finite float64: sign, and \<open>m * 2 ^ e\<close> with \<open>m < 2 ^ 53\<close> (or the power itself).\<close>

record f64 =
  f_neg :: bool
  f_man :: nat
  f_exp :: int

fun blen :: "nat \<Rightarrow> nat" where
  "blen n = (if n = 0 then 0 else Suc (blen (n div 2)))"

declare blen.simps [simp del]

definition div_even :: "nat \<Rightarrow> nat \<Rightarrow> nat" where
  "div_even n d =
     (let q = n div d; r = n mod d in
      if 2 * r < d \<or> (2 * r = d \<and> even q) then q else q + 1)"

text \<open>\<open>n / d\<close> divided by \<open>2 ^ e\<close>, rounded.\<close>

definition scaled :: "nat \<Rightarrow> nat \<Rightarrow> int \<Rightarrow> nat" where
  "scaled n d e = (if e \<ge> 0 then div_even n (d * 2 ^ nat e) else div_even (n * 2 ^ nat (- e)) d)"

definition round_f64 :: "nat \<Rightarrow> nat \<Rightarrow> (nat \<times> int) option" where
  "round_f64 n d =
     (if n = 0 then Some (0, 0)
      else (let e0 = int (blen n) - int (blen d) - 53;
                big = (if e0 \<ge> 0 then n \<ge> 2 ^ 53 * (d * 2 ^ nat e0) else n * 2 ^ nat (- e0) \<ge> 2 ^ 53 * d);
                e = max (-1074) (if big then e0 + 1 else e0);
                m = scaled n d e;
                (m, e) = (if m = 2 ^ 53 then (2 ^ 52, e + 1) else (m, e))
            in if e > 971 then None else Some (m, e)))"

text \<open>The parts of a JSON number: digits without the point, and the exponent of ten.\<close>

definition signed_int :: "string \<Rightarrow> int" where
  "signed_int s = (case s of
     [] \<Rightarrow> 0
   | c # t \<Rightarrow> if c = CHR ''-'' then - int (undigits t)
             else if c = CHR ''+'' then int (undigits t) else int (undigits s))"

definition number_parts :: "string \<Rightarrow> bool \<times> nat \<times> int" where
  "number_parts s =
     (let neg = (take 1 s = ''-'');
          t = (if neg then tl s else s);
          mant = takeWhile (\<lambda>c. c \<noteq> CHR ''e'' \<and> c \<noteq> CHR ''E'') t;
          ex = drop (Suc (length mant)) t;
          ip = takeWhile is_digit mant;
          fp = drop (Suc (length ip)) mant
      in (neg, undigits (ip @ fp), signed_int ex - int (length fp)))"

definition parse_f64 :: "string \<Rightarrow> f64 option" where
  "parse_f64 s =
     (case number_parts s of (neg, m, x) \<Rightarrow>
        map_option (\<lambda>(a, b). \<lparr>f_neg = neg, f_man = a, f_exp = b\<rparr>)
          (if x \<ge> 0 then round_f64 (m * 10 ^ nat x) 1 else round_f64 m (10 ^ nat (- x))))"

text \<open>\<^verbatim>\<open>int(v)\<close>: towards zero.\<close>

definition f64_int :: "f64 \<Rightarrow> int" where
  "f64_int v =
     (let a = int (if f_exp v \<ge> 0 then f_man v * 2 ^ nat (f_exp v) else f_man v div 2 ^ nat (- f_exp v))
      in if f_neg v then - a else a)"

section \<open>Shortest printing\<close>

definition f64_frac :: "f64 \<Rightarrow> nat \<times> nat" where
  "f64_frac v = (if f_exp v \<ge> 0 then (f_man v * 2 ^ nat (f_exp v), 1) else (f_man v, 2 ^ nat (- f_exp v)))"

text \<open>The place of the decimal point: least \<open>p\<close> with \<open>n / d < 10 ^ p\<close>, searched upwards from \<open>-330\<close>.\<close>

fun point :: "nat \<Rightarrow> nat \<Rightarrow> nat \<Rightarrow> int \<Rightarrow> int" where
  "point 0 n d p = p"
| "point (Suc k) n d p =
     (if (if p \<ge> 0 then n < d * 10 ^ nat p else n * 10 ^ nat (- p) < d) then p
      else point k n d (p + 1))"

fun shortest :: "nat \<Rightarrow> nat \<Rightarrow> nat \<Rightarrow> nat \<Rightarrow> int \<Rightarrow> nat \<times> int" where
  "shortest 0 k n d p = (0, p)"
| "shortest (Suc j) k n d p =
     (let x = p - int k;
          q = (if x \<ge> 0 then div_even n (d * 10 ^ nat x) else div_even (n * 10 ^ nat (- x)) d);
          back = (if x \<ge> 0 then round_f64 (q * 10 ^ nat x) 1 else round_f64 q (10 ^ nat (- x)))
      in if back = round_f64 n d \<or> j = 0 then (q, x) else shortest j (Suc k) n d p)"

fun strip_zeros :: "nat \<Rightarrow> nat \<Rightarrow> int \<Rightarrow> nat \<times> int" where
  "strip_zeros 0 q x = (q, x)"
| "strip_zeros (Suc j) q x = (if q \<noteq> 0 \<and> q mod 10 = 0 then strip_zeros j (q div 10) (x + 1) else (q, x))"

text \<open>
  Digits \<open>ds\<close> with the point after the first \<open>p\<close> of them: plain notation between \<open>1e-6\<close> and
  \<open>1e21\<close>, otherwise with an exponent.
\<close>

definition f64_text :: "f64 \<Rightarrow> string" where
  "f64_text v =
     (let sign = (if f_neg v then ''-'' else []) in
      if f_man v = 0 then sign @ ''0''
      else (let (n, d) = f64_frac v;
                (q, x) = (case shortest 17 1 n d (point 700 n d (-330)) of (q, x) \<Rightarrow> strip_zeros 20 q x);
                ds = itoa q;
                p = int (length ds) + x
            in sign @
               (if -6 < p \<and> p \<le> 21 then
                  (if p \<le> 0 then ''0.'' @ replicate (nat (- p)) (CHR ''0'') @ ds
                   else if x \<ge> 0 then ds @ replicate (nat x) (CHR ''0'')
                   else take (nat p) ds @ ''.'' @ drop (nat p) ds)
                else take 1 ds @ (if length ds > 1 then ''.'' @ tl ds else []) @
                  (if p - 1 < 0 then ''e-'' @ itoa (nat (1 - p))
                   else ''e+'' @ (if p - 1 < 10 then ''0'' else []) @ itoa (nat (p - 1))))))"

text \<open>
  Decoding into \<^verbatim>\<open>any\<close>, with whether there was no error: a number becomes a float64 (here the
  literal it is printed as), one out of range becomes nil and an error; an object becomes a map.
\<close>

fun any_value :: "json \<Rightarrow> json \<times> bool" and any_values :: "json list \<Rightarrow> json list \<times> bool"
and any_members :: "(string \<times> json) list \<Rightarrow> (string \<times> json) list \<times> bool" where
  "any_value (JNum s) = (case parse_f64 s of None \<Rightarrow> (JNull, False) | Some v \<Rightarrow> (JNum (f64_text v), True))"
| "any_value (JArr vs) = (case any_values vs of (vs', ok) \<Rightarrow> (JArr vs', ok))"
| "any_value (JObj ms) = (case any_members ms of (ms', ok) \<Rightarrow> (JObj (obj_map ms'), ok))"
| "any_value JNull = (JNull, True)"
| "any_value (JBool b) = (JBool b, True)"
| "any_value (JStr s) = (JStr s, True)"
| "any_values [] = ([], True)"
| "any_values (v # vs) = (case any_value v of (a, p) \<Rightarrow> case any_values vs of (b, q) \<Rightarrow> (a # b, p \<and> q))"
| "any_members [] = ([], True)"
| "any_members ((k, v) # ms) =
     (case any_value v of (a, p) \<Rightarrow> case any_members ms of (b, q) \<Rightarrow> ((k, a) # b, p \<and> q))"

text \<open>\<^verbatim>\<open>json.Unmarshal(b, &m)\<close> with \<^verbatim>\<open>m\<close> a nil \<^verbatim>\<open>map[string]any\<close>: the map and the success.\<close>

definition unmarshal_map :: "string \<Rightarrow> jmap option \<times> bool" where
  "unmarshal_map b =
     (case json_parse b of
        None \<Rightarrow> (None, False)
      | Some (JObj ms) \<Rightarrow> (case any_members ms of (ms', ok) \<Rightarrow> (Some (obj_map ms'), ok))
      | Some JNull \<Rightarrow> (None, True)
      | Some _ \<Rightarrow> (None, False))"

end
