(* ===== verification/FlagBinding.thy ===== *)
theory FlagBinding
  imports FlagSet Float64
begin

text \<open>
  internal/flagbinding/binding.go: config fields bound to a flag, an environment variable and a key
  of the config file. A Go field writes through a pointer to its target; here a field holds the
  function that stores a value in the record \<open>'s\<close> of all targets.
\<close>

section \<open>Fields\<close>

datatype 's field =
    StringField (string_target: "string \<Rightarrow> 's \<Rightarrow> 's") (FlagName: string) (EnvKey: string) (JsonKey: string) (FieldUsage: string) string
  | BoolField "bool \<Rightarrow> 's \<Rightarrow> 's" (FlagName: string) (EnvKey: string) (JsonKey: string) (FieldUsage: string) bool
  | IntField "int \<Rightarrow> 's \<Rightarrow> 's" (FlagName: string) (EnvKey: string) (JsonKey: string) (FieldUsage: string) int
  | StringSliceField "string list \<Rightarrow> 's \<Rightarrow> 's" (FlagName: string) (EnvKey: string) (JsonKey: string) (FieldUsage: string)

definition usageWithEnv :: "string \<Rightarrow> string \<Rightarrow> string" where
  "usageWithEnv usage key = (if key = [] then usage else usage @ '' [$'' @ key @ '']'')"

text \<open>The default value as \<^verbatim>\<open>flag\<close> shows it: \<^verbatim>\<open>Value.String()\<close> of the initial value.\<close>

definition int_text :: "int \<Rightarrow> string" where
  "int_text n = (if n < 0 then CHR ''-'' # itoa (nat (- n)) else itoa (nat n))"

definition sliceValue_String :: "string list \<Rightarrow> string" where
  "sliceValue_String s = string_Join s '',''"

fun value_String :: "flag_value \<Rightarrow> string" where
  "value_String (StringValue s) = s"
| "value_String (BoolValue b) = (if b then ''true'' else ''false'')"
| "value_String (IntValue n) = int_text n"
| "value_String (SliceValue s) = sliceValue_String s"
| "value_String (ExtraValue _) = []"

definition new_flag :: "string \<Rightarrow> string \<Rightarrow> flag_value \<Rightarrow> flag" where
  "new_flag name usage v = \<lparr>fl_Name = name, fl_Usage = usage, fl_Value = v, fl_DefValue = value_String v\<rparr>"

text \<open>The methods of the four types; \<open>put\<close> is the store through \<^verbatim>\<open>f.Target\<close>.\<close>

definition StringField_Register :: "string \<Rightarrow> string \<Rightarrow> string \<Rightarrow> string \<Rightarrow> flagset \<Rightarrow> flagset" where
  "StringField_Register name key usage def fs =
     register (new_flag name (usageWithEnv usage key) (StringValue def)) fs"

definition BoolField_Register :: "string \<Rightarrow> string \<Rightarrow> string \<Rightarrow> bool \<Rightarrow> flagset \<Rightarrow> flagset" where
  "BoolField_Register name key usage def fs =
     register (new_flag name (usageWithEnv usage key) (BoolValue def)) fs"

definition IntField_Register :: "string \<Rightarrow> string \<Rightarrow> string \<Rightarrow> int \<Rightarrow> flagset \<Rightarrow> flagset" where
  "IntField_Register name key usage def fs =
     register (new_flag name (usageWithEnv usage key) (IntValue def)) fs"

definition StringSliceField_Register :: "string \<Rightarrow> string \<Rightarrow> string \<Rightarrow> flagset \<Rightarrow> flagset" where
  "StringSliceField_Register name key usage fs =
     register (new_flag name (usageWithEnv usage key) (SliceValue [])) fs"

fun Register :: "'s field \<Rightarrow> flagset \<Rightarrow> flagset" where
  "Register (StringField _ name key _ usage def) fs = StringField_Register name key usage def fs"
| "Register (BoolField _ name key _ usage def) fs = BoolField_Register name key usage def fs"
| "Register (IntField _ name key _ usage def) fs = IntField_Register name key usage def fs"
| "Register (StringSliceField _ name key _ usage) fs = StringSliceField_Register name key usage fs"

definition StringField_ApplyEnv :: "(string \<Rightarrow> string) \<Rightarrow> (string \<Rightarrow> 's \<Rightarrow> 's) \<Rightarrow> string \<Rightarrow> 's \<Rightarrow> 's" where
  "StringField_ApplyEnv env put key s =
     (if key = [] then s else if env key \<noteq> [] then put (env key) s else s)"

definition BoolField_ApplyEnv :: "(string \<Rightarrow> string) \<Rightarrow> (bool \<Rightarrow> 's \<Rightarrow> 's) \<Rightarrow> string \<Rightarrow> 's \<Rightarrow> 's" where
  "BoolField_ApplyEnv env put key s =
     (if key = [] then s
      else if env key \<noteq> [] then put (env key = ''1'' \<or> env key = ''true'') s else s)"

definition IntField_ApplyEnv :: "(string \<Rightarrow> string) \<Rightarrow> (int \<Rightarrow> 's \<Rightarrow> 's) \<Rightarrow> string \<Rightarrow> 's \<Rightarrow> 's" where
  "IntField_ApplyEnv env put key s =
     (if key = [] then s
      else if env key \<noteq> [] then (case Atoi (env key) of Some n \<Rightarrow> put n s | None \<Rightarrow> s) else s)"

definition StringSliceField_ApplyEnv ::
  "(string \<Rightarrow> string) \<Rightarrow> (string list \<Rightarrow> 's \<Rightarrow> 's) \<Rightarrow> string \<Rightarrow> 's \<Rightarrow> 's" where
  "StringSliceField_ApplyEnv env put key s =
     (if key = [] then s
      else if env key \<noteq> [] then put (Split (CHR '','') (env key)) s else s)"

fun ApplyEnv :: "(string \<Rightarrow> string) \<Rightarrow> 's field \<Rightarrow> 's \<Rightarrow> 's" where
  "ApplyEnv env (StringField put _ key _ _ _) s = StringField_ApplyEnv env put key s"
| "ApplyEnv env (BoolField put _ key _ _ _) s = BoolField_ApplyEnv env put key s"
| "ApplyEnv env (IntField put _ key _ _ _) s = IntField_ApplyEnv env put key s"
| "ApplyEnv env (StringSliceField put _ key _ _) s = StringSliceField_ApplyEnv env put key s"

text \<open>A value of the config file counts when it has the field's type; \<^verbatim>\<open>fc == nil\<close> is \<open>None\<close>.\<close>

definition StringField_ApplyFile :: "jmap option \<Rightarrow> (string \<Rightarrow> 's \<Rightarrow> 's) \<Rightarrow> string \<Rightarrow> 's \<Rightarrow> 's" where
  "StringField_ApplyFile fc put key s =
     (if key = [] \<or> fc = None then s
      else (case map_of (the fc) key of Some (JStr v) \<Rightarrow> put v s | _ \<Rightarrow> s))"

definition BoolField_ApplyFile :: "jmap option \<Rightarrow> (bool \<Rightarrow> 's \<Rightarrow> 's) \<Rightarrow> string \<Rightarrow> 's \<Rightarrow> 's" where
  "BoolField_ApplyFile fc put key s =
     (if key = [] \<or> fc = None then s
      else (case map_of (the fc) key of Some (JBool v) \<Rightarrow> put v s | _ \<Rightarrow> s))"

text \<open>
  \<^verbatim>\<open>int(v)\<close> of a \<^verbatim>\<open>float64\<close> drops the fraction. When the rest does not fit, the language leaves the
  result open; on amd64 it is the least \<^verbatim>\<open>int64\<close>.
\<close>

definition int_of_f64 :: "f64 \<Rightarrow> int" where
  "int_of_f64 x = (if in_int64 (f64_int x) then f64_int x else - (2 ^ 63))"

definition IntField_ApplyFile :: "jmap option \<Rightarrow> (int \<Rightarrow> 's \<Rightarrow> 's) \<Rightarrow> string \<Rightarrow> 's \<Rightarrow> 's" where
  "IntField_ApplyFile fc put key s =
     (if key = [] \<or> fc = None then s
      else (case map_of (the fc) key of
          Some (JNum v) \<Rightarrow> (case parse_f64 v of Some x \<Rightarrow> put (int_of_f64 x) s | None \<Rightarrow> s)
        | _ \<Rightarrow> s))"

fun json_strings :: "json list \<Rightarrow> string list" where
  "json_strings [] = []"
| "json_strings (JStr s # vs) = s # json_strings vs"
| "json_strings (_ # vs) = json_strings vs"

definition StringSliceField_ApplyFile ::
  "jmap option \<Rightarrow> (string list \<Rightarrow> 's \<Rightarrow> 's) \<Rightarrow> string \<Rightarrow> 's \<Rightarrow> 's" where
  "StringSliceField_ApplyFile fc put key s =
     (if key = [] \<or> fc = None then s
      else (case map_of (the fc) key of
          Some (JArr vs) \<Rightarrow> if json_strings vs \<noteq> [] then put (json_strings vs) s else s
        | _ \<Rightarrow> s))"

fun ApplyFile :: "jmap option \<Rightarrow> 's field \<Rightarrow> 's \<Rightarrow> 's" where
  "ApplyFile fc (StringField put _ _ key _ _) s = StringField_ApplyFile fc put key s"
| "ApplyFile fc (BoolField put _ _ key _ _) s = BoolField_ApplyFile fc put key s"
| "ApplyFile fc (IntField put _ _ key _ _) s = IntField_ApplyFile fc put key s"
| "ApplyFile fc (StringSliceField put _ _ key _) s = StringSliceField_ApplyFile fc put key s"

text \<open>An explicit flag: \<^verbatim>\<open>flagVal\<close> points into the flag set.\<close>

definition StringField_ApplyFlag :: "flagset \<Rightarrow> (string \<Rightarrow> 's \<Rightarrow> 's) \<Rightarrow> string \<Rightarrow> 's \<Rightarrow> 's" where
  "StringField_ApplyFlag fs put name s =
     (if explicit fs name then (case flag_of fs name of Some (StringValue v) \<Rightarrow> put v s | _ \<Rightarrow> s) else s)"

definition BoolField_ApplyFlag :: "flagset \<Rightarrow> (bool \<Rightarrow> 's \<Rightarrow> 's) \<Rightarrow> string \<Rightarrow> 's \<Rightarrow> 's" where
  "BoolField_ApplyFlag fs put name s =
     (if explicit fs name then (case flag_of fs name of Some (BoolValue v) \<Rightarrow> put v s | _ \<Rightarrow> s) else s)"

definition IntField_ApplyFlag :: "flagset \<Rightarrow> (int \<Rightarrow> 's \<Rightarrow> 's) \<Rightarrow> string \<Rightarrow> 's \<Rightarrow> 's" where
  "IntField_ApplyFlag fs put name s =
     (if explicit fs name then (case flag_of fs name of Some (IntValue v) \<Rightarrow> put v s | _ \<Rightarrow> s) else s)"

definition StringSliceField_ApplyFlag :: "flagset \<Rightarrow> (string list \<Rightarrow> 's \<Rightarrow> 's) \<Rightarrow> string \<Rightarrow> 's \<Rightarrow> 's" where
  "StringSliceField_ApplyFlag fs put name s =
     (if explicit fs name then (case flag_of fs name of Some (SliceValue v) \<Rightarrow> put v s | _ \<Rightarrow> s) else s)"

fun ApplyFlag :: "flagset \<Rightarrow> 's field \<Rightarrow> 's \<Rightarrow> 's" where
  "ApplyFlag fs (StringField put name _ _ _ _) s = StringField_ApplyFlag fs put name s"
| "ApplyFlag fs (BoolField put name _ _ _ _) s = BoolField_ApplyFlag fs put name s"
| "ApplyFlag fs (IntField put name _ _ _ _) s = IntField_ApplyFlag fs put name s"
| "ApplyFlag fs (StringSliceField put name _ _ _) s = StringSliceField_ApplyFlag fs put name s"

lemmas register_defs = StringField_Register_def BoolField_Register_def IntField_Register_def
  StringSliceField_Register_def
lemmas env_defs = StringField_ApplyEnv_def BoolField_ApplyEnv_def IntField_ApplyEnv_def
  StringSliceField_ApplyEnv_def
lemmas file_defs = StringField_ApplyFile_def BoolField_ApplyFile_def IntField_ApplyFile_def
  StringSliceField_ApplyFile_def
lemmas flag_defs = StringField_ApplyFlag_def BoolField_ApplyFlag_def IntField_ApplyFlag_def
  StringSliceField_ApplyFlag_def

text \<open>The loop of \<^verbatim>\<open>config.Parse\<close>: each field through its layers.\<close>

definition resolve_field :: "(string \<Rightarrow> string) \<Rightarrow> jmap option \<Rightarrow> flagset \<Rightarrow> 's field \<Rightarrow> 's \<Rightarrow> 's" where
  "resolve_field env fc fs f s = ApplyFlag fs f (ApplyFile fc f (ApplyEnv env f s))"

definition resolve_all :: "(string \<Rightarrow> string) \<Rightarrow> jmap option \<Rightarrow> flagset \<Rightarrow> 's field list \<Rightarrow> 's \<Rightarrow> 's" where
  "resolve_all env fc fs fds s = foldl (\<lambda>s f. resolve_field env fc fs f s) s fds"

section \<open>The value a field ends up with\<close>

text \<open>The specification of the four layers: the highest layer that has a value of the right type.\<close>

definition layered :: "'v option \<Rightarrow> 'v option \<Rightarrow> 'v option \<Rightarrow> 'v \<Rightarrow> 'v" where
  "layered flag file env def =
     (case flag of Some v \<Rightarrow> v | None \<Rightarrow> (case file of Some v \<Rightarrow> v | None \<Rightarrow> (case env of Some v \<Rightarrow> v | None \<Rightarrow> def)))"

definition flag_string :: "flagset \<Rightarrow> string \<Rightarrow> string option" where
  "flag_string fs n =
     (if explicit fs n then (case flag_of fs n of Some (StringValue v) \<Rightarrow> Some v | _ \<Rightarrow> None) else None)"

definition file_string :: "jmap option \<Rightarrow> string \<Rightarrow> string option" where
  "file_string fc k =
     (if k = [] then None
      else (case fc of None \<Rightarrow> None | Some m \<Rightarrow> (case map_of m k of Some (JStr v) \<Rightarrow> Some v | _ \<Rightarrow> None)))"

definition env_string :: "(string \<Rightarrow> string) \<Rightarrow> string \<Rightarrow> string option" where
  "env_string env k = (if k \<noteq> [] \<and> env k \<noteq> [] then Some (env k) else None)"

text \<open>A target: a way to read it that sees what the field's function stores.\<close>

definition lens :: "('s \<Rightarrow> 'v) \<Rightarrow> ('v \<Rightarrow> 's \<Rightarrow> 's) \<Rightarrow> bool" where
  "lens get put \<longleftrightarrow> (\<forall>v s. get (put v s) = v)"

text \<open>A field that does not touch what \<open>get\<close> reads.\<close>

fun untouched :: "('s \<Rightarrow> 'v) \<Rightarrow> 's field \<Rightarrow> bool" where
  "untouched get (StringField put _ _ _ _ _) = (\<forall>v s. get (put v s) = get s)"
| "untouched get (BoolField put _ _ _ _ _) = (\<forall>v s. get (put v s) = get s)"
| "untouched get (IntField put _ _ _ _ _) = (\<forall>v s. get (put v s) = get s)"
| "untouched get (StringSliceField put _ _ _ _) = (\<forall>v s. get (put v s) = get s)"

lemma resolve_untouched:
  assumes "untouched get f"
  shows "get (resolve_field env fc fs f s) = get s"
proof -
  have 1: "get (ApplyEnv env f s) = get s" for s
    using assms by (cases f) (auto simp: env_defs split: option.splits)
  have 2: "get (ApplyFile fc f s) = get s" for s
    using assms by (cases f; cases fc) (auto simp: file_defs split: option.splits json.splits)
  have 3: "get (ApplyFlag fs f s) = get s" for s
    using assms by (cases f) (auto simp: flag_defs split: option.splits flag_value.splits)
  show ?thesis by (simp add: resolve_field_def 1 2 3)
qed

lemma resolve_all_untouched:
  "list_all (untouched get) fds \<Longrightarrow> get (resolve_all env fc fs fds s) = get s"
  by (induction fds arbitrary: s) (simp_all add: resolve_all_def resolve_untouched)

lemma resolve_string:
  assumes "lens get put"
  shows "get (resolve_field env fc fs (StringField put n e j u d) s) =
    layered (flag_string fs n) (file_string fc j) (env_string env e) (get s)"
  using assms
  by (cases fc) (auto simp: resolve_field_def layered_def flag_string_def file_string_def env_string_def lens_def env_defs file_defs flag_defs
      split: option.splits json.splits flag_value.splits)

definition flag_bool :: "flagset \<Rightarrow> string \<Rightarrow> bool option" where
  "flag_bool fs n =
     (if explicit fs n then (case flag_of fs n of Some (BoolValue v) \<Rightarrow> Some v | _ \<Rightarrow> None) else None)"

definition file_bool :: "jmap option \<Rightarrow> string \<Rightarrow> bool option" where
  "file_bool fc k =
     (if k = [] then None
      else (case fc of None \<Rightarrow> None | Some m \<Rightarrow> (case map_of m k of Some (JBool v) \<Rightarrow> Some v | _ \<Rightarrow> None)))"

definition env_bool :: "(string \<Rightarrow> string) \<Rightarrow> string \<Rightarrow> bool option" where
  "env_bool env k = (if k \<noteq> [] \<and> env k \<noteq> [] then Some (env k = ''1'' \<or> env k = ''true'') else None)"

lemma resolve_bool:
  assumes "lens get put"
  shows "get (resolve_field env fc fs (BoolField put n e j u d) s) =
    layered (flag_bool fs n) (file_bool fc j) (env_bool env e) (get s)"
  using assms
  by (cases fc) (auto simp: resolve_field_def layered_def flag_bool_def file_bool_def env_bool_def lens_def env_defs file_defs flag_defs
      split: option.splits json.splits flag_value.splits)

definition flag_int :: "flagset \<Rightarrow> string \<Rightarrow> int option" where
  "flag_int fs n =
     (if explicit fs n then (case flag_of fs n of Some (IntValue v) \<Rightarrow> Some v | _ \<Rightarrow> None) else None)"

definition file_int :: "jmap option \<Rightarrow> string \<Rightarrow> int option" where
  "file_int fc k =
     (if k = [] then None
      else (case fc of None \<Rightarrow> None
        | Some m \<Rightarrow> (case map_of m k of Some (JNum v) \<Rightarrow> map_option int_of_f64 (parse_f64 v) | _ \<Rightarrow> None)))"

definition env_int :: "(string \<Rightarrow> string) \<Rightarrow> string \<Rightarrow> int option" where
  "env_int env k = (if k \<noteq> [] \<and> env k \<noteq> [] then Atoi (env k) else None)"

lemma resolve_int:
  assumes "lens get put"
  shows "get (resolve_field env fc fs (IntField put n e j u d) s) =
    layered (flag_int fs n) (file_int fc j) (env_int env e) (get s)"
  using assms
  by (cases fc) (auto simp: resolve_field_def layered_def flag_int_def file_int_def env_int_def lens_def env_defs file_defs flag_defs
      split: option.splits json.splits flag_value.splits)

definition flag_slice :: "flagset \<Rightarrow> string \<Rightarrow> string list option" where
  "flag_slice fs n =
     (if explicit fs n then (case flag_of fs n of Some (SliceValue v) \<Rightarrow> Some v | _ \<Rightarrow> None) else None)"

text \<open>An array without a string in it has no value.\<close>

definition file_slice :: "jmap option \<Rightarrow> string \<Rightarrow> string list option" where
  "file_slice fc k =
     (if k = [] then None
      else (case fc of None \<Rightarrow> None
        | Some m \<Rightarrow> (case map_of m k of
            Some (JArr vs) \<Rightarrow> if json_strings vs = [] then None else Some (json_strings vs) | _ \<Rightarrow> None)))"

definition env_slice :: "(string \<Rightarrow> string) \<Rightarrow> string \<Rightarrow> string list option" where
  "env_slice env k = (if k \<noteq> [] \<and> env k \<noteq> [] then Some (Split (CHR '','') (env k)) else None)"

lemma resolve_slice:
  assumes "lens get put"
  shows "get (resolve_field env fc fs (StringSliceField put n e j u) s) =
    layered (flag_slice fs n) (file_slice fc j) (env_slice env e) (get s)"
  using assms
  by (cases fc) (auto simp: resolve_field_def layered_def flag_slice_def file_slice_def env_slice_def lens_def env_defs file_defs flag_defs
      split: option.splits json.splits flag_value.splits)

text \<open>One field of a table writes what \<open>get\<close> reads.\<close>

lemma resolve_all_one:
  assumes "\<And>s. get (resolve_field env fc fs f s) = G (get s)" "list_all (untouched get) (xs @ ys)"
  shows "get (resolve_all env fc fs (xs @ f # ys) s) = G (get s)"
proof -
  have "get (resolve_all env fc fs xs s) = get s"
    by (rule resolve_all_untouched) (use assms(2) in simp)
  moreover have "get (resolve_all env fc fs ys s') = get s'" for s'
    by (rule resolve_all_untouched) (use assms(2) in simp)
  ultimately show ?thesis by (simp add: resolve_all_def assms(1))
qed

lemma resolve_nth:
  assumes "\<And>s. get (resolve_field env fc fs f s) = G (get s)" "i < length fds" "fds ! i = f"
    "list_all (untouched get) (take i fds @ drop (Suc i) fds)"
  shows "get (resolve_all env fc fs fds s) = G (get s)"
  using resolve_all_one [of get env fc fs f G, OF assms(1,4)] id_take_nth_drop [OF assms(2)] assms(3) by simp

end
