(* ===== verification/World.thy ===== *)
theory World
  imports Prelude
begin

text \<open>
  The operating system as the program sees it: a file system of plain files and directories with
  permission bits, the two output streams, and everything else (keychain daemon, network, other
  processes) in an opaque component. Every system call may fail: the record \<open>os\<close> is an argument
  of the definitions and says, for each point of time and each call, whether it fails and how. Also
  here: the lexical path functions of \<^verbatim>\<open>path/filepath\<close>.
\<close>

section \<open>Paths\<close>

fun split_slash :: "string \<Rightarrow> string list" where
  "split_slash [] = [[]]"
| "split_slash (c # s) =
     (if c = CHR ''/'' then [] # split_slash s
      else (case split_slash s of [] \<Rightarrow> [[c]] | x # xs \<Rightarrow> (c # x) # xs))"

fun join_slash :: "string list \<Rightarrow> string" where
  "join_slash [] = []"
| "join_slash [x] = x"
| "join_slash (x # y # ys) = x @ ''/'' @ join_slash (y # ys)"

text \<open>One element of \<^verbatim>\<open>filepath.Clean\<close>'s loop; the accumulator is reversed.\<close>

definition clean_step :: "bool \<Rightarrow> string list \<Rightarrow> string \<Rightarrow> string list" where
  "clean_step rooted st x =
     (if x = [] \<or> x = ''.'' then st
      else if x = ''..'' then
        (case st of
           [] \<Rightarrow> if rooted then [] else [''..'']
         | y # ys \<Rightarrow> if y = ''..'' then ''..'' # st else ys)
      else x # st)"

definition rooted :: "string \<Rightarrow> bool" where
  "rooted p \<longleftrightarrow> take 1 p = ''/''"

definition Clean :: "string \<Rightarrow> string" where
  "Clean p =
     (let st = rev (foldl (clean_step (rooted p)) [] (split_slash p)) in
      if rooted p then CHR ''/'' # join_slash st else if st = [] then ''.'' else join_slash st)"

definition Join :: "string list \<Rightarrow> string" where
  "Join elems =
     (case dropWhile (\<lambda>e. e = []) elems of [] \<Rightarrow> [] | es \<Rightarrow> Clean (join_slash es))"

text \<open>A file name: what \<^verbatim>\<open>filepath.Join\<close> appends unchanged.\<close>

definition simple_name :: "string \<Rightarrow> bool" where
  "simple_name n \<longleftrightarrow> n \<noteq> [] \<and> n \<noteq> ''.'' \<and> n \<noteq> ''..'' \<and> CHR ''/'' \<notin> set n"

lemma split_slash_ne [simp]: "split_slash s \<noteq> []"
  by (induction s) (auto split: list.splits)

lemma split_slash_simple: "CHR ''/'' \<notin> set n \<Longrightarrow> split_slash n = [n]"
  by (induction n) auto

lemma split_slash_append: "split_slash (d @ CHR ''/'' # n) = split_slash d @ split_slash n"
proof (induction d)
  case (Cons c d)
  then show ?case using split_slash_ne [of d] by (cases "split_slash d") simp_all
qed simp

lemma join_slash_snoc: "st \<noteq> [] \<Longrightarrow> join_slash (st @ [n]) = join_slash st @ ''/'' @ n"
  by (induction st rule: join_slash.induct) auto

text \<open>Joining a directory and a file name is appending the name to a prefix of the directory's.\<close>

definition dir_prefix :: "string \<Rightarrow> string" where
  "dir_prefix d =
     (let st = rev (foldl (clean_step (rooted d)) [] (split_slash d)) in
      (if rooted d then ''/'' else []) @ (if st = [] then [] else join_slash st @ ''/''))"

lemma Join_simple:
  assumes "simple_name n"
  shows "Join [d, n] = dir_prefix d @ n"
proof (cases "d = []")
  case True
  with assms show ?thesis
    by (simp add: Join_def Clean_def dir_prefix_def rooted_def simple_name_def split_slash_simple
        clean_step_def Let_def) (cases n; auto)
next
  case False
  define st where "st = foldl (clean_step (rooted d)) [] (split_slash d)"
  have r: "rooted (d @ CHR ''/'' # n) = rooted d"
    using False by (cases d) (auto simp: rooted_def)
  have "foldl (clean_step (rooted d)) [] (split_slash (d @ CHR ''/'' # n)) = n # st"
    using assms by (simp add: split_slash_append split_slash_simple simple_name_def clean_step_def st_def)
  then show ?thesis
    using False r
    by (cases "rooted d") (simp_all add: Join_def Clean_def dir_prefix_def join_slash_snoc Let_def st_def)
qed

section \<open>The operating system\<close>

record inode =
  content :: string
  mode :: nat

datatype syscall =
    SysReadFile string
  | SysMkdirAll string
  | SysChmod string
  | SysCreateTemp string
  | SysWrite string
  | SysClose string
  | SysRename string string
  | SysRemove string

text \<open>
  \<open>os_fault\<close>: the error of a call at a point of time, if it fails; \<open>os_partial\<close>: how many bytes
  a failing write had already stored; \<open>os_rand\<close>: the random part of a temporary file's name;
  \<open>os_flock\<close>: what \<^verbatim>\<open>flock.TryLockContext\<close> of github.com/gofrs/flock returned.
\<close>

record os =
  os_fault :: "nat \<Rightarrow> syscall \<Rightarrow> errno option"
  os_partial :: "nat \<Rightarrow> nat"
  os_rand :: "nat \<Rightarrow> nat"
  os_flock :: "nat \<Rightarrow> string \<Rightarrow> bool \<times> error option"

text \<open>
  \<open>history\<close> is a ghost component: the files after each system call, newest first.
  \<open>locks\<close> are the lock files this process holds; \<open>chain_logged\<close> is \<^verbatim>\<open>ChainStore.logOnce\<close>.
\<close>

type_synonym fs = "string \<Rightarrow> inode option"

record 'x world =
  files :: fs
  dirs :: "string \<Rightarrow> nat option"
  tick :: nat
  history :: "fs list"
  locks :: "string list"
  chain_logged :: bool
  std_err :: "line list"
  std_out :: string
  outside :: 'x

definition advance :: "'x world \<Rightarrow> 'x world" where
  "advance w = w\<lparr>tick := Suc (tick w), history := files w # history w\<rparr>"

text \<open>A system call: it fails as the environment says, or acts; then time advances.\<close>

definition sys ::
  "os \<Rightarrow> syscall \<Rightarrow> ('x world \<Rightarrow> (errno + 'a) \<times> 'x world) \<Rightarrow> 'x world \<Rightarrow> (error + 'a) \<times> 'x world" where
  "sys os c act w =
     (case os_fault os (tick w) c of
        Some e \<Rightarrow> (Inl (OsError e), advance w)
      | None \<Rightarrow>
          (case act w of
             (Inl e, w') \<Rightarrow> (Inl (OsError e), advance w')
           | (Inr x, w') \<Rightarrow> (Inr x, advance w')))"

definition ReadFile :: "os \<Rightarrow> string \<Rightarrow> 'x world \<Rightarrow> (error + string) \<times> 'x world" where
  "ReadFile os p = sys os (SysReadFile p)
     (\<lambda>w. (case files w p of None \<Rightarrow> Inl ENOENT | Some f \<Rightarrow> Inr (content f), w))"

text \<open>\<^verbatim>\<open>os.MkdirAll(p, perm)\<close>: an existing directory keeps its permissions.\<close>

definition MkdirAll :: "os \<Rightarrow> string \<Rightarrow> nat \<Rightarrow> 'x world \<Rightarrow> (error + unit) \<times> 'x world" where
  "MkdirAll os p perm = sys os (SysMkdirAll p)
     (\<lambda>w. (Inr (), case dirs w p of
            Some _ \<Rightarrow> w | None \<Rightarrow> w\<lparr>dirs := (dirs w)(p \<mapsto> perm)\<rparr>))"

definition Chmod :: "os \<Rightarrow> string \<Rightarrow> nat \<Rightarrow> 'x world \<Rightarrow> (error + unit) \<times> 'x world" where
  "Chmod os p perm = sys os (SysChmod p)
     (\<lambda>w. case files w p of
            Some f \<Rightarrow> (Inr (), w\<lparr>files := (files w)(p \<mapsto> f\<lparr>mode := perm\<rparr>)\<rparr>)
          | None \<Rightarrow> (case dirs w p of
              Some _ \<Rightarrow> (Inr (), w\<lparr>dirs := (dirs w)(p \<mapsto> perm)\<rparr>)
            | None \<Rightarrow> (Inl ENOENT, w)))"

text \<open>
  \<^verbatim>\<open>os.CreateTemp(dir, ".tmp-*")\<close>: a new empty file with permissions 0600, opened
  exclusively. It returns the path. Where Go draws another name when the first one exists (and gives
  up after 10000), the model lets the call fail: one more failure that a caller must survive.
\<close>

definition tmp_path :: "os \<Rightarrow> string \<Rightarrow> nat \<Rightarrow> string" where
  "tmp_path os dir t = Join [if dir = [] then ''/tmp'' else dir, ''.tmp-'' @ itoa (os_rand os t)]"

definition CreateTemp :: "os \<Rightarrow> string \<Rightarrow> 'x world \<Rightarrow> (error + string) \<times> 'x world" where
  "CreateTemp os dir = sys os (SysCreateTemp dir)
     (\<lambda>w. let p = tmp_path os dir (tick w) in
          case files w p of
            Some _ \<Rightarrow> (Inl EEXIST, w)
          | None \<Rightarrow> (Inr p, w\<lparr>files := (files w)(p \<mapsto> \<lparr>content = [], mode = 0x180\<rparr>)\<rparr>))"

text \<open>
  Writing to the open file at \<open>p\<close>: a failing write has stored some first part of the bytes.
\<close>

definition append_bytes :: "string \<Rightarrow> string \<Rightarrow> 'x world \<Rightarrow> 'x world" where
  "append_bytes p b w =
     (case files w p of
        Some f \<Rightarrow> w\<lparr>files := (files w)(p \<mapsto> f\<lparr>content := content f @ b\<rparr>)\<rparr>
      | None \<Rightarrow> w)"

definition Write :: "os \<Rightarrow> string \<Rightarrow> string \<Rightarrow> 'x world \<Rightarrow> (error + unit) \<times> 'x world" where
  "Write os p b w =
     (case os_fault os (tick w) (SysWrite p) of
        Some e \<Rightarrow> (Inl (OsError e), advance (append_bytes p (take (os_partial os (tick w)) b) w))
      | None \<Rightarrow> (Inr (), advance (append_bytes p b w)))"

definition Close :: "os \<Rightarrow> string \<Rightarrow> 'x world \<Rightarrow> (error + unit) \<times> 'x world" where
  "Close os p = sys os (SysClose p) (\<lambda>w. (Inr (), w))"

definition Rename :: "os \<Rightarrow> string \<Rightarrow> string \<Rightarrow> 'x world \<Rightarrow> (error + unit) \<times> 'x world" where
  "Rename os a b = sys os (SysRename a b)
     (\<lambda>w. case files w a of
            None \<Rightarrow> (Inl ENOENT, w)
          | Some f \<Rightarrow> (Inr (), w\<lparr>files := (files w)(a := None, b := Some f)\<rparr>))"

definition Remove :: "os \<Rightarrow> string \<Rightarrow> 'x world \<Rightarrow> (error + unit) \<times> 'x world" where
  "Remove os p = sys os (SysRemove p)
     (\<lambda>w. case files w p of
            None \<Rightarrow> (Inl ENOENT, w)
          | Some _ \<Rightarrow> (Inr (), w\<lparr>files := (files w)(p := None)\<rparr>))"

definition log_line :: "line \<Rightarrow> 'x world \<Rightarrow> 'x world" where
  "log_line l w = w\<lparr>std_err := std_err w @ [l]\<rparr>"

lemmas sys_defs = ReadFile_def MkdirAll_def Chmod_def CreateTemp_def Write_def Close_def
  Rename_def Remove_def sys_def

text \<open>A machine on which nothing fails, with an empty file system: where the examples run.\<close>

definition fair_os :: os where
  "fair_os = \<lparr>os_fault = (\<lambda>_ _. None), os_partial = (\<lambda>_. 0), os_rand = (\<lambda>t. t),
     os_flock = (\<lambda>_ _. (True, None))\<rparr>"

definition blank :: "'x \<Rightarrow> 'x world" where
  "blank x = \<lparr>files = Map.empty, dirs = Map.empty, tick = 0, history = [], locks = [],
     chain_logged = False, std_err = [], std_out = [], outside = x\<rparr>"

text \<open>The same machine with a full disk: every write stores three bytes and fails.\<close>

definition full_os :: os where
  "full_os = fair_os\<lparr>os_fault := (\<lambda>_ c. case c of SysWrite _ \<Rightarrow> Some EIO | _ \<Rightarrow> None),
     os_partial := (\<lambda>_. 3)\<rparr>"

end
