(* ===== verification/Grants.thy ===== *)
theory Grants
  imports SubjectToken FlagBinding World
begin

text \<open>
  internal/grant: the three grant types behind the interface \<^verbatim>\<open>Grant\<close>. A grant value is a
  constructor; the fields of the Go structs are records, kept with the other targets of config
  fields in one record that the grants' methods read and write.
\<close>

section \<open>State\<close>

datatype grant = AuthCode | DeviceCode | TokenExchange

record auth_code =
  ac_CallbackPort :: int

record token_exchange =
  te_SubjectToken :: string
  te_SubjectTokenType :: string
  te_RequestedTokenType :: string
  te_Resources :: "string list"
  te_SubjectTokenSource :: string
  te_Audience :: string

record grant_state =
  gr_authcode :: auth_code
  gr_te :: token_exchange

definition new_grants :: grant_state where
  "new_grants = \<lparr>gr_authcode = \<lparr>ac_CallbackPort = 0\<rparr>,
     gr_te = \<lparr>te_SubjectToken = [], te_SubjectTokenType = [], te_RequestedTokenType = [],
       te_Resources = [], te_SubjectTokenSource = [], te_Audience = []\<rparr>\<rparr>"

record config_bridge =
  b_SubjectToken :: string
  b_SubjectTokenType :: string
  b_RequestedTokenType :: string
  b_Resources :: "string list"
  b_SubjectTokenSource :: string
  b_RedirectPort :: int

definition zero_bridge :: config_bridge where
  "zero_bridge = \<lparr>b_SubjectToken = [], b_SubjectTokenType = [], b_RequestedTokenType = [],
     b_Resources = [], b_SubjectTokenSource = [], b_RedirectPort = 0\<rparr>"

record environment =
  env_TTY :: bool
  env_Display :: bool

definition BrowserAvailable :: "environment \<Rightarrow> bool" where "BrowserAvailable e = env_Display e"
definition TerminalAttended :: "environment \<Rightarrow> bool" where "TerminalAttended e = env_TTY e"

section \<open>Methods\<close>

definition ac_Name :: string where "ac_Name = ''authcode''"
definition ac_WireGrant :: string where "ac_WireGrant = ''authorization_code''"
definition ac_Cacheable :: bool where "ac_Cacheable = True"
definition ac_AutoEligible :: bool where "ac_AutoEligible = True"

definition dc_Name :: string where "dc_Name = ''device-code''"
definition dc_WireGrant :: string where "dc_WireGrant = ''urn:ietf:params:oauth:grant-type:device_code''"
definition dc_Cacheable :: bool where "dc_Cacheable = True"
definition dc_AutoEligible :: bool where "dc_AutoEligible = True"

definition te_Name :: string where "te_Name = ''token-exchange''"
definition te_WireGrant :: string where "te_WireGrant = ''urn:ietf:params:oauth:grant-type:token-exchange''"
definition te_Cacheable :: bool where "te_Cacheable = False"
definition te_AutoEligible :: bool where "te_AutoEligible = False"

lemmas method_defs [simp] =
  ac_Name_def ac_WireGrant_def ac_Cacheable_def ac_AutoEligible_def dc_Name_def dc_WireGrant_def dc_Cacheable_def dc_AutoEligible_def te_Name_def te_WireGrant_def te_Cacheable_def te_AutoEligible_def

fun grant_Name :: "grant \<Rightarrow> string" where
  "grant_Name AuthCode = ac_Name"
| "grant_Name DeviceCode = dc_Name"
| "grant_Name TokenExchange = te_Name"

fun WireGrant :: "grant \<Rightarrow> string" where
  "WireGrant AuthCode = ac_WireGrant"
| "WireGrant DeviceCode = dc_WireGrant"
| "WireGrant TokenExchange = te_WireGrant"

fun Cacheable :: "grant \<Rightarrow> bool" where
  "Cacheable AuthCode = ac_Cacheable"
| "Cacheable DeviceCode = dc_Cacheable"
| "Cacheable TokenExchange = te_Cacheable"

fun AutoEligible :: "grant \<Rightarrow> bool" where
  "AutoEligible AuthCode = ac_AutoEligible"
| "AutoEligible DeviceCode = dc_AutoEligible"
| "AutoEligible TokenExchange = te_AutoEligible"

definition ac_Viable :: "environment \<Rightarrow> bool" where
  "ac_Viable env = BrowserAvailable env"

definition dc_Viable :: "environment \<Rightarrow> bool \<Rightarrow> bool" where
  "dc_Viable env nonInteractive \<longleftrightarrow> TerminalAttended env \<and> \<not> nonInteractive"

definition te_Viable :: "environment \<Rightarrow> bool \<Rightarrow> bool" where
  "te_Viable env nonInteractive = True"

fun Viable :: "grant \<Rightarrow> environment \<Rightarrow> bool \<Rightarrow> bool" where
  "Viable AuthCode env nonInteractive = ac_Viable env"
| "Viable DeviceCode env nonInteractive = dc_Viable env nonInteractive"
| "Viable TokenExchange env nonInteractive = te_Viable env nonInteractive"

definition defaultSubjectTokenType :: string where
  "defaultSubjectTokenType = ''urn:ietf:params:oauth:token-type:access_token''"

definition envSubjectToken :: string where "envSubjectToken = ''OIDC_TOKEN_SUBJECT_TOKEN''"
definition envSubjectTokenType :: string where "envSubjectTokenType = ''OIDC_TOKEN_SUBJECT_TOKEN_TYPE''"
definition envSubjectTokenSource :: string where "envSubjectTokenSource = ''OIDC_TOKEN_SUBJECT_TOKEN_SOURCE''"

text \<open>\<open>on\<close> lifts a grant's field to the record the config table works on.\<close>

type_synonym 's on_grants = "(grant_state \<Rightarrow> grant_state) \<Rightarrow> 's \<Rightarrow> 's"

definition ac_Fields :: "'s on_grants \<Rightarrow> 's field list" where
  "ac_Fields on =
     [IntField (\<lambda>v. on (\<lambda>g. g\<lparr>gr_authcode := (gr_authcode g)\<lparr>ac_CallbackPort := v\<rparr>\<rparr>))
        ''redirect'' [] ''redirect_port'' ''loopback callback port for authcode'' 0]"

definition te_Fields :: "'s on_grants \<Rightarrow> 's field list" where
  "te_Fields on =
     [StringField (\<lambda>v. on (\<lambda>g. g\<lparr>gr_te := (gr_te g)\<lparr>te_SubjectToken := v\<rparr>\<rparr>))
        ''subject-token'' envSubjectToken ''subject_token'' ''subject_token value for token exchange'' [],
      StringField (\<lambda>v. on (\<lambda>g. g\<lparr>gr_te := (gr_te g)\<lparr>te_SubjectTokenType := v\<rparr>\<rparr>))
        ''subject-token-type'' envSubjectTokenType ''subject_token_type'' ''subject_token_type per RFC 8693'' [],
      StringField (\<lambda>v. on (\<lambda>g. g\<lparr>gr_te := (gr_te g)\<lparr>te_RequestedTokenType := v\<rparr>\<rparr>))
        ''requested-token-type'' [] ''requested_token_type'' ''requested_token_type per RFC 8693'' [],
      StringField (\<lambda>v. on (\<lambda>g. g\<lparr>gr_te := (gr_te g)\<lparr>te_SubjectTokenSource := v\<rparr>\<rparr>))
        ''subject-token-source'' envSubjectTokenSource ''subject_token_source'' ''subject_token source: github-actions'' [],
      StringSliceField (\<lambda>v. on (\<lambda>g. g\<lparr>gr_te := (gr_te g)\<lparr>te_Resources := v\<rparr>\<rparr>))
        ''resource'' [] ''resource'' ''target resource URI (repeatable)'']"

fun grant_Fields :: "'s on_grants \<Rightarrow> grant \<Rightarrow> 's field list" where
  "grant_Fields on AuthCode = ac_Fields on"
| "grant_Fields on DeviceCode = []"
| "grant_Fields on TokenExchange = te_Fields on"

definition te_RegisterFlags :: "flagset \<Rightarrow> flagset" where
  "te_RegisterFlags fs =
     register (new_flag ''subject-token-file'' ''file containing the subject_token'' (StringValue [])) fs"

fun RegisterFlags :: "grant \<Rightarrow> flagset \<Rightarrow> flagset" where
  "RegisterFlags TokenExchange fs = te_RegisterFlags fs"
| "RegisterFlags _ fs = fs"

fun string_of_flag :: "flag_value option \<Rightarrow> string" where
  "string_of_flag (Some (StringValue s)) = s"
| "string_of_flag _ = []"

definition te_default_type :: "'w subject_source list \<Rightarrow> token_exchange \<Rightarrow> token_exchange" where
  "te_default_type sources g =
     (if te_SubjectTokenType g = [] then
        g\<lparr>te_SubjectTokenType := (case FindSource sources (te_SubjectTokenSource g) of
            Some src \<Rightarrow> src_DefaultTokenType src | None \<Rightarrow> defaultSubjectTokenType)\<rparr>
      else g)"

definition te_Finalize ::
  "os \<Rightarrow> 'x world subject_source list \<Rightarrow> flagset \<Rightarrow> token_exchange \<Rightarrow> 'x world \<Rightarrow> (error + token_exchange) \<times> 'x world" where
  "te_Finalize os sources fs g w =
     (if explicit fs ''subject-token-file'' then
        (case ReadFile os (string_of_flag (flag_of fs ''subject-token-file'')) w of
           (Inl err, w') \<Rightarrow> (Inl (wrap ''config: read --subject-token-file: '' err), w')
         | (Inr tok, w') \<Rightarrow> (Inr (te_default_type sources (g\<lparr>te_SubjectToken := trim_newlines tok\<rparr>)), w'))
      else (Inr (te_default_type sources g), w))"

fun Finalize ::
  "os \<Rightarrow> 'x world subject_source list \<Rightarrow> flagset \<Rightarrow> grant \<Rightarrow> grant_state \<Rightarrow> 'x world \<Rightarrow> (error + grant_state) \<times> 'x world" where
  "Finalize os sources fs TokenExchange g w =
     (case te_Finalize os sources fs (gr_te g) w of
        (Inl err, w') \<Rightarrow> (Inl err, w')
      | (Inr t, w') \<Rightarrow> (Inr (g\<lparr>gr_te := t\<rparr>), w'))"
| "Finalize os sources fs _ g w = (Inr g, w)"

definition te_Validate :: "'w subject_source list \<Rightarrow> token_exchange \<Rightarrow> error option" where
  "te_Validate sources g =
     (if te_SubjectTokenSource g \<noteq> [] \<and> FindSource sources (te_SubjectTokenSource g) = None then
        Some (Errorf [T ''config: invalid --subject-token-source '', S (te_SubjectTokenSource g),
          T '' (want \"\"|'', S (string_Join (SourceNames sources) ''|''), T '')''])
      else if te_SubjectTokenSource g \<noteq> [] \<and> te_SubjectToken g \<noteq> [] then
        Some (Errorf [T ''config: --subject-token-source is mutually exclusive with --subject-token/--subject-token-file/$'',
          S envSubjectToken])
      else if te_SubjectTokenSource g = [] \<and> te_SubjectToken g = [] then
        Some (Errorf [T ''config: --grant-type=token-exchange requires --subject-token, --subject-token-file, $'',
          S envSubjectToken, T '', or --subject-token-source''])
      else if te_SubjectTokenType g = [] then Some (errorf ''config: --subject-token-type must not be empty'')
      else None)"

fun Validate :: "'w subject_source list \<Rightarrow> grant \<Rightarrow> grant_state \<Rightarrow> error option" where
  "Validate sources TokenExchange g = te_Validate sources (gr_te g)"
| "Validate sources _ g = None"

definition te_ValidateNotSelected :: "token_exchange \<Rightarrow> error option" where
  "te_ValidateNotSelected g =
     (if te_SubjectToken g \<noteq> [] \<or> te_RequestedTokenType g \<noteq> [] \<or> te_Resources g \<noteq> [] \<or>
         te_SubjectTokenSource g \<noteq> [] then
        Some (errorf ''config: --subject-token/--subject-token-source/--resource/--requested-token-type require --grant-type=token-exchange'')
      else None)"

fun ValidateNotSelected :: "grant \<Rightarrow> grant_state \<Rightarrow> error option" where
  "ValidateNotSelected TokenExchange g = te_ValidateNotSelected (gr_te g)"
| "ValidateNotSelected _ g = None"

definition te_Bridge :: "token_exchange \<Rightarrow> config_bridge" where
  "te_Bridge g = zero_bridge\<lparr>b_SubjectToken := te_SubjectToken g,
     b_SubjectTokenType := te_SubjectTokenType g,
     b_RequestedTokenType := te_RequestedTokenType g,
     b_Resources := te_Resources g, b_SubjectTokenSource := te_SubjectTokenSource g\<rparr>"

definition ac_Bridge :: "auth_code \<Rightarrow> config_bridge" where
  "ac_Bridge g = zero_bridge\<lparr>b_RedirectPort := ac_CallbackPort g\<rparr>"

fun Bridge :: "grant \<Rightarrow> grant_state \<Rightarrow> config_bridge" where
  "Bridge AuthCode g = ac_Bridge (gr_authcode g)"
| "Bridge DeviceCode g = zero_bridge"
| "Bridge TokenExchange g = te_Bridge (gr_te g)"

definition ResolveSubjectToken ::
  "'w subject_source list \<Rightarrow> token_exchange \<Rightarrow> 'w \<Rightarrow> (error + string) \<times> 'w" where
  "ResolveSubjectToken sources g w =
     (if te_SubjectTokenSource g = [] then (Inr (te_SubjectToken g), w)
      else (case FindSource sources (te_SubjectTokenSource g) of
          None \<Rightarrow> (Inl (Errorf [T ''config: unsupported --subject-token-source '', S (te_SubjectTokenSource g)]), w)
        | Some src \<Rightarrow> src_Fetch src (te_Audience g) w))"

section \<open>What validation ensures\<close>

text \<open>A validated token exchange has exactly one way to a subject token, and a type for it.\<close>

lemma te_Validate_ok:
  "te_Validate sources g = None \<longleftrightarrow>
     (te_SubjectTokenSource g = []) \<noteq> (te_SubjectToken g = []) \<and> te_SubjectTokenType g \<noteq> [] \<and>
     (te_SubjectTokenSource g \<noteq> [] \<longrightarrow> FindSource sources (te_SubjectTokenSource g) \<noteq> None)"
  by (auto simp: te_Validate_def)

lemma te_ValidateNotSelected_ok:
  "te_ValidateNotSelected g = None \<longleftrightarrow> te_SubjectToken g = [] \<and> te_RequestedTokenType g = [] \<and>
     te_Resources g = [] \<and> te_SubjectTokenSource g = []"
  by (auto simp: te_ValidateNotSelected_def)

text \<open>\<^verbatim>\<open>Finalize\<close> leaves a subject token type, if the sources' own are not empty.\<close>

lemma te_Finalize_type:
  assumes "te_Finalize os sources fs g w = (Inr g', w')"
    "\<And>s. s \<in> set sources \<Longrightarrow> src_DefaultTokenType s \<noteq> []"
  shows "te_SubjectTokenType g' \<noteq> []"
proof -
  have "FindSource sources n = Some s \<Longrightarrow> s \<in> set sources" for n s
    unfolding FindSource_def by (induction sources) (auto split: if_splits)
  then have "te_SubjectTokenType (te_default_type sources h) \<noteq> []" for h
    using assms(2) by (auto simp: te_default_type_def defaultSubjectTokenType_def split: option.splits)
  then show ?thesis
    using assms(1) by (auto simp: te_Finalize_def split: if_splits prod.splits sum.splits)
qed

end
