(* ===== verification/CacheFile.thy ===== *)
theory CacheFile
  imports Store World
begin

text \<open>
  internal/cache/cache.go: the plaintext file backend. One JSON file per profile in a directory,
  written to a temporary file and renamed, and an advisory lock file per profile. The section on
  crash safety looks at the file system after every single system call of a \<^verbatim>\<open>Save\<close>.
\<close>

section \<open>Operations\<close>

definition DefaultDir :: "(string \<Rightarrow> string) \<Rightarrow> (error + string) \<Rightarrow> error + string" where
  "DefaultDir getenv userHomeDir =
     (if getenv ''XDG_CACHE_HOME'' \<noteq> [] then Inr (Join [getenv ''XDG_CACHE_HOME'', ''oidc-token''])
      else (case userHomeDir of
          Inl err \<Rightarrow> Inl (wrap ''cache: resolve home directory: '' err)
        | Inr home \<Rightarrow> Inr (Join [home, ''.cache'', ''oidc-token''])))"

definition path :: "string \<Rightarrow> string \<Rightarrow> string \<Rightarrow> string" where
  "path dir issuer clientID = Join [dir, profileKey issuer clientID @ ''.json'']"

definition lockPath :: "string \<Rightarrow> string \<Rightarrow> string \<Rightarrow> string" where
  "lockPath dir issuer clientID = Join [dir, profileKey issuer clientID @ ''.lock'']"

text \<open>Permissions: \<^verbatim>\<open>0o700\<close> is \<open>448\<close>, \<^verbatim>\<open>0o600\<close> is \<open>384\<close>.\<close>

abbreviation mode_0700 :: nat where "mode_0700 \<equiv> 0x1C0"
abbreviation mode_0600 :: nat where "mode_0600 \<equiv> 0x180"

text \<open>
  Steps that fail or go on: \<open>try_sys m s f w\<close> runs the system call \<open>m\<close>; its error is wrapped with
  the text \<open>s\<close> and returned, otherwise \<open>f\<close> continues with the result.
\<close>

definition try_sys ::
  "('x world \<Rightarrow> (error + 'a) \<times> 'x world) \<Rightarrow> string \<Rightarrow> ('a \<Rightarrow> 'x world \<Rightarrow> error option \<times> 'x world) \<Rightarrow>
   'x world \<Rightarrow> error option \<times> 'x world" where
  "try_sys m s f w = (case m w of (Inl e, w') \<Rightarrow> (Some (wrap s e), w') | (Inr x, w') \<Rightarrow> f x w')"

definition ensureDir :: "os \<Rightarrow> string \<Rightarrow> 'x world \<Rightarrow> error option \<times> 'x world" where
  "ensureDir os dir =
     try_sys (MkdirAll os dir mode_0700) ''cache: create dir: '' (\<lambda>_.
     try_sys (Chmod os dir mode_0700) ''cache: chmod dir: '' (\<lambda>_ w. (None, w)))"

definition Cache_Load ::
  "os \<Rightarrow> string \<Rightarrow> string \<Rightarrow> string \<Rightarrow> 'x world \<Rightarrow> (error + entry option) \<times> 'x world" where
  "Cache_Load os dir issuer clientID w =
     (case ReadFile os (path dir issuer clientID) w of
        (Inl err, w') \<Rightarrow>
          (if errors_Is ErrNotExist err then Inr None else Inl (wrap ''cache: read: '' err), w')
      | (Inr b, w') \<Rightarrow> (Inr (Unmarshal_Entry b), w'))"

text \<open>
  The part of \<^verbatim>\<open>Save\<close> between the temporary file's creation and the function's return, and the
  deferred clean-up: after any failure the temporary file is removed, the result of that ignored.
\<close>

definition fill_and_rename ::
  "os \<Rightarrow> string \<Rightarrow> string \<Rightarrow> string \<Rightarrow> 'x world \<Rightarrow> error option \<times> 'x world" where
  "fill_and_rename os tmpName dest b w =
     (case Write os tmpName b w of
        (Inl err, w1) \<Rightarrow> (Some (wrap ''cache: write temp file: '' err), snd (Close os tmpName w1))
      | (Inr _, w1) \<Rightarrow>
          try_sys (Close os tmpName) ''cache: close temp file: '' (\<lambda>_.
          try_sys (Chmod os tmpName mode_0600) ''cache: chmod temp file: '' (\<lambda>_.
          try_sys (Rename os tmpName dest) ''cache: rename temp file: '' (\<lambda>_ w. (None, w)))) w1)"

definition Cache_Save :: "os \<Rightarrow> string \<Rightarrow> entry \<Rightarrow> 'x world \<Rightarrow> error option \<times> 'x world" where
  "Cache_Save os dir e w =
     (case ensureDir os dir w of
        (Some err, w1) \<Rightarrow> (Some err, w1)
      | (None, w1) \<Rightarrow>
          (case Marshal_Entry e of
             Inl err \<Rightarrow> (Some (wrap ''cache: marshal: '' err), w1)
           | Inr b \<Rightarrow>
               (let dest = path dir (e_Issuer e) (e_ClientID e) in
                try_sys (CreateTemp os dir) ''cache: create temp file: '' (\<lambda>tmpName w2.
                  case fill_and_rename os tmpName dest b w2 of
                    (None, w3) \<Rightarrow> (None, w3)
                  | (Some err, w3) \<Rightarrow> (Some err, snd (Remove os tmpName w3))) w1)))"

definition Cache_WithLock ::
  "os \<Rightarrow> string \<Rightarrow> string \<Rightarrow> string \<Rightarrow> ('x world \<Rightarrow> (error + 'r) \<times> 'x world) \<Rightarrow> 'x world \<Rightarrow>
   (error + 'r) \<times> 'x world" where
  "Cache_WithLock os dir issuer clientID fn w =
     (case ensureDir os dir w of
        (Some err, w1) \<Rightarrow> (Inl err, w1)
      | (None, w1) \<Rightarrow>
          (let lp = lockPath dir issuer clientID; w2 = advance w1 in
           case os_flock os (tick w1) lp of
             (_, Some err) \<Rightarrow> (Inl (wrap2 ErrLockTimeout err), w2)
           | (False, None) \<Rightarrow> (Inl (Sentinel ErrLockTimeout), w2)
           | (True, None) \<Rightarrow>
               (case fn (w2\<lparr>locks := lp # locks w2\<rparr>) of
                  (r, w3) \<Rightarrow> (r, w3\<lparr>locks := remove1 lp (locks w3)\<rparr>))))"

definition Cache_Delete ::
  "os \<Rightarrow> string \<Rightarrow> string \<Rightarrow> string \<Rightarrow> 'x world \<Rightarrow> error option \<times> 'x world" where
  "Cache_Delete os dir issuer clientID w =
     (case Remove os (path dir issuer clientID) w of
        (Inl err, w') \<Rightarrow>
          (if errors_Is ErrNotExist err then None else Some (wrap ''cache: delete: '' err), w')
      | (Inr _, w') \<Rightarrow> (None, w'))"

definition file_store :: "os \<Rightarrow> string \<Rightarrow> ('x world, 'r) store" where
  "file_store os dir = \<lparr>Load = Cache_Load os dir, Save = Cache_Save os dir,
     Delete = Cache_Delete os dir, WithLock = Cache_WithLock os dir\<rparr>"

section \<open>Names of files\<close>

lemma hex_no_slash: "list_all is_hex k \<Longrightarrow> CHR ''/'' \<notin> set k"
  by (auto simp: list_all_iff is_hex_def is_digit_def)

lemma simple_json: "list_all is_hex k \<Longrightarrow> simple_name (k @ ''.json'')"
  by (auto simp: simple_name_def hex_no_slash)

lemma simple_tmp: "simple_name (''.tmp-'' @ itoa n)"
  using itoa_digits [of n] by (auto simp: simple_name_def list_all_iff is_digit_def)

lemma path_eq: "path dir i c = dir_prefix dir @ profileKey i c @ ''.json''"
  unfolding path_def by (rule Join_simple) (rule simple_json, rule profileKey_hex)

text \<open>The file of a key, whether or not the key is the hash of a profile.\<close>

definition key_file :: "string \<Rightarrow> string \<Rightarrow> string" where
  "key_file dir k = dir_prefix dir @ k @ ''.json''"

lemma path_key: "path dir i c = key_file dir (profileKey i c)"
  by (simp add: path_eq key_file_def)

lemma key_file_inj [simp]: "key_file dir k = key_file dir k' \<longleftrightarrow> k = k'"
  by (simp add: key_file_def)

lemma last_json: "last (key_file dir k) = CHR ''n''"
  by (simp add: key_file_def)

text \<open>A temporary file's name ends in a digit, a token file's in the letter n.\<close>

lemma tmp_path_not_key: "tmp_path os dir t \<noteq> key_file dir' k"
proof
  assume "tmp_path os dir t = key_file dir' k"
  then have "last (tmp_path os dir t) = CHR ''n''" by (simp add: last_json)
  moreover have "is_digit (last (tmp_path os dir t))"
    using itoa_digits [of "os_rand os t"]
    unfolding tmp_path_def Join_simple [OF simple_tmp] by (simp add: list_all_iff)
  ultimately show False by (simp add: is_digit_def)
qed

section \<open>What the operations do to the contents of files\<close>

definition contents :: "'x world \<Rightarrow> string \<Rightarrow> string option" where
  "contents w p = map_option content (files w p)"

lemma contents_advance [simp]: "contents (advance w) = contents w"
  by (simp add: contents_def advance_def fun_eq_iff)

lemma contents_dirs [simp]: "contents (w\<lparr>dirs := d\<rparr>) = contents w"
  by (simp add: contents_def fun_eq_iff)

lemma contents_locks [simp]: "contents (w\<lparr>locks := l\<rparr>) = contents w"
  by (simp add: contents_def fun_eq_iff)

lemma contents_ReadFile: "ReadFile os p w = (r, w') \<Longrightarrow> contents w' = contents w"
  by (auto simp: ReadFile_def sys_def split: option.splits sum.splits)

lemma ReadFile_content: "ReadFile os p w = (Inr b, w') \<Longrightarrow> contents w p = Some b"
  by (auto simp: ReadFile_def sys_def contents_def split: option.splits sum.splits)

lemma contents_MkdirAll: "MkdirAll os p m w = (r, w') \<Longrightarrow> contents w' = contents w"
  by (auto simp: MkdirAll_def sys_def split: option.splits)

lemma contents_mode:
  "files w p = Some f \<Longrightarrow> contents (w\<lparr>files := (files w)(p \<mapsto> f\<lparr>mode := m\<rparr>)\<rparr>) = contents w"
  by (auto simp: contents_def fun_eq_iff)

lemma contents_Chmod: "Chmod os p m w = (r, w') \<Longrightarrow> contents w' = contents w"
  by (auto simp: Chmod_def sys_def contents_mode split: option.splits sum.splits prod.splits if_splits)

lemma contents_Close: "Close os p w = (r, w') \<Longrightarrow> contents w' = contents w"
  by (auto simp: Close_def sys_def split: option.splits)

lemma contents_CreateTemp:
  assumes "CreateTemp os dir w = (r, w')"
  shows "case r of Inl _ \<Rightarrow> contents w' = contents w
    | Inr p \<Rightarrow> p = tmp_path os dir (tick w) \<and> contents w p = None \<and> contents w' = (contents w)(p \<mapsto> [])"
  using assms
  by (auto simp: CreateTemp_def sys_def Let_def contents_def fun_eq_iff advance_def
      split: option.splits sum.splits prod.splits if_splits)

lemma contents_Write:
  assumes "Write os p b w = (r, w')" "contents w p = Some c"
  shows "\<exists>b'. contents w' = (contents w)(p \<mapsto> c @ b') \<and> (r = Inr () \<longrightarrow> b' = b)"
  using assms
  by (auto simp: Write_def append_bytes_def contents_def fun_eq_iff advance_def split: option.splits)

lemma contents_Rename:
  assumes "Rename os a b w = (r, w')"
  shows "case r of Inl _ \<Rightarrow> contents w' = contents w
    | Inr _ \<Rightarrow> contents w' = (contents w)(a := None, b := contents w a)"
  using assms
  by (auto simp: Rename_def sys_def contents_def fun_eq_iff advance_def
      split: option.splits sum.splits prod.splits if_splits)

lemma contents_Remove:
  assumes "Remove os p w = (r, w')"
  shows "case r of Inl _ \<Rightarrow> contents w' = contents w | Inr _ \<Rightarrow> contents w' = (contents w)(p := None)"
  using assms
  by (auto simp: Remove_def sys_def contents_def fun_eq_iff advance_def
      split: option.splits sum.splits prod.splits if_splits)

lemma contents_ensureDir: "ensureDir os dir w = (r, w') \<Longrightarrow> contents w' = contents w"
  by (auto simp: ensureDir_def try_sys_def split: prod.splits sum.splits)
     (metis contents_MkdirAll contents_Chmod)+

lemma fill_and_rename_contents:
  assumes "fill_and_rename os tmp dest b w = (r, w')" "contents w tmp = Some []" "tmp \<noteq> dest"
  shows "case r of None \<Rightarrow> contents w' = (contents w)(tmp := None, dest \<mapsto> b)
    | Some _ \<Rightarrow> (\<forall>p. p \<noteq> tmp \<longrightarrow> contents w' p = contents w p)"
proof -
  obtain r1 w1 where wr: "Write os tmp b w = (r1, w1)" by (cases "Write os tmp b w")
  from contents_Write [OF this assms(2)] obtain b' where
    w1: "contents w1 = (contents w)(tmp \<mapsto> b')" "r1 = Inr () \<longrightarrow> b' = b" by auto
  show ?thesis
  proof (cases r1)
    case (Inl err)
    with wr assms(1) w1 contents_Close [of os tmp w1] show ?thesis
      by (cases "Close os tmp w1") (auto simp: fill_and_rename_def)
  next
    case (Inr u)
    obtain r2 w2 where c: "Close os tmp w1 = (r2, w2)" by (cases "Close os tmp w1")
    obtain r3 w3 where m: "Chmod os tmp mode_0600 w2 = (r3, w3)" by (cases "Chmod os tmp mode_0600 w2")
    obtain r4 w4 where n: "Rename os tmp dest w3 = (r4, w4)" by (cases "Rename os tmp dest w3")
    have "contents w2 = contents w1" "contents w3 = contents w2"
      using contents_Close [OF c] contents_Chmod [OF m] by auto
    with contents_Rename [OF n] Inr wr c m n assms(1,3) w1 show ?thesis
      by (auto simp: fill_and_rename_def try_sys_def split: sum.splits)
  qed
qed

theorem Cache_Save_contents:
  assumes "Cache_Save os dir e w = (r, w')"
  shows "case r of
      None \<Rightarrow> \<exists>b. Marshal_Entry e = Inr b \<and>
        contents w' = (contents w)(path dir (e_Issuer e) (e_ClientID e) \<mapsto> b)
    | Some _ \<Rightarrow> \<forall>k. contents w' (key_file dir k) = contents w (key_file dir k)"
proof -
  obtain r1 w1 where ed: "ensureDir os dir w = (r1, w1)" by (cases "ensureDir os dir w")
  note c1 = contents_ensureDir [OF ed]
  let ?dest = "path dir (e_Issuer e) (e_ClientID e)"
  consider (dir) err where "r1 = Some err"
    | (marshal) err where "r1 = None" "Marshal_Entry e = Inl err"
    | (go) b where "r1 = None" "Marshal_Entry e = Inr b"
    by (cases r1; cases "Marshal_Entry e") auto
  then show ?thesis
  proof cases
    case (go b)
    obtain r2 w2 where ct: "CreateTemp os dir w1 = (r2, w2)" by (cases "CreateTemp os dir w1")
    show ?thesis
    proof (cases r2)
      case (Inl err)
      with go ed ct assms c1 contents_CreateTemp [OF ct] show ?thesis
        by (auto simp: Cache_Save_def try_sys_def Let_def)
    next
      case (Inr tmp)
      have tmp: "tmp = tmp_path os dir (tick w1)" "contents w1 tmp = None"
        and w2: "contents w2 = (contents w1)(tmp \<mapsto> [])"
        using contents_CreateTemp [OF ct] Inr by auto
      have nk: "tmp \<noteq> key_file dir k" for k using tmp(1) tmp_path_not_key by simp
      obtain r3 w3 where fr: "fill_and_rename os tmp ?dest b w2 = (r3, w3)"
        by (cases "fill_and_rename os tmp ?dest b w2")
      obtain r4 w4 where rm: "Remove os tmp w3 = (r4, w4)" by (cases "Remove os tmp w3")
      have "tmp \<noteq> ?dest" using nk by (simp add: path_key)
      note f = fill_and_rename_contents [OF fr _ this]
      show ?thesis
      proof (cases r3)
        case None
        with f w2 tmp c1 have "contents w3 = (contents w)(?dest \<mapsto> b)" by (auto simp: fun_eq_iff)
        with None go ed ct Inr fr assms show ?thesis
          by (simp add: Cache_Save_def try_sys_def Let_def)
      next
        case (Some err)
        with f w2 c1 have "\<forall>p. p \<noteq> tmp \<longrightarrow> contents w3 p = contents w p" by auto
        with contents_Remove [OF rm] have "\<forall>p. p \<noteq> tmp \<longrightarrow> contents w4 p = contents w p"
          by (cases r4) auto
        with Some go ed ct Inr fr rm assms nk [THEN not_sym] show ?thesis
          by (auto simp: Cache_Save_def try_sys_def Let_def)
      qed
    qed
  qed (use ed assms c1 in \<open>auto simp: Cache_Save_def\<close>)
qed

end
