(* ===== verification/CacheSafety.thy ===== *)
theory CacheSafety
  imports CacheFile
begin

text \<open>
  What the file backend promises: it implements the \<open>persistent_store\<close> contract for every pattern
  of failing system calls; a crash between any two system calls of a \<^verbatim>\<open>Save\<close> leaves each token
  file either as it was or complete; and token bytes are never in a file that others can read.
\<close>

section \<open>The view of the file backend\<close>

definition file_view :: "string \<Rightarrow> 'x world \<Rightarrow> string \<Rightarrow> entry option" where
  "file_view dir w k =
     (if list_all is_hex k then Option.bind (contents w (key_file dir k)) Unmarshal_Entry else None)"

lemma file_view_path: "file_view dir w (profileKey i c) = Option.bind (contents w (path dir i c)) Unmarshal_Entry"
  by (simp add: file_view_def profileKey_hex path_key)

lemma ReadFile_error:
  assumes "ReadFile os p w = (Inl err, w')" "errors_Is ErrNotExist err" "os_fault os (tick w) (SysReadFile p) \<noteq> Some ENOENT"
  shows "contents w p = None"
  using assms by (auto simp: ReadFile_def sys_def contents_def split: option.splits)

text \<open>
  A file system that reports a file as absent when it is there is not a file system: the one
  assumption about the environment is that \<^verbatim>\<open>ENOENT\<close> is never a spurious failure.
\<close>

definition honest :: "os \<Rightarrow> bool" where
  "honest os \<longleftrightarrow> (\<forall>t p. os_fault os t (SysReadFile p) \<noteq> Some ENOENT \<and> os_fault os t (SysRemove p) \<noteq> Some ENOENT)"

text \<open>The environment with its spurious absences removed; an honest environment is unchanged.\<close>

definition strict :: "os \<Rightarrow> os" where
  "strict os = os\<lparr>os_fault := (\<lambda>t c. case os_fault os t c of
     Some e \<Rightarrow> Some (if e = ENOENT \<and> (case c of SysReadFile _ \<Rightarrow> True | SysRemove _ \<Rightarrow> True | _ \<Rightarrow> False)
                     then EIO else e)
   | None \<Rightarrow> None)\<rparr>"

lemma honest_strict: "honest (strict os)"
  by (auto simp: honest_def strict_def split: option.splits)

lemma strict_honest: "honest os \<Longrightarrow> strict os = os"
  by (cases os) (auto simp: honest_def strict_def fun_eq_iff split: option.splits syscall.splits)

lemma Cache_Load_view:
  assumes "honest os" "Cache_Load os dir i c w = (Inr r, w')"
  shows "r = file_view dir w (profileKey i c)"
  using assms ReadFile_error [of os "path dir i c" w] ReadFile_content [of os "path dir i c" w]
  by (auto simp: Cache_Load_def file_view_path honest_def split: prod.splits sum.splits if_splits)

lemma Cache_Load_contents: "Cache_Load os dir i c w = (r, w') \<Longrightarrow> contents w' = contents w"
  by (auto simp: Cache_Load_def dest: contents_ReadFile split: prod.splits sum.splits)

lemma Cache_Delete_contents:
  assumes "honest os" "Cache_Delete os dir i c w = (r, w')"
  shows "case r of None \<Rightarrow> contents w' = (contents w)(path dir i c := None) | Some _ \<Rightarrow> contents w' = contents w"
proof -
  obtain x w1 where rm: "Remove os (path dir i c) w = (x, w1)" by (cases "Remove os (path dir i c) w")
  have "contents w (path dir i c) = None" if "x = Inl err" "errors_Is ErrNotExist err" for err
    using rm that assms(1)
    by (auto simp: Remove_def sys_def contents_def honest_def split: option.splits)
  with contents_Remove [OF rm] rm assms(2) show ?thesis
    by (cases x) (auto simp: Cache_Delete_def split: if_splits)
qed

interpretation fstore: persistent_store
  "Cache_Load (strict os) dir" "Cache_Save (strict os) dir" "Cache_Delete (strict os) dir" "file_view dir"
  for os dir
proof (unfold_locales, goal_cases)
  case (1 i c w x w')
  then show ?case by (rule Cache_Load_view [OF honest_strict])
next
  case (2 i c w y w')
  then show ?case using Cache_Load_contents [OF 2] by (simp add: file_view_def fun_eq_iff)
next
  case (3 e w r w' k)
  then show ?case
    using Cache_Save_contents [OF 3(1)] by (auto simp: file_view_def path_key split: option.splits)
next
  case (4 i c w w')
  then show ?case
    using Cache_Delete_contents [OF honest_strict 4]
    by (auto simp: file_view_def path_key fun_eq_iff profileKey_hex)
next
  case (5 i c w err w')
  then show ?case
    using Cache_Delete_contents [OF honest_strict 5] by (simp add: file_view_def fun_eq_iff)
next
  case (6 e w w')
  then obtain b where "Marshal_Entry e = Inr b"
    "contents w' = (contents w)(path dir (e_Issuer e) (e_ClientID e) \<mapsto> b)"
    using Cache_Save_contents [OF 6(2)] by auto
  with entry_roundtrip [OF 6(1)] show ?case
    by (auto simp: file_view_def path_key fun_eq_iff profileKey_hex)
next
  case (7 e w err w')
  then show ?case
    using Cache_Save_contents [OF 7] by (auto simp: file_view_def fun_eq_iff)
qed

text \<open>The lock: an error before the closure runs, or one run of it between two changes of \<open>locks\<close>.\<close>

lemma Cache_WithLock_run:
  assumes "Cache_WithLock os dir i c fn w = (y, w')"
  shows "(\<exists>err. y = Inl err \<and> contents w' = contents w) \<or>
    (\<exists>v v'. contents v = contents w \<and> lockPath dir i c \<in> set (locks v) \<and> fn v = (y, v') \<and>
       w' = v'\<lparr>locks := remove1 (lockPath dir i c) (locks v')\<rparr>)"
proof -
  obtain r1 w1 where ed: "ensureDir os dir w = (r1, w1)" by (cases "ensureDir os dir w")
  let ?l = "lockPath dir i c"
  let ?v = "(advance w1)\<lparr>locks := ?l # locks (advance w1)\<rparr>"
  obtain y2 v2 where fn: "fn ?v = (y2, v2)" by (cases "fn ?v")
  note c = contents_ensureDir [OF ed]
  show ?thesis
  proof (cases "r1 = None \<and> os_flock os (tick w1) ?l = (True, None)")
    case True
    then have "y = y2" "w' = v2\<lparr>locks := remove1 ?l (locks v2)\<rparr>"
      using assms ed fn by (simp_all add: Cache_WithLock_def Let_def)
    moreover have "contents ?v = contents w" "?l \<in> set (locks ?v)" using c by simp_all
    ultimately show ?thesis using fn by blast
  next
    case False
    then show ?thesis using assms ed c
      by (auto simp: Cache_WithLock_def Let_def split: option.splits prod.splits bool.splits)
  qed
qed

lemma file_view_contents: "contents v = contents w \<Longrightarrow> file_view dir v = file_view dir w"
  by (simp add: file_view_def fun_eq_iff)

interpretation flock: locked_store
  "Cache_Load (strict os) dir" "Cache_Save (strict os) dir" "Cache_Delete (strict os) dir" "file_view dir"
  "Cache_WithLock os dir"
  for os dir
proof (unfold_locales, goal_cases)
  case (1 i c fn w y w')
  from Cache_WithLock_run [OF 1] show ?case
  proof (elim disjE exE conjE)
    fix v v'
    assume v: "contents v = contents w" "fn v = (y, v')"
      "w' = v'\<lparr>locks := remove1 (lockPath dir i c) (locks v')\<rparr>"
    then have "file_view dir v = file_view dir w" "file_view dir w' = file_view dir v'"
      by (auto intro!: file_view_contents)
    with v(2) show ?case by blast
  qed (auto intro!: file_view_contents)
qed

section \<open>Every intermediate state\<close>

text \<open>
  \<open>trail P w w'\<close>: the file system satisfied \<open>P\<close> after every system call between \<open>w\<close> and \<open>w'\<close>.
\<close>

definition trail :: "(fs \<Rightarrow> bool) \<Rightarrow> 'x world \<Rightarrow> 'x world \<Rightarrow> bool" where
  "trail P w w' \<longleftrightarrow> (\<exists>hs. history w' = hs @ history w \<and> (\<forall>f \<in> set hs. P f))"

lemma trail_trans [trans]: "trail P w w1 \<Longrightarrow> trail P w1 w2 \<Longrightarrow> trail P w w2"
  by (force simp: trail_def)

lemma trail_one: "history w' = files w' # history w \<Longrightarrow> P (files w') \<Longrightarrow> trail P w w'"
  by (force simp: trail_def)

lemma trail_refl [simp]: "trail P w w"
  by (simp add: trail_def)

lemma history_sys:
  assumes "sys os c act w = (r, w')" "\<And>x w1. act w = (x, w1) \<Longrightarrow> history w1 = history w"
  shows "history w' = files w' # history w"
  using assms by (auto simp: sys_def advance_def split: option.splits sum.splits prod.splits)

lemma history_ReadFile: "ReadFile os p w = (r, w') \<Longrightarrow> history w' = files w' # history w"
  unfolding ReadFile_def by (rule history_sys) auto

lemma history_MkdirAll: "MkdirAll os p m w = (r, w') \<Longrightarrow> history w' = files w' # history w"
  unfolding MkdirAll_def by (rule history_sys) (auto split: option.splits)

lemma history_Chmod: "Chmod os p m w = (r, w') \<Longrightarrow> history w' = files w' # history w"
  unfolding Chmod_def by (rule history_sys) (auto split: option.splits)

lemma history_CreateTemp: "CreateTemp os d w = (r, w') \<Longrightarrow> history w' = files w' # history w"
  unfolding CreateTemp_def by (rule history_sys) (auto simp: Let_def split: option.splits)

lemma history_Close: "Close os p w = (r, w') \<Longrightarrow> history w' = files w' # history w"
  unfolding Close_def by (rule history_sys) auto

lemma history_Rename: "Rename os a b w = (r, w') \<Longrightarrow> history w' = files w' # history w"
  unfolding Rename_def by (rule history_sys) (auto split: option.splits)

lemma history_Remove: "Remove os p w = (r, w') \<Longrightarrow> history w' = files w' # history w"
  unfolding Remove_def by (rule history_sys) (auto split: option.splits)

lemma history_Write: "Write os p b w = (r, w') \<Longrightarrow> history w' = files w' # history w"
  by (auto simp: Write_def advance_def append_bytes_def split: option.splits)

lemmas history_step = history_ReadFile history_MkdirAll history_Chmod history_CreateTemp
  history_Close history_Rename history_Remove history_Write

section \<open>Crash safety\<close>

text \<open>
  Seen from the state before the \<^verbatim>\<open>Save\<close>: every token file has its old content, or it is the
  destination and has the complete new content.
\<close>

definition intact :: "string \<Rightarrow> 'x world \<Rightarrow> string \<Rightarrow> string \<Rightarrow> fs \<Rightarrow> bool" where
  "intact dir w dest b f \<longleftrightarrow>
     (\<forall>k. map_option content (f (key_file dir k)) = contents w (key_file dir k) \<or>
          key_file dir k = dest \<and> map_option content (f (key_file dir k)) = Some b)"

lemma intact_contents:
  "intact dir w dest b (files w') \<longleftrightarrow>
     (\<forall>k. contents w' (key_file dir k) = contents w (key_file dir k) \<or>
          key_file dir k = dest \<and> contents w' (key_file dir k) = Some b)"
  by (simp add: intact_def contents_def)

lemma ensureDir_trail:
  fixes w w' :: "'x world"
  assumes "ensureDir os dir w = (r, w')" "\<And>v :: 'x world. contents v = contents w \<Longrightarrow> P (files v)"
  shows "trail P w w'"
proof -
  obtain r1 w1 where m: "MkdirAll os dir mode_0700 w = (r1, w1)" by (cases "MkdirAll os dir mode_0700 w")
  obtain r2 w2 where c: "Chmod os dir mode_0700 w1 = (r2, w2)" by (cases "Chmod os dir mode_0700 w1")
  have "trail P w w1"
    using history_MkdirAll [OF m] assms(2) contents_MkdirAll [OF m] by (blast intro: trail_one)
  moreover have "trail P w1 w2"
    using history_Chmod [OF c] assms(2) contents_MkdirAll [OF m] contents_Chmod [OF c]
    by (metis trail_one)
  ultimately show ?thesis
    using m c assms(1) trail_trans by (auto simp: ensureDir_def try_sys_def split: sum.splits)
qed

lemma fill_and_rename_trail:
  fixes w w' :: "'x world"
  assumes "fill_and_rename os tmp dest b w = (r, w')" "contents w tmp = Some []"
    and off: "\<And>v :: 'x world. \<forall>p. p \<noteq> tmp \<longrightarrow> contents v p = contents w p \<Longrightarrow> P (files v)"
    and new: "\<And>v :: 'x world. contents v = (contents w)(tmp := None, dest \<mapsto> b) \<Longrightarrow> P (files v)"
  shows "trail P w w'"
proof -
  obtain r1 w1 where wr: "Write os tmp b w = (r1, w1)" by (cases "Write os tmp b w")
  from contents_Write [OF this assms(2)] obtain b' where
    w1: "contents w1 = (contents w)(tmp \<mapsto> b')" "r1 = Inr () \<longrightarrow> b' = b" by auto
  obtain r2 w2 where c: "Close os tmp w1 = (r2, w2)" by (cases "Close os tmp w1")
  obtain r3 w3 where m: "Chmod os tmp mode_0600 w2 = (r3, w3)" by (cases "Chmod os tmp mode_0600 w2")
  obtain r4 w4 where n: "Rename os tmp dest w3 = (r4, w4)" by (cases "Rename os tmp dest w3")
  have eq: "contents w2 = contents w1" "contents w3 = contents w1"
    using contents_Close [OF c] contents_Chmod [OF m] by auto
  have t1: "trail P w w1" and t2: "trail P w1 w2" and t3: "trail P w2 w3"
    using history_step(8) [OF wr] history_step(5) [OF c] history_step(3) [OF m] w1 eq off
    by (auto intro!: trail_one)
  note t12 = trail_trans [OF t1 t2] and t13 = trail_trans [OF trail_trans [OF t1 t2] t3]
  show ?thesis
  proof (cases "r1 = Inr () \<and> r2 = Inr () \<and> r3 = Inr ()")
    case True
    have "P (files w4)"
    proof (cases r4)
      case (Inl err)
      with contents_Rename [OF n] w1 eq show ?thesis by (intro off) auto
    next
      case (Inr u)
      with contents_Rename [OF n] w1 eq True show ?thesis by (intro new) (auto simp: fun_eq_iff)
    qed
    then have "trail P w3 w4" using history_step(6) [OF n] by (intro trail_one)
    with t13 have "trail P w w4" by (rule trail_trans)
    moreover have "w' = w4"
      using True wr c m n assms(1) by (auto simp: fill_and_rename_def try_sys_def split: sum.splits)
    ultimately show ?thesis by simp
  next
    case False
    then have "w' \<in> {w2, w3}"
      using wr c m assms(1) by (auto simp: fill_and_rename_def try_sys_def split: sum.splits)
    with t12 t13 show ?thesis by auto
  qed
qed

lemma Cache_Save_trail:
  assumes "Cache_Save os dir e w = (r, w')" "Marshal_Entry e = Inr b"
  shows "trail (intact dir w (path dir (e_Issuer e) (e_ClientID e)) b) w w'"
    (is "trail ?P w w'")
proof -
  let ?dest = "path dir (e_Issuer e) (e_ClientID e)"
  obtain r1 w1 where ed: "ensureDir os dir w = (r1, w1)" by (cases "ensureDir os dir w")
  note c1 = contents_ensureDir [OF ed]
  have t1: "trail ?P w w1" by (rule ensureDir_trail [OF ed]) (simp add: intact_contents)
  obtain r2 w2 where ct: "CreateTemp os dir w1 = (r2, w2)" by (cases "CreateTemp os dir w1")
  have nk: "key_file dir k \<noteq> tmp_path os dir (tick w1)" for k using tmp_path_not_key by metis
  have "?P (files w2)"
    using contents_CreateTemp [OF ct] c1 nk by (auto simp: intact_contents split: sum.splits)
  then have t2: "trail ?P w1 w2" using history_CreateTemp [OF ct] by (intro trail_one)
  show ?thesis
  proof (cases "\<exists>tmp. r1 = None \<and> r2 = Inr tmp")
    case False
    then show ?thesis using ed ct assms t1 trail_trans [OF t1 t2]
      by (cases r1; cases r2) (auto simp: Cache_Save_def try_sys_def Let_def)
  next
    case True
    then obtain tmp where r: "r1 = None" "r2 = Inr tmp" by blast
    with contents_CreateTemp [OF ct] have w2: "contents w2 = (contents w1)(tmp \<mapsto> [])"
      and tmp: "tmp = tmp_path os dir (tick w1)" by auto
    obtain r3 w3 where fr: "fill_and_rename os tmp ?dest b w2 = (r3, w3)"
      by (cases "fill_and_rename os tmp ?dest b w2")
    obtain r4 w4 where rm: "Remove os tmp w3 = (r4, w4)" by (cases "Remove os tmp w3")
    have t3: "trail ?P w2 w3"
      by (rule fill_and_rename_trail [OF fr])
         (use w2 nk tmp c1 in \<open>auto simp: intact_contents path_key\<close>)
    have ne: "tmp \<noteq> ?dest" using nk tmp by (metis path_key)
    have c3: "\<forall>p. p \<noteq> tmp \<longrightarrow> contents w3 p = contents w p" if "r3 = Some err" for err
      using fill_and_rename_contents [OF fr _ ne] w2 c1 that by auto
    have "trail ?P w3 w4" if "r3 = Some err" for err
    proof (rule trail_one [OF history_Remove [OF rm]])
      show "?P (files w4)"
        using contents_Remove [OF rm] c3 [OF that] nk tmp
        by (auto simp: intact_contents split: sum.splits)
    qed
    then show ?thesis
      using r ed ct fr rm assms trail_trans [OF trail_trans [OF t1 t2] t3] trail_trans
      by (auto simp: Cache_Save_def try_sys_def Let_def split: option.splits)
  qed
qed

section \<open>Permissions\<close>

text \<open>
  \<open>tight w tmp f\<close>: every file of \<open>f\<close> is a file of \<open>w\<close>, untouched and not the temporary file, or
  has permissions 0600.
\<close>

definition tight :: "fs \<Rightarrow> string \<Rightarrow> fs \<Rightarrow> bool" where
  "tight g tmp f \<longleftrightarrow> (\<forall>p x. f p = Some x \<longrightarrow> p \<noteq> tmp \<and> g p = Some x \<or> mode x = mode_0600)"

lemma tight_Write: "Write os tmp b v = (r, v') \<Longrightarrow> tight g tmp (files v) \<Longrightarrow> tight g tmp (files v')"
  by (auto simp: Write_def append_bytes_def advance_def tight_def split: option.splits if_splits) blast+

lemma tight_Close: "Close os p v = (r, v') \<Longrightarrow> tight g tmp (files v) \<Longrightarrow> tight g tmp (files v')"
  by (auto simp: Close_def sys_def advance_def split: option.splits)

lemma tight_Chmod: "Chmod os p mode_0600 v = (r, v') \<Longrightarrow> tight g tmp (files v) \<Longrightarrow> tight g tmp (files v')"
  by (auto simp: Chmod_def sys_def advance_def tight_def split: option.splits sum.splits prod.splits if_splits) blast+

lemma tight_Rename: "Rename os tmp d v = (r, v') \<Longrightarrow> tight g tmp (files v) \<Longrightarrow> tight g tmp (files v')"
  by (auto simp: Rename_def sys_def advance_def tight_def split: option.splits sum.splits prod.splits if_splits) blast+

lemma tight_Remove: "Remove os p v = (r, v') \<Longrightarrow> tight g tmp (files v) \<Longrightarrow> tight g tmp (files v')"
  by (auto simp: Remove_def sys_def advance_def tight_def split: option.splits sum.splits prod.splits if_splits) blast+

lemma tight_CreateTemp:
  "CreateTemp os dir v = (Inr tmp, v') \<Longrightarrow> tight (files v) tmp (files v')"
  by (auto simp: CreateTemp_def sys_def advance_def tight_def Let_def
      split: option.splits sum.splits prod.splits if_splits)

lemma ensureDir_files:
  assumes "ensureDir os dir w = (r, w')" "files w dir = None"
  shows "files w' = files w" "trail (\<lambda>f. f = files w) w w'"
    "r = None \<Longrightarrow> dirs w' dir = Some mode_0700"
proof -
  obtain r1 w1 where m: "MkdirAll os dir mode_0700 w = (r1, w1)" by (cases "MkdirAll os dir mode_0700 w")
  obtain r2 w2 where c: "Chmod os dir mode_0700 w1 = (r2, w2)" by (cases "Chmod os dir mode_0700 w1")
  have f1: "files w1 = files w" using m by (auto simp: MkdirAll_def sys_def advance_def split: option.splits)
  have f2: "files w2 = files w"
    using c f1 assms(2) by (auto simp: Chmod_def sys_def advance_def split: option.splits)
  have d2: "r2 = Inr () \<Longrightarrow> dirs w2 dir = Some mode_0700"
    using c f1 assms(2) by (auto simp: Chmod_def sys_def advance_def split: option.splits)
  have w': "w' = w1 \<or> w' = w2" "r = None \<Longrightarrow> r2 = Inr () \<and> w' = w2"
    using m c assms(1) by (auto simp: ensureDir_def try_sys_def split: sum.splits)
  have t1: "trail (\<lambda>f. f = files w) w w1" using history_MkdirAll [OF m] f1 by (intro trail_one)
  have "trail (\<lambda>f. f = files w) w1 w2" using history_Chmod [OF c] f2 by (intro trail_one)
  with t1 have "trail (\<lambda>f. f = files w) w w2" by (rule trail_trans)
  with w' f1 f2 d2 t1 show "files w' = files w" "trail (\<lambda>f. f = files w) w w'"
    "r = None \<Longrightarrow> dirs w' dir = Some mode_0700" by auto
qed

lemma trail_mono: "trail P w w' \<Longrightarrow> (\<And>f. P f \<Longrightarrow> Q f) \<Longrightarrow> trail Q w w'"
  by (auto simp: trail_def)

lemma fill_and_rename_tight:
  assumes "fill_and_rename os tmp dest b w = (r, w')" "tight g tmp (files w)"
  shows "trail (tight g tmp) w w' \<and> tight g tmp (files w')"
proof -
  obtain r1 w1 where wr: "Write os tmp b w = (r1, w1)" by (cases "Write os tmp b w")
  obtain r2 w2 where c: "Close os tmp w1 = (r2, w2)" by (cases "Close os tmp w1")
  obtain r3 w3 where m: "Chmod os tmp mode_0600 w2 = (r3, w3)" by (cases "Chmod os tmp mode_0600 w2")
  obtain r4 w4 where n: "Rename os tmp dest w3 = (r4, w4)" by (cases "Rename os tmp dest w3")
  note g1 = tight_Write [OF wr assms(2)]
  note g2 = tight_Close [OF c g1]
  note g3 = tight_Chmod [OF m g2]
  note g4 = tight_Rename [OF n g3]
  note t1 = trail_one [where P = "tight g tmp", OF history_Write [OF wr] g1]
  note t2 = trail_trans [OF t1 trail_one [where P = "tight g tmp", OF history_Close [OF c] g2]]
  note t3 = trail_trans [OF t2 trail_one [where P = "tight g tmp", OF history_Chmod [OF m] g3]]
  note t4 = trail_trans [OF t3 trail_one [where P = "tight g tmp", OF history_Rename [OF n] g4]]
  have "w' \<in> {w2, w3, w4}"
    using wr c m n assms(1) by (auto simp: fill_and_rename_def try_sys_def split: sum.splits)
  with g2 g3 g4 t2 t3 t4 show ?thesis by auto
qed

lemma dirs_Chmod_file: "Chmod os p m w = (r, w') \<Longrightarrow> contents w p \<noteq> None \<Longrightarrow> dirs w' = dirs w"
  by (auto simp: Chmod_def sys_def advance_def contents_def split: option.splits)

lemma fill_and_rename_ok:
  assumes "fill_and_rename os tmp dest b w = (None, w')" "contents w tmp = Some []" "tight g tmp (files w)"
  shows "dirs w' = dirs w" "\<exists>x. files w' dest = Some x \<and> mode x = mode_0600"
proof -
  obtain r1 w1 where wr: "Write os tmp b w = (r1, w1)" by (cases "Write os tmp b w")
  obtain r2 w2 where c: "Close os tmp w1 = (r2, w2)" by (cases "Close os tmp w1")
  obtain r3 w3 where m: "Chmod os tmp mode_0600 w2 = (r3, w3)" by (cases "Chmod os tmp mode_0600 w2")
  obtain r4 w4 where n: "Rename os tmp dest w3 = (r4, w4)" by (cases "Rename os tmp dest w3")
  have w': "w' = w4" "r4 = Inr ()"
    using wr c m n assms(1) by (auto simp: fill_and_rename_def try_sys_def split: sum.splits)
  have "dirs w1 = dirs w"
    using wr by (auto simp: Write_def append_bytes_def advance_def split: option.splits)
  moreover have "dirs w2 = dirs w1" using c by (auto simp: Close_def sys_def advance_def split: option.splits)
  moreover have "contents w2 tmp \<noteq> None"
    using contents_Write [OF wr assms(2)] contents_Close [OF c] by auto
  then have "dirs w3 = dirs w2" by (rule dirs_Chmod_file [OF m])
  moreover have "dirs w4 = dirs w3"
    using n by (auto simp: Rename_def sys_def advance_def split: option.splits sum.splits prod.splits)
  ultimately show "dirs w' = dirs w" using w' by simp
  have "tight g tmp (files w3)"
    by (rule tight_Chmod [OF m tight_Close [OF c tight_Write [OF wr assms(3)]]])
  then have "\<And>x. files w3 tmp = Some x \<Longrightarrow> mode x = mode_0600" by (auto simp: tight_def)
  then show "\<exists>x. files w' dest = Some x \<and> mode x = mode_0600"
    using n w' by (auto simp: Rename_def sys_def advance_def split: option.splits sum.splits prod.splits)
qed

text \<open>No file is ever readable by others: after every system call each file is old or has mode 0600.\<close>

definition private_fs :: "fs \<Rightarrow> fs \<Rightarrow> bool" where
  "private_fs g f \<longleftrightarrow> (\<forall>p x. f p = Some x \<longrightarrow> g p = Some x \<or> mode x = mode_0600)"

lemma tight_private: "tight g tmp f \<Longrightarrow> private_fs g f"
  by (auto simp: tight_def private_fs_def)

lemma Cache_Save_private:
  assumes "Cache_Save os dir e w = (r, w')" "files w dir = None"
  shows "trail (private_fs (files w)) w w' \<and> (r = None \<longrightarrow> dirs w' dir = Some mode_0700 \<and>
    (\<exists>x. files w' (path dir (e_Issuer e) (e_ClientID e)) = Some x \<and> mode x = mode_0600))"
proof -
  let ?dest = "path dir (e_Issuer e) (e_ClientID e)" and ?P = "private_fs (files w)"
  obtain r1 w1 where ed: "ensureDir os dir w = (r1, w1)" by (cases "ensureDir os dir w")
  note f1 = ensureDir_files [OF ed assms(2)]
  have t1: "trail ?P w w1" by (rule trail_mono [OF f1(2)]) (simp add: private_fs_def)
  obtain r2 w2 where ct: "CreateTemp os dir w1 = (r2, w2)" by (cases "CreateTemp os dir w1")
  have d2: "dirs w2 = dirs w1"
    using ct by (auto simp: CreateTemp_def sys_def advance_def Let_def
        split: option.splits sum.splits prod.splits if_splits)
  consider (early) "r1 \<noteq> None \<or> (\<exists>err. Marshal_Entry e = Inl err)"
    | (ct) err b where "r1 = None" "Marshal_Entry e = Inr b" "r2 = Inl err"
    | (go) tmp b where "r1 = None" "Marshal_Entry e = Inr b" "r2 = Inr tmp"
    by (cases r1; cases "Marshal_Entry e"; cases r2) auto
  then show ?thesis
  proof cases
    case early
    with ed assms(1) t1 f1 show ?thesis by (cases r1) (auto simp: Cache_Save_def)
  next
    case ct
    have "files w2 = files w1"
      using ct \<open>CreateTemp os dir w1 = (r2, w2)\<close>
      by (auto simp: CreateTemp_def sys_def advance_def Let_def
          split: option.splits sum.splits prod.splits if_splits)
    then have "trail ?P w1 w2"
      using history_CreateTemp [OF \<open>CreateTemp os dir w1 = (r2, w2)\<close>] f1(1)
      by (auto simp: private_fs_def intro: trail_one)
    with t1 have "trail ?P w w2" by (rule trail_trans)
    with ed ct assms(1) \<open>CreateTemp os dir w1 = (r2, w2)\<close> show ?thesis
      by (auto simp: Cache_Save_def try_sys_def Let_def)
  next
    case (go tmp b)
    have g2: "tight (files w) tmp (files w2)" using tight_CreateTemp ct go(3) f1(1) by metis
    have t2: "trail ?P w1 w2"
      by (rule trail_one [OF history_CreateTemp [OF ct]]) (rule tight_private [OF g2])
    obtain r3 w3 where fr: "fill_and_rename os tmp ?dest b w2 = (r3, w3)"
      by (cases "fill_and_rename os tmp ?dest b w2")
    note g3 = fill_and_rename_tight [OF fr g2]
    then have t3: "trail ?P w2 w3" by (blast intro: trail_mono tight_private)
    obtain r4 w4 where rm: "Remove os tmp w3 = (r4, w4)" by (cases "Remove os tmp w3")
    have t4: "trail ?P w3 w4"
      by (rule trail_one [OF history_Remove [OF rm]]) (use g3 in \<open>blast intro: tight_private tight_Remove [OF rm]\<close>)
    note t = trail_trans [OF trail_trans [OF t1 t2] t3]
    have "contents w2 tmp = Some []" using contents_CreateTemp [OF ct] go(3) by simp
    then have "r3 = None \<Longrightarrow> dirs w3 dir = Some mode_0700 \<and>
        (\<exists>x. files w3 ?dest = Some x \<and> mode x = mode_0600)"
      using fill_and_rename_ok [OF _ _ g2] fr d2 f1(3) go(1) by metis
    then show ?thesis
      using go ed ct fr rm assms(1) t trail_trans [OF t t4]
      by (auto simp: Cache_Save_def try_sys_def Let_def split: option.splits)
  qed
qed

end
