(* ===== verification/Keychain.thy ===== *)
theory Keychain
  imports Store World
begin

text \<open>
  internal/cache/keychain.go and noop.go: the OS keychain backend and the backend of
  \<^verbatim>\<open>--token-store=none\<close>. The package github.com/zalando/go-keyring is not part of the
  repository: its three functions are the record \<open>keyring\<close>, an argument of the definitions, acting
  on the opaque part of the world; \<open>keyring_laws\<close> is what is assumed of it, an orderly keyring: its
  documentation promises the successful calls, the rest is what its backends do.
\<close>

section \<open>The keyring library and its promises\<close>

text \<open>
  What \<^verbatim>\<open>runKeyringOp\<close>'s \<^verbatim>\<open>select\<close> sees: the call returned, or the context was done first.
\<close>

datatype 'a selected = Returned "error + 'a" | CtxDone

record 'x keyring =
  kr_Get :: "string \<Rightarrow> string \<Rightarrow> 'x \<Rightarrow> string selected \<times> 'x"
  kr_Set :: "string \<Rightarrow> string \<Rightarrow> string \<Rightarrow> 'x \<Rightarrow> string selected \<times> 'x"
  kr_Delete :: "string \<Rightarrow> string \<Rightarrow> 'x \<Rightarrow> string selected \<times> 'x"

text \<open>
  Reading changes nothing; after a successful \<^verbatim>\<open>Set\<close> the item reads as what was set and after a
  successful \<^verbatim>\<open>Delete\<close> as not found; other items read as before; a call that failed changed
  nothing, and a \<^verbatim>\<open>Delete\<close> that reports \<^verbatim>\<open>ErrNotFound\<close> speaks the truth.
\<close>

definition reads_as :: "'x keyring \<Rightarrow> string \<Rightarrow> string \<Rightarrow> string option \<Rightarrow> 'x \<Rightarrow> bool" where
  "reads_as kr s u v x \<longleftrightarrow>
     fst (kr_Get kr s u x) =
       (case v of Some t \<Rightarrow> Returned (Inr t) | None \<Rightarrow> Returned (Inl (Sentinel ErrKeyringNotFound)))"

definition keyring_laws :: "'x keyring \<Rightarrow> bool" where
  "keyring_laws kr \<longleftrightarrow>
     (\<forall>s u x. snd (kr_Get kr s u x) = x) \<and>
     (\<forall>s u v x r x'. kr_Set kr s u v x = (Returned (Inr r), x') \<longrightarrow>
        reads_as kr s u (Some v) x' \<and>
        (\<forall>s'. s' \<noteq> s \<longrightarrow> fst (kr_Get kr s' u x') = fst (kr_Get kr s' u x))) \<and>
     (\<forall>s u v x e x'. kr_Set kr s u v x = (Returned (Inl e), x') \<longrightarrow> x' = x) \<and>
     (\<forall>s u x r x'. kr_Delete kr s u x = (Returned (Inr r), x') \<longrightarrow>
        reads_as kr s u None x' \<and>
        (\<forall>s'. s' \<noteq> s \<longrightarrow> fst (kr_Get kr s' u x') = fst (kr_Get kr s' u x))) \<and>
     (\<forall>s u x e x'. kr_Delete kr s u x = (Returned (Inl e), x') \<longrightarrow>
        x' = x \<and> (errors_Is ErrKeyringNotFound e \<longrightarrow> reads_as kr s u None x))"

section \<open>Operations\<close>

definition keychainUser :: string where
  "keychainUser = ''token''"

definition keychainProbeService :: string where
  "keychainProbeService = ''oidc-token:__probe__''"

definition keychainService :: "string \<Rightarrow> string \<Rightarrow> string" where
  "keychainService issuer clientID = ''oidc-token:'' @ profileKey issuer clientID"

text \<open>\<^verbatim>\<open>errors.As(err, &execErr)\<close>: some error of the tree is an \<^verbatim>\<open>*exec.Error\<close>.\<close>

definition isUnavailable :: "error \<Rightarrow> bool" where
  "isUnavailable err \<longleftrightarrow> errors_Is ErrUnsupportedPlatform err \<or> as_ExecError err \<noteq> None"

definition runKeyringOp ::
  "('x \<Rightarrow> string selected \<times> 'x) \<Rightarrow> 'x world \<Rightarrow> (error + string) \<times> 'x world" where
  "runKeyringOp op w =
     (case op (outside w) of
        (Returned r, x) \<Rightarrow> (r, w\<lparr>outside := x\<rparr>)
      | (CtxDone, x) \<Rightarrow> (Inl (Sentinel ErrContextDone), w\<lparr>outside := x\<rparr>))"

definition Keychain_Probe :: "'x keyring \<Rightarrow> 'x world \<Rightarrow> error option \<times> 'x world" where
  "Keychain_Probe kr w =
     (case runKeyringOp (kr_Get kr keychainProbeService keychainUser) w of
        (Inr _, w') \<Rightarrow> (None, w')
      | (Inl err, w') \<Rightarrow>
          (if errors_Is ErrKeyringNotFound err then None
           else if isUnavailable err then Some (wrap2 ErrBackendUnavailable err)
           else Some (wrap2 ErrBackendUnavailable err), w'))"

definition Keychain_Load ::
  "'x keyring \<Rightarrow> string \<Rightarrow> string \<Rightarrow> 'x world \<Rightarrow> (error + entry option) \<times> 'x world" where
  "Keychain_Load kr issuer clientID w =
     (case runKeyringOp (kr_Get kr (keychainService issuer clientID) keychainUser) w of
        (Inl err, w') \<Rightarrow>
          (if errors_Is ErrKeyringNotFound err then Inr None
           else if isUnavailable err then Inl (wrap2 ErrBackendUnavailable err)
           else Inl (wrap ''cache: keychain read: '' err), w')
      | (Inr raw, w') \<Rightarrow> (Inr (Unmarshal_Entry raw), w'))"

definition Keychain_Save :: "'x keyring \<Rightarrow> entry \<Rightarrow> 'x world \<Rightarrow> error option \<times> 'x world" where
  "Keychain_Save kr e w =
     (case Marshal_Entry e of
        Inl err \<Rightarrow> (Some (wrap ''cache: marshal: '' err), w)
      | Inr b \<Rightarrow>
          (case runKeyringOp
             (kr_Set kr (keychainService (e_Issuer e) (e_ClientID e)) keychainUser b) w of
             (Inl err, w') \<Rightarrow>
               (Some (if isUnavailable err then wrap2 ErrBackendUnavailable err
                      else wrap ''cache: keychain write: '' err), w')
           | (Inr _, w') \<Rightarrow> (None, w')))"

definition Keychain_Delete ::
  "'x keyring \<Rightarrow> string \<Rightarrow> string \<Rightarrow> 'x world \<Rightarrow> error option \<times> 'x world" where
  "Keychain_Delete kr issuer clientID w =
     (case runKeyringOp (kr_Delete kr (keychainService issuer clientID) keychainUser) w of
        (Inl err, w') \<Rightarrow>
          (if errors_Is ErrKeyringNotFound err then None
           else if isUnavailable err then Some (wrap2 ErrBackendUnavailable err)
           else Some (wrap ''cache: keychain delete: '' err), w')
      | (Inr _, w') \<Rightarrow> (None, w'))"

text \<open>\<^verbatim>\<open>WithLock\<close> takes the process-local mutex; within one goroutine that is running the closure.\<close>

definition Keychain_WithLock ::
  "string \<Rightarrow> string \<Rightarrow> ('x world \<Rightarrow> (error + 'r) \<times> 'x world) \<Rightarrow> 'x world \<Rightarrow> (error + 'r) \<times> 'x world" where
  "Keychain_WithLock issuer clientID fn w = fn w"

definition keychain_store :: "'x keyring \<Rightarrow> ('x world, 'r) store" where
  "keychain_store kr = \<lparr>Load = Keychain_Load kr, Save = Keychain_Save kr,
     Delete = Keychain_Delete kr, WithLock = Keychain_WithLock\<rparr>"

section \<open>The backend that stores nothing\<close>

definition Noop_Load :: "string \<Rightarrow> string \<Rightarrow> 'w \<Rightarrow> (error + entry option) \<times> 'w" where
  "Noop_Load issuer clientID w = (Inr None, w)"

definition Noop_Save :: "entry \<Rightarrow> 'w \<Rightarrow> error option \<times> 'w" where
  "Noop_Save e w = (None, w)"

definition Noop_Delete :: "string \<Rightarrow> string \<Rightarrow> 'w \<Rightarrow> error option \<times> 'w" where
  "Noop_Delete issuer clientID w = (None, w)"

definition Noop_WithLock ::
  "string \<Rightarrow> string \<Rightarrow> ('w \<Rightarrow> (error + 'r) \<times> 'w) \<Rightarrow> 'w \<Rightarrow> (error + 'r) \<times> 'w" where
  "Noop_WithLock issuer clientID fn w = fn w"

definition noop_store :: "('w, 'r) store" where
  "noop_store = \<lparr>Load = Noop_Load, Save = Noop_Save, Delete = Noop_Delete, WithLock = Noop_WithLock\<rparr>"

interpretation nstore: base_store Noop_Load Noop_Save Noop_Delete "\<lambda>_ _. None"
  by unfold_locales (auto simp: Noop_Load_def fun_eq_iff)

section \<open>The keychain backend meets the contract of a store\<close>

definition keychain_view :: "'x keyring \<Rightarrow> 'x world \<Rightarrow> string \<Rightarrow> entry option" where
  "keychain_view kr w k =
     (case fst (kr_Get kr (''oidc-token:'' @ k) keychainUser (outside w)) of
        Returned (Inr raw) \<Rightarrow> Unmarshal_Entry raw
      | _ \<Rightarrow> None)"

lemma runKeyringOp_cases:
  "runKeyringOp op w = (r, w') \<Longrightarrow> \<exists>s x. op (outside w) = (s, x) \<and> w' = w\<lparr>outside := x\<rparr> \<and>
     r = (case s of Returned y \<Rightarrow> y | CtxDone \<Rightarrow> Inl (Sentinel ErrContextDone))"
  by (auto simp: runKeyringOp_def split: prod.splits selected.splits)

lemma keyring_get:
  assumes "keyring_laws kr" "runKeyringOp (kr_Get kr s u) w = (r, w')"
  shows "w' = w" "r = (case fst (kr_Get kr s u (outside w)) of
    Returned y \<Rightarrow> y | CtxDone \<Rightarrow> Inl (Sentinel ErrContextDone))"
proof -
  have "snd (kr_Get kr s u (outside w)) = outside w" using assms(1) by (simp add: keyring_laws_def)
  with runKeyringOp_cases [OF assms(2)] show "w' = w"
    "r = (case fst (kr_Get kr s u (outside w)) of Returned y \<Rightarrow> y | CtxDone \<Rightarrow> Inl (Sentinel ErrContextDone))"
    by auto
qed

lemma Keychain_Load_view:
  assumes "keyring_laws kr" "Keychain_Load kr i c w = (Inr r, w')"
  shows "r = keychain_view kr w (profileKey i c)"
  using assms(2) keyring_get [OF assms(1), of "keychainService i c" keychainUser w]
  by (auto simp: Keychain_Load_def keychain_view_def keychainService_def
      split: prod.splits sum.splits selected.splits if_splits)

lemma Keychain_Load_frame:
  assumes "keyring_laws kr" "Keychain_Load kr i c w = (r, w')"
  shows "w' = w"
  using assms(2) keyring_get [OF assms(1), of "keychainService i c" keychainUser w]
  by (auto simp: Keychain_Load_def split: prod.splits sum.splits if_splits)

text \<open>
  A \<^verbatim>\<open>Set\<close> or \<^verbatim>\<open>Delete\<close> whose context ended may still take effect later; the contract
  speaks of calls that returned, as they all do with the background context of \<^verbatim>\<open>main\<close>.
\<close>

definition returns :: "'x keyring \<Rightarrow> bool" where
  "returns kr \<longleftrightarrow> (\<forall>s u v x. fst (kr_Set kr s u v x) \<noteq> CtxDone \<and> fst (kr_Delete kr s u x) \<noteq> CtxDone)"

lemma keychain_service_eq: "keychainService i c = ''oidc-token:'' @ profileKey i c"
  by (simp add: keychainService_def)

lemma reads_as_view:
  "reads_as kr (''oidc-token:'' @ k) keychainUser v x \<Longrightarrow>
   keychain_view kr (w\<lparr>outside := x\<rparr>) k = (case v of None \<Rightarrow> None | Some t \<Rightarrow> Unmarshal_Entry t)"
  by (cases v) (auto simp: reads_as_def keychain_view_def)

lemma view_same:
  "(\<And>k. fst (kr_Get kr (''oidc-token:'' @ k) keychainUser x) =
        fst (kr_Get kr (''oidc-token:'' @ k) keychainUser (outside w))) \<Longrightarrow>
   keychain_view kr (w\<lparr>outside := x\<rparr>) = keychain_view kr w"
  by (simp add: keychain_view_def fun_eq_iff)

lemma view_update:
  assumes "reads_as kr (''oidc-token:'' @ k) keychainUser v x"
    "\<And>s. s \<noteq> ''oidc-token:'' @ k \<Longrightarrow> fst (kr_Get kr s keychainUser x) = fst (kr_Get kr s keychainUser (outside w))"
  shows "keychain_view kr (w\<lparr>outside := x\<rparr>) =
    (keychain_view kr w)(k := case v of None \<Rightarrow> None | Some t \<Rightarrow> Unmarshal_Entry t)"
proof
  fix k'
  show "keychain_view kr (w\<lparr>outside := x\<rparr>) k' =
    ((keychain_view kr w)(k := case v of None \<Rightarrow> None | Some t \<Rightarrow> Unmarshal_Entry t)) k'"
  proof (cases "k' = k")
    case True
    then show ?thesis using reads_as_view [OF assms(1), of w] by simp
  next
    case False
    then show ?thesis using assms(2) [of "''oidc-token:'' @ k'"] by (simp add: keychain_view_def)
  qed
qed

lemma keyring_laws_elims:
  assumes "keyring_laws kr"
  shows "kr_Set kr s u v x = (Returned (Inr r), x') \<Longrightarrow> reads_as kr s u (Some v) x'"
    "kr_Set kr s u v x = (Returned (Inr r), x') \<Longrightarrow> s' \<noteq> s \<Longrightarrow>
       fst (kr_Get kr s' u x') = fst (kr_Get kr s' u x)"
    "kr_Set kr s u v x = (Returned (Inl e), x') \<Longrightarrow> x' = x"
    "kr_Delete kr s u x = (Returned (Inr r), x') \<Longrightarrow> reads_as kr s u None x'"
    "kr_Delete kr s u x = (Returned (Inr r), x') \<Longrightarrow> s' \<noteq> s \<Longrightarrow>
       fst (kr_Get kr s' u x') = fst (kr_Get kr s' u x)"
    "kr_Delete kr s u x = (Returned (Inl e), x') \<Longrightarrow> x' = x"
    "kr_Delete kr s u x = (Returned (Inl e), x') \<Longrightarrow> errors_Is ErrKeyringNotFound e \<Longrightarrow> reads_as kr s u None x"
  by (insert assms, unfold keyring_laws_def) (elim conjE, metis)+

lemma keychain_set_view:
  assumes "keyring_laws kr" "returns kr"
    "runKeyringOp (kr_Set kr (''oidc-token:'' @ k) keychainUser b) w = (r, w')"
  shows "keychain_view kr w' = (case r of Inl _ \<Rightarrow> keychain_view kr w
    | Inr _ \<Rightarrow> (keychain_view kr w)(k := Unmarshal_Entry b))"
proof -
  note laws = keyring_laws_elims [OF assms(1)]
  obtain s x where sx: "kr_Set kr (''oidc-token:'' @ k) keychainUser b (outside w) = (s, x)"
    by (cases "kr_Set kr (''oidc-token:'' @ k) keychainUser b (outside w)")
  with assms(2) have ne: "s \<noteq> CtxDone" unfolding returns_def by (metis fst_conv)
  then have s: "s = Returned r" "w' = w\<lparr>outside := x\<rparr>"
    using assms(3) sx by (auto simp: runKeyringOp_def split: selected.splits)
  show ?thesis
  proof (cases r)
    case (Inl e)
    then have "x = outside w" using laws(3) sx s by blast
    then show ?thesis using Inl s by simp
  next
    case (Inr t)
    then have l: "reads_as kr (''oidc-token:'' @ k) keychainUser (Some b) x"
      "\<And>s'. s' \<noteq> ''oidc-token:'' @ k \<Longrightarrow>
         fst (kr_Get kr s' keychainUser x) = fst (kr_Get kr s' keychainUser (outside w))"
      using laws(1,2) [of "''oidc-token:'' @ k"] sx s by blast+
    show ?thesis using view_update [OF l] Inr s by simp
  qed
qed

lemma keychain_delete_view:
  assumes "keyring_laws kr" "returns kr"
    "runKeyringOp (kr_Delete kr (''oidc-token:'' @ k) keychainUser) w = (r, w')"
  shows "keychain_view kr w' = (case r of
      Inl e \<Rightarrow> keychain_view kr w
    | Inr _ \<Rightarrow> (keychain_view kr w)(k := None))"
    "r = Inl e \<Longrightarrow> errors_Is ErrKeyringNotFound e \<Longrightarrow> keychain_view kr w k = None"
proof -
  note laws = keyring_laws_elims [OF assms(1)]
  obtain s x where sx: "kr_Delete kr (''oidc-token:'' @ k) keychainUser (outside w) = (s, x)"
    by (cases "kr_Delete kr (''oidc-token:'' @ k) keychainUser (outside w)")
  with assms(2) have ne: "s \<noteq> CtxDone" unfolding returns_def by (metis fst_conv)
  then have s: "s = Returned r" "w' = w\<lparr>outside := x\<rparr>"
    using assms(3) sx by (auto simp: runKeyringOp_def split: selected.splits)
  show "keychain_view kr w' = (case r of
      Inl e \<Rightarrow> keychain_view kr w | Inr _ \<Rightarrow> (keychain_view kr w)(k := None))"
  proof (cases r)
    case (Inl e)
    then have "x = outside w" using laws(6) sx s by blast
    then show ?thesis using Inl s by simp
  next
    case (Inr t)
    then have l: "reads_as kr (''oidc-token:'' @ k) keychainUser None x"
      "\<And>s'. s' \<noteq> ''oidc-token:'' @ k \<Longrightarrow>
         fst (kr_Get kr s' keychainUser x) = fst (kr_Get kr s' keychainUser (outside w))"
      using laws(4,5) [of "''oidc-token:'' @ k"] sx s by blast+
    show ?thesis using view_update [OF l] Inr s by simp
  qed
  assume "r = Inl e" "errors_Is ErrKeyringNotFound e"
  then have "reads_as kr (''oidc-token:'' @ k) keychainUser None (outside w)"
    using laws(7) sx s by blast
  then show "keychain_view kr w k = None" using reads_as_view [of kr k None "outside w" w] by simp
qed

lemma Keychain_Save_view:
  assumes "keyring_laws kr" "returns kr" "Keychain_Save kr e w = (r, w')"
  shows "keychain_view kr w' = (case r of Some _ \<Rightarrow> keychain_view kr w
    | None \<Rightarrow> (keychain_view kr w)(profileKey (e_Issuer e) (e_ClientID e) :=
        (case Marshal_Entry e of Inr b \<Rightarrow> Unmarshal_Entry b | Inl _ \<Rightarrow> None)))"
    "r = None \<Longrightarrow> \<exists>b. Marshal_Entry e = Inr b"
  using assms(3) keychain_set_view [OF assms(1,2), of "profileKey (e_Issuer e) (e_ClientID e)" _ w]
  by (auto simp: Keychain_Save_def keychain_service_eq split: sum.splits prod.splits if_splits)

lemma Keychain_Delete_view:
  assumes "keyring_laws kr" "returns kr" "Keychain_Delete kr i c w = (r, w')"
  shows "keychain_view kr w' = (case r of Some _ \<Rightarrow> keychain_view kr w
    | None \<Rightarrow> (keychain_view kr w)(profileKey i c := None))"
proof -
  obtain q v where q: "runKeyringOp (kr_Delete kr (''oidc-token:'' @ profileKey i c) keychainUser) w = (q, v)"
    by (cases "runKeyringOp (kr_Delete kr (''oidc-token:'' @ profileKey i c) keychainUser) w")
  note d = keychain_delete_view [OF assms(1,2) q]
  show ?thesis
  proof (cases q)
    case (Inl e)
    then show ?thesis using assms(3) q d
      by (auto simp: Keychain_Delete_def keychain_service_eq split: if_splits)
  next
    case (Inr t)
    then show ?thesis using assms(3) q d by (auto simp: Keychain_Delete_def keychain_service_eq)
  qed
qed

theorem keychain_persistent_store:
  fixes kr :: "'x keyring"
  assumes "keyring_laws kr" "returns kr"
  shows "persistent_store (Keychain_Load kr) (Keychain_Save kr) (Keychain_Delete kr) (keychain_view kr)"
proof (unfold_locales, goal_cases)
  case (1 i c w x w')
  then show ?case by (rule Keychain_Load_view [OF assms(1)])
next
  case (2 i c w y w')
  then show ?case using Keychain_Load_frame [OF assms(1) 2] by simp
next
  case (3 e w r w' k)
  then show ?case using Keychain_Save_view [OF assms 3(1)] by (cases r) auto
next
  case (4 i c w w')
  then show ?case using Keychain_Delete_view [OF assms 4] by simp
next
  case (5 i c w err w')
  then show ?case using Keychain_Delete_view [OF assms 5] by simp
next
  case (6 e w w')
  then show ?case using Keychain_Save_view [OF assms 6(2)] entry_roundtrip [OF 6(1)] by auto
next
  case (7 e w err w')
  then show ?case using Keychain_Save_view [OF assms 7] by simp
qed

end
