(* ===== verification/Chain.thy ===== *)
theory Chain
  imports CacheSafety Keychain
begin

text \<open>
  internal/cache/chain.go: the store that tries an ordered list of backends, going on to the next
  one only when a backend says it is unavailable. The lemmas show when the chain is as good as its
  first backend, when as its last one, and that logout and locking do not depend on which answered.
\<close>

section \<open>Operations\<close>

text \<open>\<^verbatim>\<open>b.(*Cache)\<close>, the type test of \<^verbatim>\<open>WithLock\<close>, is the constructor of a backend.\<close>

datatype ('w, 'r) backend = FileBackend "('w, 'r) store" | OtherBackend "('w, 'r) store"

fun backend_store :: "('w, 'r) backend \<Rightarrow> ('w, 'r) store" where
  "backend_store (FileBackend s) = s"
| "backend_store (OtherBackend s) = s"

type_synonym 'x logger = "line \<Rightarrow> 'x world \<Rightarrow> 'x world"

record ('x, 'r) chain =
  Backends :: "('x world, 'r) backend list"
  Logger :: "'x logger option"

text \<open>\<^verbatim>\<open>sync.Once\<close>: the first call marks the chain, whether or not there is a logger.\<close>

definition logFallback :: "'x logger option \<Rightarrow> error \<Rightarrow> 'x world \<Rightarrow> 'x world" where
  "logFallback logger err w =
     (if chain_logged w then w
      else (let w' = w\<lparr>chain_logged := True\<rparr> in
        case logger of
          None \<Rightarrow> w'
        | Some l \<Rightarrow> l [T ''cache: OS keychain unavailable ('', W err,
            T ''); falling back to file cache''] w'))"

text \<open>
  The loops of \<^verbatim>\<open>Load\<close> and \<^verbatim>\<open>Save\<close>: \<open>lastErr\<close> is the variable of that name, and
  \<^verbatim>\<open>i < len(c.Backends)-1\<close> says that backends remain.
\<close>

fun chain_load ::
  "'x logger option \<Rightarrow> ('x world, 'r) backend list \<Rightarrow> error option \<Rightarrow> string \<Rightarrow> string \<Rightarrow> 'x world \<Rightarrow>
   (error + entry option) \<times> 'x world" where
  "chain_load lg [] lastErr i c w =
     (case lastErr of None \<Rightarrow> Inr None | Some err \<Rightarrow> Inl err, w)"
| "chain_load lg (b # bs) lastErr i c w =
     (case Load (backend_store b) i c w of
        (Inr e, w') \<Rightarrow> (Inr e, w')
      | (Inl err, w') \<Rightarrow>
          if errors_Is ErrBackendUnavailable err \<and> bs \<noteq> []
          then chain_load lg bs (Some err) i c (logFallback lg err w')
          else (Inl err, w'))"

fun chain_save ::
  "'x logger option \<Rightarrow> ('x world, 'r) backend list \<Rightarrow> error option \<Rightarrow> entry \<Rightarrow> 'x world \<Rightarrow>
   error option \<times> 'x world" where
  "chain_save lg [] lastErr e w = (lastErr, w)"
| "chain_save lg (b # bs) lastErr e w =
     (case Save (backend_store b) e w of
        (None, w') \<Rightarrow> (None, w')
      | (Some err, w') \<Rightarrow>
          if errors_Is ErrBackendUnavailable err \<and> bs \<noteq> []
          then chain_save lg bs (Some err) e (logFallback lg err w')
          else (Some err, w'))"

fun chain_delete ::
  "('x world, 'r) backend list \<Rightarrow> error option \<Rightarrow> string \<Rightarrow> string \<Rightarrow> 'x world \<Rightarrow> error option \<times> 'x world" where
  "chain_delete [] firstErr i c w = (firstErr, w)"
| "chain_delete (b # bs) firstErr i c w =
     (case Delete (backend_store b) i c w of
        (None, w') \<Rightarrow> chain_delete bs firstErr i c w'
      | (Some err, w') \<Rightarrow>
          chain_delete bs
            (if \<not> errors_Is ErrBackendUnavailable err \<and> firstErr = None then Some err else firstErr)
            i c w')"

fun first_file :: "('w, 'r) backend list \<Rightarrow> ('w, 'r) store option" where
  "first_file [] = None"
| "first_file (FileBackend s # bs) = Some s"
| "first_file (OtherBackend s # bs) = first_file bs"

definition Chain_Load ::
  "('x, 'r) chain \<Rightarrow> string \<Rightarrow> string \<Rightarrow> 'x world \<Rightarrow> (error + entry option) \<times> 'x world" where
  "Chain_Load ch i c w = chain_load (Logger ch) (Backends ch) None i c w"

definition Chain_Save :: "('x, 'r) chain \<Rightarrow> entry \<Rightarrow> 'x world \<Rightarrow> error option \<times> 'x world" where
  "Chain_Save ch e w = chain_save (Logger ch) (Backends ch) None e w"

definition Chain_Delete ::
  "('x, 'r) chain \<Rightarrow> string \<Rightarrow> string \<Rightarrow> 'x world \<Rightarrow> error option \<times> 'x world" where
  "Chain_Delete ch i c w = chain_delete (Backends ch) None i c w"

definition Chain_WithLock ::
  "('x, 'r) chain \<Rightarrow> string \<Rightarrow> string \<Rightarrow> ('x world \<Rightarrow> (error + 'r) \<times> 'x world) \<Rightarrow> 'x world \<Rightarrow>
   (error + 'r) \<times> 'x world" where
  "Chain_WithLock ch i c fn w =
     (case first_file (Backends ch) of
        Some fs \<Rightarrow> WithLock fs i c fn w
      | None \<Rightarrow>
          (case Backends ch of
             [] \<Rightarrow> fn w
           | b # _ \<Rightarrow> WithLock (backend_store b) i c fn w))"

definition chain_store :: "('x, 'r) chain \<Rightarrow> ('x world, 'r) store" where
  "chain_store ch = \<lparr>Load = Chain_Load ch, Save = Chain_Save ch, Delete = Chain_Delete ch,
     WithLock = Chain_WithLock ch\<rparr>"

section \<open>Which backend answers\<close>

text \<open>A backend that is out of service: each of its reads and writes says so.\<close>

definition down_load :: "('w, 'r) store \<Rightarrow> bool" where
  "down_load s \<longleftrightarrow> (\<forall>i c w. \<exists>err w'. Load s i c w = (Inl err, w') \<and> errors_Is ErrBackendUnavailable err)"

definition unavailable :: "error option \<Rightarrow> bool" where
  "unavailable r \<longleftrightarrow> (\<exists>err. r = Some err \<and> errors_Is ErrBackendUnavailable err)"

lemma chain_load_first:
  assumes "Load (backend_store b) i c w = (r, w')" "\<And>err. r = Inl err \<Longrightarrow> \<not> errors_Is ErrBackendUnavailable err"
  shows "chain_load lg (b # bs) le i c w = (r, w')"
  using assms by (cases r) auto

lemma chain_load_next:
  assumes "Load (backend_store b) i c w = (Inl err, w')" "errors_Is ErrBackendUnavailable err"
  shows "chain_load lg (b # b' # bs) le i c w = chain_load lg (b' # bs) (Some err) i c (logFallback lg err w')"
  using assms by simp

lemma chain_load_last:
  "chain_load lg [b] le i c w = Load (backend_store b) i c w"
  by (auto split: prod.split sum.split)

text \<open>The remembered error is only returned by a chain without backends.\<close>

lemma chain_load_lastErr: "bs \<noteq> [] \<Longrightarrow> chain_load lg bs le i c w = chain_load lg bs le' i c w"
  by (cases bs) (auto split: prod.split sum.split)

lemma chain_save_first:
  assumes "Save (backend_store b) e w = (r, w')" "\<not> unavailable r"
  shows "chain_save lg (b # bs) le e w = (r, w')"
  using assms by (cases r) (auto simp: unavailable_def)

lemma chain_save_last: "chain_save lg [b] le e w = Save (backend_store b) e w"
  by (auto split: prod.split option.split)

lemma chain_save_lastErr: "bs \<noteq> [] \<Longrightarrow> chain_save lg bs le e w = chain_save lg bs le' e w"
  by (cases bs) (auto split: prod.split option.split)

text \<open>An error of the chain is an error of one of its backends: no error is made up or lost.\<close>

lemma chain_save_ok:
  "chain_save lg bs le e w = (None, w') \<Longrightarrow> bs \<noteq> [] \<Longrightarrow>
   \<exists>b \<in> set bs. \<exists>v. Save (backend_store b) e v = (None, w')"
proof (induction bs arbitrary: le w)
  case (Cons b bs)
  then show ?case by (fastforce split: prod.splits option.splits if_splits)
qed simp

section \<open>The notice is logged once\<close>

lemma logFallback_logged: "chain_logged w \<Longrightarrow> logFallback lg err w = w"
  by (simp add: logFallback_def)

lemma logFallback_marks:
  "(\<And>l v. lg = Some l \<Longrightarrow> chain_logged (l x v) = chain_logged v) \<Longrightarrow> x = [T ''cache: OS keychain unavailable ('', W err,
            T ''); falling back to file cache''] \<Longrightarrow> chain_logged (logFallback lg err w)"
  by (auto simp: logFallback_def Let_def split: option.splits)

text \<open>The program's logger appends to standard error.\<close>

lemma logFallback_frame [simp]:
  "files (logFallback (Some log_line) err w) = files w"
  "outside (logFallback (Some log_line) err w) = outside w"
  "dirs (logFallback (Some log_line) err w) = dirs w"
  "locks (logFallback (Some log_line) err w) = locks w"
  "tick (logFallback (Some log_line) err w) = tick w"
  "chain_logged (logFallback (Some log_line) err w)"
  by (simp_all add: logFallback_def log_line_def)

lemma log_twice:
  "logFallback (Some log_line) e2 (logFallback (Some log_line) e1 w) = logFallback (Some log_line) e1 w"
  by (rule logFallback_logged) simp

section \<open>Deleting\<close>

text \<open>
  Each backend is asked, whatever the others answered: the final world is that of deleting from
  one after the other.
\<close>

fun delete_each :: "('w, 'r) store list \<Rightarrow> string \<Rightarrow> string \<Rightarrow> 'w \<Rightarrow> error list \<times> 'w" where
  "delete_each [] i c w = ([], w)"
| "delete_each (s # ss) i c w =
     (case Delete s i c w of
        (None, w') \<Rightarrow> delete_each ss i c w'
      | (Some err, w') \<Rightarrow> (case delete_each ss i c w' of (errs, w'') \<Rightarrow> (err # errs, w'')))"

lemma chain_delete_each:
  "chain_delete bs fe i c w =
     (case delete_each (map backend_store bs) i c w of
        (errs, w') \<Rightarrow> (case fe of Some e \<Rightarrow> Some e
          | None \<Rightarrow> find (\<lambda>e. \<not> errors_Is ErrBackendUnavailable e) errs, w'))"
proof (induction bs fe i c w rule: chain_delete.induct)
  case (2 b bs fe i c w)
  then show ?case by (cases fe) (auto split: prod.splits option.splits)
qed (auto split: option.splits)

section \<open>Locking\<close>

lemma first_file_append: "first_file (bs @ [FileBackend s]) \<noteq> None"
  by (induction bs rule: first_file.induct) auto

lemma first_file_others:
  "(\<And>b. b \<in> set bs \<Longrightarrow> \<exists>s. b = OtherBackend s) \<Longrightarrow> first_file (bs @ FileBackend s # cs) = Some s"
  by (induction bs rule: first_file.induct) auto

section \<open>The chain as a store\<close>

text \<open>
  Two backends, as \<^verbatim>\<open>--token-store=auto\<close> builds them: while the first one answers, the chain
  keeps the contract with the first one's view; while the first one is out of service, with the
  second one's.
\<close>

definition pair_chain :: "('x world, 'r) store \<Rightarrow> ('x world, 'r) store \<Rightarrow> ('x, 'r) chain" where
  "pair_chain s1 s2 = \<lparr>Backends = [OtherBackend s1, FileBackend s2], Logger = Some log_line\<rparr>"

lemma pair_Load:
  "Chain_Load (pair_chain s1 s2) i c w =
     (case Load s1 i c w of
        (Inl err, w') \<Rightarrow>
          (if errors_Is ErrBackendUnavailable err then Load s2 i c (logFallback (Some log_line) err w')
           else (Inl err, w'))
      | r \<Rightarrow> r)"
  by (auto simp: Chain_Load_def pair_chain_def split: prod.splits sum.splits)

lemma pair_Save:
  "Chain_Save (pair_chain s1 s2) e w =
     (case Save s1 e w of
        (Some err, w') \<Rightarrow>
          (if errors_Is ErrBackendUnavailable err then Save s2 e (logFallback (Some log_line) err w')
           else (Some err, w'))
      | r \<Rightarrow> r)"
  by (auto simp: Chain_Save_def pair_chain_def split: prod.splits option.splits)

lemma pair_Delete:
  "Chain_Delete (pair_chain s1 s2) i c w =
     (case Delete s1 i c w of (r1, w1) \<Rightarrow>
       (case Delete s2 i c w1 of (r2, w2) \<Rightarrow>
          (find (\<lambda>e. \<not> errors_Is ErrBackendUnavailable e)
             ((case r1 of None \<Rightarrow> [] | Some e \<Rightarrow> [e]) @ (case r2 of None \<Rightarrow> [] | Some e \<Rightarrow> [e])), w2)))"
  by (auto simp: Chain_Delete_def pair_chain_def split: prod.splits option.splits)

lemma pair_WithLock: "Chain_WithLock (pair_chain s1 s2) i c fn w = WithLock s2 i c fn w"
  by (simp add: Chain_WithLock_def pair_chain_def)

section \<open>The keychain with the file cache behind it\<close>

definition auto_chain :: "'x keyring \<Rightarrow> os \<Rightarrow> string \<Rightarrow> ('x, 'r) chain" where
  "auto_chain kr os dir = pair_chain (keychain_store kr) (file_store os dir)"

lemmas auto_ops = auto_chain_def pair_Load pair_Save pair_Delete pair_WithLock keychain_store_def file_store_def

lemma file_view_frame: "files w' = files w \<Longrightarrow> file_view dir w' = file_view dir w"
  by (simp add: file_view_def contents_def fun_eq_iff)

lemma keychain_view_frame: "outside w' = outside w \<Longrightarrow> keychain_view kr w' = keychain_view kr w"
  by (simp add: keychain_view_def fun_eq_iff)

text \<open>The operations of each backend leave the other backend's part of the world alone.\<close>

lemma runKeyringOp_files: "runKeyringOp op w = (r, w') \<Longrightarrow> files w' = files w"
  by (auto simp: runKeyringOp_def split: prod.splits selected.splits)

lemma Keychain_files:
  "Keychain_Load kr i c w = (r, w') \<Longrightarrow> files w' = files w"
  "Keychain_Save kr e w = (q, w') \<Longrightarrow> files w' = files w"
  "Keychain_Delete kr i c w = (q, w') \<Longrightarrow> files w' = files w"
  by (auto simp: Keychain_Load_def Keychain_Save_def Keychain_Delete_def dest: runKeyringOp_files
      split: prod.splits sum.splits)

lemma sys_outside:
  "ReadFile os p w = (r1, w') \<Longrightarrow> outside w' = outside w"
  "MkdirAll os p m w = (r2, w') \<Longrightarrow> outside w' = outside w"
  "Chmod os p m w = (r3, w') \<Longrightarrow> outside w' = outside w"
  "CreateTemp os p w = (r4, w') \<Longrightarrow> outside w' = outside w"
  "Write os p b w = (r5, w') \<Longrightarrow> outside w' = outside w"
  "Close os p w = (r6, w') \<Longrightarrow> outside w' = outside w"
  "Rename os p d w = (r7, w') \<Longrightarrow> outside w' = outside w"
  "Remove os p w = (r8, w') \<Longrightarrow> outside w' = outside w"
  by (auto simp: sys_defs advance_def append_bytes_def Let_def
      split: option.splits sum.splits prod.splits if_splits)

lemma Remove_outside: "outside (snd (Remove os p w)) = outside w"
  using sys_outside(8) [of os p w] by (cases "Remove os p w") simp

lemma Close_outside: "outside (snd (Close os p w)) = outside w"
  using sys_outside(6) [of os p w] by (cases "Close os p w") simp

lemma fill_and_rename_outside:
  "fill_and_rename os tmp d b w = (r, w') \<Longrightarrow> outside w' = outside w"
  by (auto simp: fill_and_rename_def try_sys_def Close_outside split: prod.splits sum.splits)
     (metis sys_outside)+

lemma ensureDir_outside: "ensureDir os dir w = (r, w') \<Longrightarrow> outside w' = outside w"
  by (auto simp: ensureDir_def try_sys_def split: prod.splits sum.splits) (metis sys_outside)+

lemma Cache_Load_outside: "Cache_Load os dir i c w = (r, w') \<Longrightarrow> outside w' = outside w"
  by (auto simp: Cache_Load_def dest: sys_outside split: prod.splits sum.splits)

lemma Cache_Delete_outside: "Cache_Delete os dir i c w = (r, w') \<Longrightarrow> outside w' = outside w"
  by (auto simp: Cache_Delete_def dest: sys_outside split: prod.splits sum.splits)

lemma Cache_Save_outside:
  assumes "Cache_Save os dir e w = (r, w')"
  shows "outside w' = outside w"
proof -
  obtain r1 w1 where ed: "ensureDir os dir w = (r1, w1)" by (cases "ensureDir os dir w")
  obtain r2 w2 where ct: "CreateTemp os dir w1 = (r2, w2)" by (cases "CreateTemp os dir w1")
  have o: "outside w1 = outside w" "outside w2 = outside w1"
    using ensureDir_outside [OF ed] sys_outside(4) [OF ct] by auto
  show ?thesis
    using assms ed ct o
    by (auto simp: Cache_Save_def try_sys_def Let_def Remove_outside dest!: fill_and_rename_outside
        split: option.splits sum.splits prod.splits)
qed

section \<open>The default token store\<close>

text \<open>The keychain answers: what was saved through the chain is what is loaded through it.\<close>

definition keychain_up :: "'x keyring \<Rightarrow> bool" where
  "keychain_up kr \<longleftrightarrow> (\<forall>i c e w err.
     (fst (Keychain_Load kr i c w) = Inl err \<longrightarrow> \<not> errors_Is ErrBackendUnavailable err) \<and>
     \<not> unavailable (fst (Keychain_Save kr e w)) \<and> \<not> unavailable (fst (Keychain_Delete kr i c w)))"

definition keychain_down :: "'x keyring \<Rightarrow> bool" where
  "keychain_down kr \<longleftrightarrow> (\<forall>i c e w. (\<exists>b. Marshal_Entry e = Inr b) \<longrightarrow>
     (\<exists>err. fst (Keychain_Load kr i c w) = Inl err \<and> errors_Is ErrBackendUnavailable err) \<and>
     unavailable (fst (Keychain_Save kr e w)) \<and> unavailable (fst (Keychain_Delete kr i c w)))"

lemma auto_up:
  assumes "keychain_up kr"
  shows "Chain_Load (auto_chain kr os dir) i c w = Keychain_Load kr i c w"
    "Chain_Save (auto_chain kr os dir) e w = Keychain_Save kr e w"
proof -
  have "\<And>err w'. Keychain_Load kr i c w = (Inl err, w') \<Longrightarrow> \<not> errors_Is ErrBackendUnavailable err"
    using assms unfolding keychain_up_def by (metis fst_conv)
  then show "Chain_Load (auto_chain kr os dir) i c w = Keychain_Load kr i c w"
    by (auto simp: auto_ops split: prod.splits sum.splits)
  have "\<And>err w'. Keychain_Save kr e w = (Some err, w') \<Longrightarrow> \<not> errors_Is ErrBackendUnavailable err"
    using assms unfolding keychain_up_def unavailable_def by (metis fst_conv)
  then show "Chain_Save (auto_chain kr os dir) e w = Keychain_Save kr e w"
    by (auto simp: auto_ops split: prod.splits option.splits)
qed

lemma auto_down:
  fixes kr :: "'x keyring"
  assumes "keychain_down kr" "Marshal_Entry e = Inr b"
  shows "\<exists>v. files v = files w \<and> chain_logged v \<and>
      Chain_Load (auto_chain kr os dir :: ('x, 'r) chain) i c w = Cache_Load os dir i c v"
    "\<exists>v. files v = files w \<and> chain_logged v \<and> Chain_Save (auto_chain kr os dir :: ('x, 'r) chain) e w = Cache_Save os dir e v"
proof -
  obtain err w1 where l: "Keychain_Load kr i c w = (Inl err, w1)" "errors_Is ErrBackendUnavailable err"
    using assms unfolding keychain_down_def by (metis prod.collapse)
  show "\<exists>v. files v = files w \<and> chain_logged v \<and> Chain_Load (auto_chain kr os dir :: ('x, 'r) chain) i c w = Cache_Load os dir i c v"
    by (rule exI [of _ "logFallback (Some log_line) err w1"])
       (use l Keychain_files(1) [OF l(1)] in \<open>simp add: auto_ops logFallback_logged\<close>)
  obtain err2 w2 where s: "Keychain_Save kr e w = (Some err2, w2)" "errors_Is ErrBackendUnavailable err2"
    using assms unfolding keychain_down_def unavailable_def by (metis prod.collapse)
  show "\<exists>v. files v = files w \<and> chain_logged v \<and> Chain_Save (auto_chain kr os dir :: ('x, 'r) chain) e w = Cache_Save os dir e v"
    by (rule exI [of _ "logFallback (Some log_line) err2 w2"])
       (use s Keychain_files(2) [OF s(1)] in \<open>simp add: auto_ops logFallback_logged\<close>)
qed

text \<open>Logging out clears both places.\<close>

lemma auto_delete:
  assumes "honest os" "keyring_laws kr" "returns kr"
    "Chain_Delete (auto_chain kr os dir) i c w = (None, w')"
  shows "file_view dir w' (profileKey i c) = None"
    "\<not> unavailable (fst (Keychain_Delete kr i c w)) \<Longrightarrow> keychain_view kr w' (profileKey i c) = None"
proof -
  obtain r1 w1 where k: "Keychain_Delete kr i c w = (r1, w1)" by (cases "Keychain_Delete kr i c w")
  obtain r2 w2 where f: "Cache_Delete os dir i c w1 = (r2, w2)" by (cases "Cache_Delete os dir i c w1")
  have fd: "find (\<lambda>e. \<not> errors_Is ErrBackendUnavailable e)
      ((case r1 of None \<Rightarrow> [] | Some e \<Rightarrow> [e]) @ (case r2 of None \<Rightarrow> [] | Some e \<Rightarrow> [e])) = None" "w' = w2"
    using assms(4) k f by (auto simp: auto_ops)
  have r2: "r2 = None"
  proof (cases r2)
    case (Some e)
    then have "\<not> errors_Is ErrBackendUnavailable e"
      using f by (auto simp: Cache_Delete_def Remove_def sys_def split: prod.splits sum.splits option.splits if_splits)
    then show ?thesis using fd Some by (auto simp: find_None_iff)
  qed simp
  show "file_view dir w' (profileKey i c) = None"
    using Cache_Delete_contents [OF assms(1) f] r2 fd(2) by (simp add: file_view_path)
  assume "\<not> unavailable (fst (Keychain_Delete kr i c w))"
  then have "r1 = None" using fd k by (cases r1) (auto simp: unavailable_def find_None_iff)
  then have "keychain_view kr w1 (profileKey i c) = None"
    using Keychain_Delete_view [OF assms(2,3) k] by simp
  then show "keychain_view kr w' (profileKey i c) = None"
    using keychain_view_frame [OF Cache_Delete_outside [OF f]] fd(2) by simp
qed

end
