(* ===== verification/Runner.thy ===== *)
theory Runner
  imports Output Chain
begin

text \<open>
  internal/runner/runner.go: cache hit, else a locked silent refresh, else a login. The runner is a
  function of its store, of its token source and of the clock, over a world of any type.
\<close>

section \<open>Operations\<close>

text \<open>\<^verbatim>\<open>type TokenSource interface\<close>; a context that ends makes an operation return its error.\<close>

record 'w token_source =
  ts_Refresh :: "string \<Rightarrow> 'w \<Rightarrow> (error + result) \<times> 'w"
  ts_Login :: "'w \<Rightarrow> (error + result) \<times> 'w"

text \<open>
  \<open>rn_now\<close> is \<^verbatim>\<open>now()\<close>, the clock of the world; \<open>rn_Issuer\<close>, \<open>rn_ClientID\<close> and
  \<open>rn_TokenType\<close> are the fields of \<^verbatim>\<open>Config\<close> the runner reads.
\<close>

record 'w runner =
  rn_Cache :: "('w, error + result) store"
  rn_Source :: "'w token_source"
  rn_Issuer :: string
  rn_ClientID :: string
  rn_TokenType :: string
  rn_now :: "'w \<Rightarrow> gotime"
  rn_Stderr :: "(line \<Rightarrow> 'w \<Rightarrow> 'w) option"

definition Skew :: int where "Skew = 30 * second"

definition entryValid :: "gotime \<Rightarrow> entry \<Rightarrow> bool" where
  "entryValid now e =
     (if e_AccessToken e = [] \<and> e_IDToken e = [] then False
      else if IsZero (e_Expiry e) then e_RefreshToken e = []
      else Before now (Add (e_Expiry e) (- Skew)))"

definition entryResult :: "entry \<Rightarrow> result" where
  "entryResult e = zero_result\<lparr>r_AccessToken := e_AccessToken e, r_IDToken := e_IDToken e,
     r_RefreshToken := e_RefreshToken e, r_Expiry := e_Expiry e\<rparr>"

definition warn :: "'w runner \<Rightarrow> line \<Rightarrow> 'w \<Rightarrow> 'w" where
  "warn r l w = (case rn_Stderr r of None \<Rightarrow> w | Some f \<Rightarrow> f l w)"

definition checkIDToken :: "'w runner \<Rightarrow> result \<Rightarrow> 'w \<Rightarrow> error option \<times> 'w" where
  "checkIDToken r res w =
     (case r_IDTokenError res of
        None \<Rightarrow> (None, w)
      | Some err \<Rightarrow>
          if rn_TokenType r = TokenTypeIDToken then (Some (wrap2 ErrIDTokenInvalid err), w)
          else (None, warn r [T ''warning: id_token verification failed ('', W err,
            T ''); continuing since --token-type='', S (rn_TokenType r), T '' was requested''] w))"

definition result_entry :: "string \<Rightarrow> string \<Rightarrow> result \<Rightarrow> entry" where
  "result_entry issuer clientID res = \<lparr>e_Issuer = issuer, e_ClientID = clientID,
     e_AccessToken = r_AccessToken res, e_IDToken = r_IDToken res,
     e_RefreshToken = r_RefreshToken res, e_Expiry = r_Expiry res\<rparr>"

definition persist :: "'w runner \<Rightarrow> string \<Rightarrow> string \<Rightarrow> result \<Rightarrow> 'w \<Rightarrow> error option \<times> 'w" where
  "persist r issuer clientID res w = Save (rn_Cache r) (result_entry issuer clientID res) w"

definition no_refresh_token :: error where
  "no_refresh_token = Errorf [W (Sentinel ErrRefreshFailed), T '': no refresh_token available'']"

text \<open>
  The closure of \<^verbatim>\<open>tryRefresh\<close>, first from the choice of the refresh token on. The closure
  always returns \<^verbatim>\<open>nil\<close>; its value is what it leaves in the captured variables: \<open>Inl\<close> of
  \<^verbatim>\<open>outErr\<close> or \<open>Inr\<close> of \<^verbatim>\<open>result\<close>.
\<close>

definition refresh_with ::
  "'w runner \<Rightarrow> string \<Rightarrow> string \<Rightarrow> string \<Rightarrow> 'w \<Rightarrow> (error + result) \<times> 'w" where
  "refresh_with r issuer clientID refreshToken w =
     (if refreshToken = [] then (Inl no_refresh_token, w)
      else (case ts_Refresh (rn_Source r) refreshToken w of
          (Inl err, w1) \<Rightarrow> (Inl (wrap2 ErrRefreshFailed err), w1)
        | (Inr res, w1) \<Rightarrow>
            (case checkIDToken r res w1 of
               (Some err, w2) \<Rightarrow> (Inl err, w2)
             | (None, w2) \<Rightarrow>
                 (let res = (if r_RefreshToken res = [] then res\<lparr>r_RefreshToken := refreshToken\<rparr> else res) in
                  case persist r issuer clientID res w2 of
                    (Some err, w3) \<Rightarrow> (Inl (wrap2 ErrCacheWrite err), w3)
                  | (None, w3) \<Rightarrow> (Inr res, w3)))))"

definition refresh_locked ::
  "'w runner \<Rightarrow> string \<Rightarrow> string \<Rightarrow> entry \<Rightarrow> 'w \<Rightarrow> (error + error + result) \<times> 'w" where
  "refresh_locked r issuer clientID stale w =
     (case Load (rn_Cache r) issuer clientID w of
        (Inr (Some fresh), w1) \<Rightarrow>
          if entryValid (rn_now r w1) fresh then (Inr (Inr (entryResult fresh)), w1)
          else apfst Inr (refresh_with r issuer clientID (e_RefreshToken fresh) w1)
      | (_, w1) \<Rightarrow> apfst Inr (refresh_with r issuer clientID (e_RefreshToken stale) w1))"

definition tryRefresh ::
  "'w runner \<Rightarrow> string \<Rightarrow> string \<Rightarrow> entry \<Rightarrow> 'w \<Rightarrow> (error + result) \<times> 'w" where
  "tryRefresh r issuer clientID stale w =
     (case WithLock (rn_Cache r) issuer clientID (refresh_locked r issuer clientID stale) w of
        (Inl lockErr, w') \<Rightarrow> (Inl lockErr, w')
      | (Inr (Inl outErr), w') \<Rightarrow> (Inl outErr, w')
      | (Inr (Inr res), w') \<Rightarrow> (Inr res, w'))"

definition no_refresh_warning :: line where
  "no_refresh_warning = [T ''warning: issuer did not return a refresh_token; silent refresh will not be possible for this profile'']"

definition login :: "'w runner \<Rightarrow> string \<Rightarrow> string \<Rightarrow> 'w \<Rightarrow> (error + result) \<times> 'w" where
  "login r issuer clientID w =
     (case ts_Login (rn_Source r) w of
        (Inl err, w1) \<Rightarrow> (Inl (wrap2 ErrLoginFailed err), w1)
      | (Inr res, w1) \<Rightarrow>
          (case checkIDToken r res w1 of
             (Some err, w2) \<Rightarrow> (Inl err, w2)
           | (None, w2) \<Rightarrow>
               (let w3 = (if r_RefreshToken res = [] then warn r no_refresh_warning w2 else w2) in
                case persist r issuer clientID res w3 of
                  (Some err, w4) \<Rightarrow> (Inl (wrap2 ErrCacheWrite err), w4)
                | (None, w4) \<Rightarrow> (Inr res, w4))))"

definition Run :: "'w runner \<Rightarrow> 'w \<Rightarrow> (error + result) \<times> 'w" where
  "Run r w =
     (let issuer = rn_Issuer r; clientID = rn_ClientID r in
      case Load (rn_Cache r) issuer clientID w of
        (Inl err, w1) \<Rightarrow> (Inl (wrap2 ErrCacheRead err), w1)
      | (Inr None, w1) \<Rightarrow> login r issuer clientID w1
      | (Inr (Some e), w1) \<Rightarrow>
          if entryValid (rn_now r w1) e then (Inr (entryResult e), w1)
          else if e_RefreshToken e \<noteq> [] then
            (case tryRefresh r issuer clientID e w1 of
               (Inr res, w2) \<Rightarrow> (Inr res, w2)
             | (Inl _, w2) \<Rightarrow> login r issuer clientID w2)
          else login r issuer clientID w1)"

definition Logout :: "'w runner \<Rightarrow> 'w \<Rightarrow> error option \<times> 'w" where
  "Logout r w = Delete (rn_Cache r) (rn_Issuer r) (rn_ClientID r) w"

section \<open>Validity of an entry\<close>

lemma entryValid_expiry:
  "entryValid now e \<Longrightarrow> \<not> IsZero (e_Expiry e) \<Longrightarrow> ns now + Skew < ns (e_Expiry e)"
  by (auto simp: entryValid_def Before_def Add_def split: if_splits)

lemma entryValid_token: "entryValid now e \<Longrightarrow> e_AccessToken e \<noteq> [] \<or> e_IDToken e \<noteq> []"
  by (auto simp: entryValid_def split: if_splits)

lemma entryValid_mono:
  "entryValid now e \<Longrightarrow> ns now' \<le> ns now \<Longrightarrow> entryValid now' e"
  by (auto simp: entryValid_def Before_def Add_def)

lemma entryResult_simps [simp]:
  "r_AccessToken (entryResult e) = e_AccessToken e" "r_IDToken (entryResult e) = e_IDToken e"
  "r_RefreshToken (entryResult e) = e_RefreshToken e" "r_Expiry (entryResult e) = e_Expiry e"
  "r_IDTokenError (entryResult e) = None" "r_IssuedTokenType (entryResult e) = []"
  "r_Extra (entryResult e) = []"
  by (simp_all add: entryResult_def zero_result_def)

lemma result_entry_simps [simp]:
  "e_Issuer (result_entry i c res) = i" "e_ClientID (result_entry i c res) = c"
  "e_AccessToken (result_entry i c res) = r_AccessToken res"
  "e_IDToken (result_entry i c res) = r_IDToken res"
  "e_RefreshToken (result_entry i c res) = r_RefreshToken res"
  "e_Expiry (result_entry i c res) = r_Expiry res"
  by (simp_all add: result_entry_def)

section \<open>Outcomes\<close>

lemma checkIDToken_ok: "checkIDToken r res w = (None, w') \<Longrightarrow> rn_TokenType r = TokenTypeIDToken \<Longrightarrow>
   r_IDTokenError res = None \<and> w' = w"
  by (auto simp: checkIDToken_def split: option.splits)

lemma checkIDToken_err:
  "checkIDToken r res w = (Some err, w') \<Longrightarrow>
   \<exists>e. r_IDTokenError res = Some e \<and> err = wrap2 ErrIDTokenInvalid e \<and> rn_TokenType r = TokenTypeIDToken"
  by (auto simp: checkIDToken_def split: option.splits if_splits)

lemma login_cases:
  assumes "login r i c w = (x, w')"
  obtains (failed) err where "ts_Login (rn_Source r) w = (Inl err, w')" "x = Inl (wrap2 ErrLoginFailed err)"
  | (invalid) err res w1 where "ts_Login (rn_Source r) w = (Inr res, w1)" "checkIDToken r res w1 = (Some err, w')"
      "x = Inl err"
  | (unsaved) err res v w1 w2 where "ts_Login (rn_Source r) w = (Inr res, w1)" "checkIDToken r res w1 = (None, w2)"
      "persist r i c res v = (Some err, w')" "x = Inl (wrap2 ErrCacheWrite err)"
  | (saved) res v w1 w2 where "ts_Login (rn_Source r) w = (Inr res, w1)" "checkIDToken r res w1 = (None, w2)"
      "persist r i c res v = (None, w')" "x = Inr res"
  using assms unfolding login_def Let_def
  by (auto split: prod.splits sum.splits option.splits)

lemma refresh_with_cases:
  assumes "refresh_with r i c t w = (x, w')"
  obtains (err) err where "x = Inl err"
  | (saved) res res' w1 w2 where "t \<noteq> []" "ts_Refresh (rn_Source r) t w = (Inr res, w1)"
      "checkIDToken r res w1 = (None, w2)"
      "res' = (if r_RefreshToken res = [] then res\<lparr>r_RefreshToken := t\<rparr> else res)"
      "persist r i c res' w2 = (None, w')" "x = Inr res'"
  using assms unfolding refresh_with_def Let_def
  by (auto split: prod.splits sum.splits option.splits if_splits)

lemma refresh_locked_cases:
  assumes "refresh_locked r i c e w = (x, w')"
  obtains (concurrent) fresh where "Load (rn_Cache r) i c w = (Inr (Some fresh), w')"
      "entryValid (rn_now r w') fresh" "x = Inr (Inr (entryResult fresh))"
  | (refreshed) t v y where "refresh_with r i c t v = (y, w')" "x = Inr y"
  using assms unfolding refresh_locked_def
  by (auto simp: apfst_def map_prod_def split: prod.splits sum.splits option.splits if_splits)

lemma Run_cases:
  assumes "Run r w = (x, w')"
  obtains (unreadable) err where "Load (rn_Cache r) (rn_Issuer r) (rn_ClientID r) w = (Inl err, w')"
      "x = Inl (wrap2 ErrCacheRead err)"
  | (hit) e where "Load (rn_Cache r) (rn_Issuer r) (rn_ClientID r) w = (Inr (Some e), w')"
      "entryValid (rn_now r w') e" "x = Inr (entryResult e)"
  | (refreshed) e w1 res where "Load (rn_Cache r) (rn_Issuer r) (rn_ClientID r) w = (Inr (Some e), w1)"
      "tryRefresh r (rn_Issuer r) (rn_ClientID r) e w1 = (Inr res, w')" "x = Inr res"
      "e_RefreshToken e \<noteq> []" "\<not> entryValid (rn_now r w1) e"
  | (login) v where "login r (rn_Issuer r) (rn_ClientID r) v = (x, w')"
  using assms unfolding Run_def Let_def
  by (auto split: prod.splits sum.splits option.splits if_splits)

section \<open>What a lock may return\<close>

text \<open>A lock that succeeds has run the closure and returns its value: all backends do.\<close>

definition lock_runs :: "('w, 'r) store \<Rightarrow> bool" where
  "lock_runs s \<longleftrightarrow> (\<forall>i c fn w x w'. WithLock s i c fn w = (Inr x, w') \<longrightarrow> (\<exists>v v'. fn v = (Inr x, v')))"

lemma lock_runsD:
  assumes "lock_runs s" "WithLock s i c fn w = (Inr x, w')"
  obtains v v' where "fn v = (Inr x, v')"
  using assms unfolding lock_runs_def by blast

lemma lock_runs_file [simp]: "lock_runs (file_store os dir)"
  unfolding lock_runs_def file_store_def using Cache_WithLock_run by fastforce

lemma lock_runs_keychain [simp]: "lock_runs (keychain_store kr)"
  unfolding lock_runs_def keychain_store_def Keychain_WithLock_def by auto

lemma lock_runs_noop [simp]: "lock_runs noop_store"
  unfolding lock_runs_def noop_store_def Noop_WithLock_def by auto

lemma first_file_in: "first_file bs = Some s \<Longrightarrow> FileBackend s \<in> set bs"
  by (induction bs rule: first_file.induct) auto

lemma lock_runs_chain:
  assumes "\<And>b. b \<in> set (Backends ch) \<Longrightarrow> lock_runs (backend_store b)"
  shows "lock_runs (chain_store ch)"
  unfolding lock_runs_def
proof (intro allI impI)
  fix i c fn w x w'
  assume "WithLock (chain_store ch) i c fn w = (Inr x, w')"
  then have l: "Chain_WithLock ch i c fn w = (Inr x, w')" by (simp add: chain_store_def)
  consider (f) s where "FileBackend s \<in> set (Backends ch)" "WithLock s i c fn w = (Inr x, w')"
    | (e) "fn w = (Inr x, w')"
    | (b) b where "b \<in> set (Backends ch)" "WithLock (backend_store b) i c fn w = (Inr x, w')"
    using l by (auto simp: Chain_WithLock_def dest: first_file_in split: option.splits list.splits)
  then show "\<exists>v v'. fn v = (Inr x, v')"
  proof cases
    case (f s)
    then have "lock_runs s" using assms by fastforce
    then show ?thesis using f(2) lock_runsD by metis
  next
    case (b b)
    then show ?thesis using assms lock_runsD by metis
  qed blast
qed

lemma lock_runs_auto [simp]: "lock_runs (chain_store (auto_chain kr os dir))"
  by (rule lock_runs_chain) (auto simp: auto_chain_def pair_chain_def)

lemma tryRefresh_cases:
  assumes "tryRefresh r i c stale w = (Inr res, w')" "lock_runs (rn_Cache r)"
  obtains (concurrent) fresh v v1 where "Load (rn_Cache r) i c v = (Inr (Some fresh), v1)"
      "entryValid (rn_now r v1) fresh" "res = entryResult fresh"
  | (refreshed) t r0 v v1 v2 v3 where "t \<noteq> []" "ts_Refresh (rn_Source r) t v = (Inr r0, v1)"
      "checkIDToken r r0 v1 = (None, v2)" "persist r i c res v2 = (None, v3)"
      "res = (if r_RefreshToken r0 = [] then r0\<lparr>r_RefreshToken := t\<rparr> else r0)"
proof -
  have "WithLock (rn_Cache r) i c (refresh_locked r i c stale) w = (Inr (Inr res), w')"
    using assms(1) by (simp add: tryRefresh_def split: prod.splits sum.splits)
  then obtain v v' where "refresh_locked r i c stale v = (Inr (Inr res), v')"
    using lock_runsD [OF assms(2)] by blast
  then show thesis
  proof (cases rule: refresh_locked_cases)
    case (concurrent fresh)
    then show thesis using that(1) by simp
  next
    case (refreshed t u y)
    then have "refresh_with r i c t u = (Inr res, v')" by simp
    then show thesis
    proof (cases rule: refresh_with_cases)
      case (saved r0 res' w1 w2)
      from saved(1-3) show thesis by (rule that(2)) (use saved(4-6) in simp_all)
    qed simp
  qed
qed

end
