(* ===== verification/AuthFlow.thy ===== *)
theory AuthFlow
  imports Grants Runner
begin

text \<open>
  internal/authflow: the environment, the browser, the plan of grants and the token source that
  discovers once and falls back once. The provider is the interface \<^verbatim>\<open>grantSource\<close>: a record of
  operations on an abstract provider \<open>'p\<close>, which the theories of internal/oidc implement.
\<close>

section \<open>Environment and browser\<close>

definition hasDisplay :: "string \<Rightarrow> (string \<Rightarrow> string) \<Rightarrow> bool" where
  "hasDisplay goos getenv =
     (if goos = ''darwin'' \<or> goos = ''windows'' then True
      else getenv ''DISPLAY'' \<noteq> [] \<or> getenv ''WAYLAND_DISPLAY'' \<noteq> [])"

definition DetectEnvironment :: "bool \<Rightarrow> string \<Rightarrow> (string \<Rightarrow> string) \<Rightarrow> environment" where
  "DetectEnvironment isTerminal goos getenv = \<lparr>env_TTY = isTerminal, env_Display = hasDisplay goos getenv\<rparr>"

text \<open>\<^verbatim>\<open>OpenBrowser\<close>; starting a command is a parameter.\<close>

definition browser_command :: "string \<Rightarrow> string \<Rightarrow> string list" where
  "browser_command goos rawURL =
     (if goos = ''darwin'' then [''open'', rawURL]
      else if goos = ''windows'' then [''rundll32'', ''url.dll,FileProtocolHandler'', rawURL]
      else [''xdg-open'', rawURL])"

definition OpenBrowser ::
  "string \<Rightarrow> (string list \<Rightarrow> 'w \<Rightarrow> error option \<times> 'w) \<Rightarrow> string \<Rightarrow> 'w \<Rightarrow> error option \<times> 'w" where
  "OpenBrowser goos start rawURL w =
     (case url_Parse rawURL of
        Inl err \<Rightarrow> (Some (wrap ''authflow: refusing to open browser: invalid URL: '' err), w)
      | Inr u \<Rightarrow>
          if u_Scheme u \<noteq> ''http'' \<and> u_Scheme u \<noteq> ''https'' then
            (Some (Errorf [T ''authflow: refusing to open browser: URL scheme '', S (u_Scheme u), T '' is not http/https'']), w)
          else (case start (browser_command goos rawURL) w of
              (Some err, w') \<Rightarrow> (Some (wrap ''authflow: open browser: '' err), w')
            | (None, w') \<Rightarrow> (None, w')))"

section \<open>The provider interface\<close>

text \<open>A \<^verbatim>\<open>crypto.Signer\<close> and the rest of \<^verbatim>\<open>SetClientAuth\<close>'s arguments.\<close>

record client_auth =
  ca_method :: string
  ca_secret :: string
  ca_signer :: "string option"
  ca_keyID :: string
  ca_alg :: string
  ca_audience :: string

type_synonym 'w opener = "string \<Rightarrow> 'w \<Rightarrow> error option \<times> 'w"
type_synonym 'w prompt = "(line \<Rightarrow> 'w \<Rightarrow> 'w) option"

record ('p, 'w) grant_source =
  SupportsGrant :: "'p \<Rightarrow> string \<Rightarrow> bool"
  SupportsDeviceCode :: "'p \<Rightarrow> bool"
  SetAudience :: "string \<Rightarrow> 'p \<Rightarrow> 'p"
  SetClientAuth :: "client_auth \<Rightarrow> 'p \<Rightarrow> 'p"
  AdvertisedGrants :: "'p \<Rightarrow> string"
  gs_DeviceLogin :: "'p \<Rightarrow> string \<Rightarrow> 'w prompt \<Rightarrow> vals \<Rightarrow> 'w \<Rightarrow> (error + result) \<times> 'w"
  gs_AuthCodeLogin :: "'p \<Rightarrow> string \<Rightarrow> int \<Rightarrow> 'w opener option \<Rightarrow> 'w prompt \<Rightarrow> 'w prompt \<Rightarrow> vals \<Rightarrow> 'w \<Rightarrow> (error + result) \<times> 'w"
  gs_Refresh :: "'p \<Rightarrow> string \<Rightarrow> string \<Rightarrow> 'w \<Rightarrow> (error + result) \<times> 'w"
  gs_TokenExchange :: "'p \<Rightarrow> string \<Rightarrow> string \<Rightarrow> string \<Rightarrow> string \<Rightarrow> string list \<Rightarrow> vals \<Rightarrow> 'w \<Rightarrow> (error + result) \<times> 'w"

text \<open>
  \<^verbatim>\<open>Execute\<close> of the grants, over the same operations: \<^verbatim>\<open>grant.Provider\<close> is \<^verbatim>\<open>grantSource\<close> without the
  setters. Nothing in the program calls it; \<^verbatim>\<open>attempt\<close> below dispatches by wire names instead.
\<close>

record 'w exec_opts =
  eo_Scope :: string
  eo_Prompt :: "'w prompt"
  eo_HintWriter :: "'w prompt"
  eo_OpenBrowser :: "'w opener option"
  eo_ExtraFields :: vals

definition ac_Execute ::
  "auth_code \<Rightarrow> ('p, 'w) grant_source \<Rightarrow> 'p \<Rightarrow> 'w exec_opts \<Rightarrow> 'w \<Rightarrow> (error + result) \<times> 'w" where
  "ac_Execute g gs p opts = gs_AuthCodeLogin gs p (eo_Scope opts) (ac_CallbackPort g) (eo_OpenBrowser opts)
     (eo_Prompt opts) (eo_HintWriter opts) (eo_ExtraFields opts)"

definition dc_Execute :: "('p, 'w) grant_source \<Rightarrow> 'p \<Rightarrow> 'w exec_opts \<Rightarrow> 'w \<Rightarrow> (error + result) \<times> 'w" where
  "dc_Execute gs p opts = gs_DeviceLogin gs p (eo_Scope opts) (eo_Prompt opts) (eo_ExtraFields opts)"

definition te_Execute ::
  "token_exchange \<Rightarrow> ('p, 'w) grant_source \<Rightarrow> 'p \<Rightarrow> 'w exec_opts \<Rightarrow> 'w \<Rightarrow> (error + result) \<times> 'w" where
  "te_Execute g gs p opts = gs_TokenExchange gs p (eo_Scope opts) (te_SubjectToken g) (te_SubjectTokenType g)
     (te_RequestedTokenType g) (te_Resources g) (eo_ExtraFields opts)"

fun Execute ::
  "grant \<Rightarrow> grant_state \<Rightarrow> ('p, 'w) grant_source \<Rightarrow> 'p \<Rightarrow> 'w exec_opts \<Rightarrow> 'w \<Rightarrow> (error + result) \<times> 'w" where
  "Execute AuthCode g = ac_Execute (gr_authcode g)"
| "Execute DeviceCode g = dc_Execute"
| "Execute TokenExchange g = te_Execute (gr_te g)"

section \<open>The plan\<close>

definition grantAuthorizationCode :: string where "grantAuthorizationCode = ''authorization_code''"
definition grantDeviceCodeURN :: string where
  "grantDeviceCodeURN = ''urn:ietf:params:oauth:grant-type:device_code''"

definition maxInteractiveAttempts :: nat where "maxInteractiveAttempts = 2"

definition negotiationDiagnostic :: "('p, 'w) grant_source \<Rightarrow> 'p \<Rightarrow> environment \<Rightarrow> bool \<Rightarrow> part list" where
  "negotiationDiagnostic gs p env nonInteractive =
     (let browserReason = (if \<not> BrowserAvailable env then ''unavailable (no $DISPLAY/$WAYLAND_DISPLAY)'' else ''available'');
          terminalReason = (if nonInteractive then ''unattended (--non-interactive)''
            else if \<not> TerminalAttended env then ''unattended (no TTY)'' else ''attended'')
      in [T ''IdP offers ['', S (AdvertisedGrants gs p), T '']; browser: '', S browserReason,
          T ''; terminal: '', S terminalReason])"

definition unavailable_error :: "part list \<Rightarrow> error" where
  "unavailable_error ps = Errorf (W (Sentinel ErrInteractionUnavailable) # ps)"

definition plan :: "('p, 'w) grant_source \<Rightarrow> 'p \<Rightarrow> string \<Rightarrow> environment \<Rightarrow> bool \<Rightarrow> error + string list" where
  "plan gs p grantType env nonInteractive =
     (let authcodeAdvertised = SupportsGrant gs p grantAuthorizationCode;
          deviceAdvertised = (SupportsDeviceCode gs p \<and> SupportsGrant gs p grantDeviceCodeURN);
          authcodeViable = (authcodeAdvertised \<and> BrowserAvailable env);
          deviceViable = (deviceAdvertised \<and> TerminalAttended env \<and> \<not> nonInteractive);
          diag = negotiationDiagnostic gs p env nonInteractive
      in if grantType = ''authcode'' then
           if \<not> authcodeAdvertised then
             Inl (Errorf [T ''authflow: issuer does not support the authorization_code grant (issuer advertises: '',
               S (AdvertisedGrants gs p), T '')''])
           else if \<not> authcodeViable then
             Inl (unavailable_error (T '': --grant-type=authcode requires a browser; '' # diag))
           else Inr [grantAuthorizationCode]
         else if grantType = ''device-code'' then
           if \<not> deviceAdvertised then
             Inl (Errorf [T ''authflow: issuer does not support the device-code grant (issuer advertises: '',
               S (AdvertisedGrants gs p), T '')''])
           else if \<not> deviceViable then
             Inl (unavailable_error (T '': --grant-type=device-code requires an attended terminal; '' # diag))
           else Inr [grantDeviceCodeURN]
         else if grantType = ''auto'' \<or> grantType = [] then
           if \<not> authcodeAdvertised \<and> \<not> deviceAdvertised then
             Inl (Errorf [T ''authflow: issuer advertises neither authorization_code nor device-code as usable grants (issuer advertises: '',
               S (AdvertisedGrants gs p), T '')''])
           else (let order = (if authcodeViable then [grantAuthorizationCode] else []) @
                     (if deviceViable then [grantDeviceCodeURN] else [])
                 in if order = [] then Inl (unavailable_error (T '': '' # diag)) else Inr order)
         else Inl (Errorf [T ''authflow: unknown grant type '', S grantType]))"

definition isPerClientRejection :: "error \<Rightarrow> bool" where
  "isPerClientRejection err =
     (case as_RetrieveError err of
        Some (RetrieveError code _ _) \<Rightarrow> code = ''unauthorized_client''
      | _ \<Rightarrow>
          (case as_AuthorizationError err of
             Some (AuthorizationError code _) \<Rightarrow> code = ''unauthorized_client'' \<or> code = ''invalid_grant''
           | _ \<Rightarrow> False))"

section \<open>The source\<close>

text \<open>
  \<^verbatim>\<open>Source\<close>, without the token-exchange fields nothing reads. Its field \<^verbatim>\<open>provider\<close> is a slot of
  the world: \<open>s_provider\<close> reads it, \<open>s_store\<close> fills it. \<open>s_discover\<close> is \<^verbatim>\<open>discoverFunc\<close>.
\<close>

record ('p, 'w) source =
  s_Issuer :: string
  s_ClientID :: string
  s_Scope :: string
  s_Audience :: string
  s_GrantType :: string
  s_CallbackPort :: int
  s_NonInteractive :: bool
  s_Env :: environment
  s_OpenBrowser :: "'w opener option"
  s_Prompt :: "'w prompt"
  s_ExtraFields :: vals
  s_ClientAuth :: client_auth
  s_provider :: "'w \<Rightarrow> 'p option"
  s_store :: "'p \<Rightarrow> 'w \<Rightarrow> 'w"
  s_discover :: "string \<Rightarrow> string \<Rightarrow> 'w \<Rightarrow> (error + 'p) \<times> 'w"
  s_ops :: "('p, 'w) grant_source"

definition discover :: "('p, 'w) source \<Rightarrow> 'w \<Rightarrow> (error + 'p) \<times> 'w" where
  "discover s w =
     (case s_provider s w of
        Some p \<Rightarrow> (Inr p, w)
      | None \<Rightarrow>
          (case s_discover s (s_Issuer s) (s_ClientID s) w of
             (Inl err, w1) \<Rightarrow> (Inl err, w1)
           | (Inr p0, w1) \<Rightarrow>
               (let p = SetClientAuth (s_ops s) (s_ClientAuth s) (SetAudience (s_ops s) (s_Audience s) p0)
                in (Inr p, s_store s p w1))))"

definition Source_Refresh :: "('p, 'w) source \<Rightarrow> string \<Rightarrow> 'w \<Rightarrow> (error + result) \<times> 'w" where
  "Source_Refresh s refreshToken w =
     (case discover s w of
        (Inl err, w1) \<Rightarrow> (Inl err, w1)
      | (Inr p, w1) \<Rightarrow> gs_Refresh (s_ops s) p (s_Scope s) refreshToken w1)"

definition Source_TokenExchange ::
  "('p, 'w) source \<Rightarrow> string \<Rightarrow> string \<Rightarrow> string \<Rightarrow> string list \<Rightarrow> 'w \<Rightarrow> (error + result) \<times> 'w" where
  "Source_TokenExchange s subjectToken subjectTokenType requestedTokenType resources w =
     (case discover s w of
        (Inl err, w1) \<Rightarrow> (Inl err, w1)
      | (Inr p, w1) \<Rightarrow> gs_TokenExchange (s_ops s) p (s_Scope s) subjectToken subjectTokenType requestedTokenType
          resources (s_ExtraFields s) w1)"

definition hintWriter :: "('p, 'w) source \<Rightarrow> 'w prompt" where
  "hintWriter s = (if \<not> TerminalAttended (s_Env s) then None else s_Prompt s)"

definition attempt :: "('p, 'w) source \<Rightarrow> 'p \<Rightarrow> string \<Rightarrow> 'w \<Rightarrow> (error + result) \<times> 'w" where
  "attempt s p grant w =
     (if grant = grantDeviceCodeURN then
        gs_DeviceLogin (s_ops s) p (s_Scope s) (s_Prompt s) (s_ExtraFields s) w
      else if grant = grantAuthorizationCode then
        gs_AuthCodeLogin (s_ops s) p (s_Scope s) (s_CallbackPort s) (s_OpenBrowser s) (s_Prompt s) (hintWriter s)
          (s_ExtraFields s) w
      else (Inl (Errorf [T ''authflow: unknown grant '', S grant]), w))"

definition warn_fallback :: "('p, 'w) source \<Rightarrow> string \<Rightarrow> error \<Rightarrow> 'w \<Rightarrow> 'w" where
  "warn_fallback s grant err w =
     (case s_Prompt s of
        None \<Rightarrow> w
      | Some out \<Rightarrow> out [T ''warning: '', S grant, T '' grant rejected ('', W err,
          T ''); falling back to the other advertised grant''] w)"

text \<open>The loop; with nothing to try Go returns the zero result and the last error, here none.\<close>

fun attempts :: "('p, 'w) source \<Rightarrow> 'p \<Rightarrow> string list \<Rightarrow> 'w \<Rightarrow> (error + result) \<times> 'w" where
  "attempts s p [] w = (Inr zero_result, w)"
| "attempts s p (g # order) w =
     (case attempt s p g w of
        (Inr res, w1) \<Rightarrow> (Inr res, w1)
      | (Inl err, w1) \<Rightarrow>
          if order = [] \<or> \<not> isPerClientRejection err then (Inl err, w1)
          else attempts s p order (warn_fallback s g err w1))"

definition Login :: "('p, 'w) source \<Rightarrow> 'w \<Rightarrow> (error + result) \<times> 'w" where
  "Login s w =
     (case discover s w of
        (Inl err, w1) \<Rightarrow> (Inl err, w1)
      | (Inr p, w1) \<Rightarrow>
          (case plan (s_ops s) p (s_GrantType s) (s_Env s) (s_NonInteractive s) of
             Inl err \<Rightarrow> (Inl err, w1)
           | Inr order \<Rightarrow> attempts s p (take maxInteractiveAttempts order) w1))"

definition token_source_of :: "('p, 'w) source \<Rightarrow> 'w token_source" where
  "token_source_of s = \<lparr>ts_Refresh = Source_Refresh s, ts_Login = Login s\<rparr>"

end
