(* ===== verification/Provider.thy ===== *)
theory Provider
  imports AuthFlow
begin

text \<open>
  internal/oidc, discovery.go and clientauth.go: the provider, its discovery, its capabilities and the
  authentication of the client. The libraries x/oauth2, go-oidc and go-jose, the clock, the random
  source, the listener and the HTTP client are the fields of the record \<open>net\<close>, an argument of the
  definitions.
\<close>

section \<open>Data of the libraries\<close>

datatype auth_style = AuthStyleAutoDetect | AuthStyleInParams | AuthStyleInHeader

record endpoint =
  ep_AuthURL :: string
  ep_DeviceAuthURL :: string
  ep_TokenURL :: string
  ep_AuthStyle :: auth_style

text \<open>\<^verbatim>\<open>oauth2.Config\<close>, \<^verbatim>\<open>oauth2.Token\<close> and \<^verbatim>\<open>oauth2.DeviceAuthResponse\<close>.\<close>

record oauth2_config =
  oc_ClientID :: string
  oc_ClientSecret :: string
  oc_Endpoint :: endpoint
  oc_RedirectURL :: string
  oc_Scopes :: "string list"

record token =
  tk_AccessToken :: string
  tk_TokenType :: string
  tk_RefreshToken :: string
  tk_Expiry :: gotime
  tk_Extra :: "string \<Rightarrow> json option"

record device_auth =
  da_DeviceCode :: string
  da_UserCode :: string
  da_VerificationURI :: string
  da_VerificationURIComplete :: string
  da_Expiry :: gotime
  da_Interval :: int

text \<open>\<^verbatim>\<open>jwt.Claims\<close> of a client assertion.\<close>

record jwt_claims =
  jwt_Issuer :: string
  jwt_Subject :: string
  jwt_Audience :: "string list"
  jwt_Expiry :: gotime
  jwt_IssuedAt :: gotime
  jwt_ID :: string

text \<open>A discovered issuer of go-oidc: the endpoints it read and the document itself.\<close>

record upstream =
  up_Endpoint :: endpoint
  up_rawClaims :: string

type_synonym opts = "(string \<times> string) list"

text \<open>
  \<open>nt_hasDeadline\<close>: whether the caller's context has one; an \<open>int option\<close> below is the timeout
  added to it. \<open>nt_Listen\<close> returns the bound port, or no port for an address of another type.
  \<open>nt_wait\<close> serves the listener and returns the raw queries of the requests for
  \<^verbatim>\<open>/callback\<close> that were handled while \<^verbatim>\<open>awaitCallback\<close> waited, in order.
\<close>

record 'w net =
  nt_http :: "'w http_client"
  nt_now :: "'w \<Rightarrow> gotime"
  nt_rand :: "nat \<Rightarrow> 'w \<Rightarrow> (error + string) \<times> 'w"
  nt_NewProvider :: "string \<Rightarrow> 'w \<Rightarrow> (error + upstream) \<times> 'w"
  nt_Verify :: "upstream \<Rightarrow> string \<Rightarrow> string \<Rightarrow> 'w \<Rightarrow> (error + string) \<times> 'w"
  nt_NewSigner :: "string \<Rightarrow> string option \<Rightarrow> string \<Rightarrow> error option"
  nt_Serialize :: "string \<Rightarrow> string option \<Rightarrow> string \<Rightarrow> jwt_claims \<Rightarrow> error + string"
  nt_Token :: "oauth2_config \<Rightarrow> string \<Rightarrow> 'w \<Rightarrow> (error + token) \<times> 'w"
  nt_GenerateVerifier :: "'w \<Rightarrow> string \<times> 'w"
  nt_S256Challenge :: "string \<Rightarrow> string"
  nt_AuthCodeURL :: "oauth2_config \<Rightarrow> string \<Rightarrow> opts \<Rightarrow> string"
  nt_Exchange :: "oauth2_config \<Rightarrow> string \<Rightarrow> opts \<Rightarrow> 'w \<Rightarrow> (error + token) \<times> 'w"
  nt_DeviceAuth :: "oauth2_config \<Rightarrow> opts \<Rightarrow> 'w \<Rightarrow> (error + device_auth) \<times> 'w"
  nt_DeviceAccessToken :: "oauth2_config \<Rightarrow> int option \<Rightarrow> device_auth \<Rightarrow> opts \<Rightarrow> 'w \<Rightarrow> (error + token) \<times> 'w"
  nt_hasDeadline :: bool
  nt_Listen :: "int \<Rightarrow> 'w \<Rightarrow> (error + nat option) \<times> 'w"
  nt_Close :: "'w \<Rightarrow> 'w"
  nt_wait :: "int option \<Rightarrow> nat \<Rightarrow> 'w \<Rightarrow> string list \<times> 'w"

section \<open>Provider\<close>

record discovery_claims =
  dc_DeviceAuthorizationEndpoint :: string
  dc_GrantTypesSupported :: "string list"
  dc_ScopesSupported :: "string list"
  dc_CodeChallengeMethodsSupported :: "string list"

record provider =
  p_Issuer :: string
  p_ClientID :: string
  p_Audience :: string
  p_upstream :: upstream
  p_claims :: discovery_claims
  p_clientAuth :: client_auth

definition no_claims :: discovery_claims where
  "no_claims = \<lparr>dc_DeviceAuthorizationEndpoint = [], dc_GrantTypesSupported = [], dc_ScopesSupported = [],
     dc_CodeChallengeMethodsSupported = []\<rparr>"

definition no_client_auth :: client_auth where
  "no_client_auth = \<lparr>ca_method = [], ca_secret = [], ca_signer = None, ca_keyID = [], ca_alg = [], ca_audience = []\<rparr>"

text \<open>Decoding \<^verbatim>\<open>discoveryClaims\<close>: a null leaves a field (an element) as it is, a wrong type is an error.\<close>

fun string_elems :: "json list \<Rightarrow> string list option" where
  "string_elems [] = Some []"
| "string_elems (JStr s # vs) = map_option ((#) s) (string_elems vs)"
| "string_elems (JNull # vs) = map_option ((#) []) (string_elems vs)"
| "string_elems (_ # vs) = None"

definition claims_fields :: "string list" where
  "claims_fields = [''device_authorization_endpoint'', ''grant_types_supported'', ''scopes_supported'',
     ''code_challenge_methods_supported'']"

definition set_claims_field :: "string \<Rightarrow> json \<Rightarrow> discovery_claims \<Rightarrow> discovery_claims option" where
  "set_claims_field k v c =
     (case struct_field claims_fields k of
        None \<Rightarrow> Some c
      | Some f \<Rightarrow>
          if v = JNull then
            (if f = ''device_authorization_endpoint'' then Some c
             else if f = ''grant_types_supported'' then Some (c\<lparr>dc_GrantTypesSupported := []\<rparr>)
             else if f = ''scopes_supported'' then Some (c\<lparr>dc_ScopesSupported := []\<rparr>)
             else Some (c\<lparr>dc_CodeChallengeMethodsSupported := []\<rparr>))
          else if f = ''device_authorization_endpoint'' then
            (case v of JStr s \<Rightarrow> Some (c\<lparr>dc_DeviceAuthorizationEndpoint := s\<rparr>) | _ \<Rightarrow> None)
          else (case v of
              JArr vs \<Rightarrow>
                map_option (\<lambda>xs.
                  if f = ''grant_types_supported'' then c\<lparr>dc_GrantTypesSupported := xs\<rparr>
                  else if f = ''scopes_supported'' then c\<lparr>dc_ScopesSupported := xs\<rparr>
                  else c\<lparr>dc_CodeChallengeMethodsSupported := xs\<rparr>) (string_elems vs)
            | _ \<Rightarrow> None))"

fun set_claims_fields :: "(string \<times> json) list \<Rightarrow> discovery_claims \<Rightarrow> discovery_claims option" where
  "set_claims_fields [] c = Some c"
| "set_claims_fields ((k, v) # ms) c =
     (case set_claims_field k v c of None \<Rightarrow> None | Some c' \<Rightarrow> set_claims_fields ms c')"

definition Unmarshal_discoveryClaims :: "string \<Rightarrow> discovery_claims option" where
  "Unmarshal_discoveryClaims b =
     (case json_parse b of
        Some JNull \<Rightarrow> Some no_claims
      | Some (JObj ms) \<Rightarrow> set_claims_fields ms no_claims
      | _ \<Rightarrow> None)"

definition validateIssuerURL :: "string \<Rightarrow> error option" where
  "validateIssuerURL raw =
     (case url_Parse raw of
        Inl err \<Rightarrow> Some (Errorf [T ''oidc: invalid issuer URL '', S raw, T '': '', W err])
      | Inr u \<Rightarrow>
          if u_Scheme u = ''https'' then None
          else if u_Scheme u = ''http'' then
            if Hostname u = ''127.0.0.1'' \<or> Hostname u = ''::1'' then None
            else Some (Errorf [T ''oidc: issuer '', S raw,
              T '' must use https:// (http:// is only permitted for loopback 127.0.0.1/[::1] test issuers)''])
          else Some (Errorf [T ''oidc: issuer '', S raw, T '' must use https:// (unsupported scheme '', S (u_Scheme u), T '')'']))"

definition Discover :: "'w net \<Rightarrow> string \<Rightarrow> string \<Rightarrow> 'w \<Rightarrow> (error + provider) \<times> 'w" where
  "Discover nt issuer clientID w =
     (case validateIssuerURL issuer of
        Some err \<Rightarrow> (Inl err, w)
      | None \<Rightarrow>
          (case nt_NewProvider nt issuer w of
             (Inl err, w1) \<Rightarrow> (Inl (Errorf [T ''oidc: discovery failed for issuer '', S issuer, T '': '', W err]), w1)
           | (Inr up, w1) \<Rightarrow>
               (case Unmarshal_discoveryClaims (up_rawClaims up) of
                  None \<Rightarrow> (Inl (Errorf [T ''oidc: parse discovery document for issuer '', S issuer, T '': '',
                    W (External ''json'')]), w1)
                | Some claims \<Rightarrow>
                    (Inr \<lparr>p_Issuer = issuer, p_ClientID = clientID, p_Audience = [], p_upstream = up,
                       p_claims = claims, p_clientAuth = no_client_auth\<rparr>, w1))))"

definition Provider_SetAudience :: "string \<Rightarrow> provider \<Rightarrow> provider" where
  "Provider_SetAudience audience p = p\<lparr>p_Audience := audience\<rparr>"

definition Provider_SupportsDeviceCode :: "provider \<Rightarrow> bool" where
  "Provider_SupportsDeviceCode p \<longleftrightarrow> dc_DeviceAuthorizationEndpoint (p_claims p) \<noteq> []"

definition Provider_SupportsGrant :: "provider \<Rightarrow> string \<Rightarrow> bool" where
  "Provider_SupportsGrant p grant \<longleftrightarrow>
     (if length (dc_GrantTypesSupported (p_claims p)) = 0 then True
      else grant \<in> set (dc_GrantTypesSupported (p_claims p)))"

definition Provider_AdvertisedGrants :: "provider \<Rightarrow> string" where
  "Provider_AdvertisedGrants p =
     (if length (dc_GrantTypesSupported (p_claims p)) > 0 then
        string_Join (dc_GrantTypesSupported (p_claims p)) '', ''
      else string_Join (''authorization_code'' #
        (if dc_DeviceAuthorizationEndpoint (p_claims p) \<noteq> []
         then [''urn:ietf:params:oauth:grant-type:device_code''] else [])) '', '')"

definition codeChallengeMethod :: "provider \<Rightarrow> error + string" where
  "codeChallengeMethod p =
     (if length (dc_CodeChallengeMethodsSupported (p_claims p)) = 0 then Inr ''S256''
      else if ''S256'' \<in> set (dc_CodeChallengeMethodsSupported (p_claims p)) then Inr ''S256''
      else Inl (Errorf [T ''oidc: issuer '', S (p_Issuer p),
        T '' advertises code_challenge_methods_supported without S256; refusing to downgrade to plain'']))"

text \<open>\<^verbatim>\<open>strings.Fields\<close>: the white space of Unicode, by its UTF-8 bytes.\<close>

definition wide_spaces :: "string list" where
  "wide_spaces = map (map char_of)
     ([[0xC2, 0x85], [0xC2, 0xA0], [0xE1, 0x9A, 0x80], [0xE2, 0x80, 0xA8], [0xE2, 0x80, 0xA9], [0xE2, 0x80, 0xAF],
       [0xE2, 0x81, 0x9F], [0xE3, 0x80, 0x80 :: nat]] @ map (\<lambda>n. [0xE2, 0x80, n]) [0x80..<0x8B])"

definition space_len :: "string \<Rightarrow> nat" where
  "space_len s =
     (if s \<noteq> [] \<and> (byte (hd s) = 32 \<or> 9 \<le> byte (hd s) \<and> byte (hd s) \<le> 13) then 1
      else (case find (\<lambda>x. prefix_of x s) wide_spaces of None \<Rightarrow> 0 | Some x \<Rightarrow> length x))"

fun fields_from :: "nat \<Rightarrow> string \<Rightarrow> string \<Rightarrow> string list" where
  "fields_from k cur [] = (if cur = [] then [] else [cur])"
| "fields_from (Suc k) cur (c # s) = fields_from k cur s"
| "fields_from 0 cur (c # s) =
     (case space_len (c # s) of
        0 \<Rightarrow> fields_from 0 (cur @ [c]) s
      | Suc k \<Rightarrow> (if cur = [] then [] else [cur]) @ fields_from k [] s)"

definition Fields :: "string \<Rightarrow> string list" where
  "Fields s = fields_from 0 [] s"

section \<open>Client authentication\<close>

definition clientAssertionType :: string where
  "clientAssertionType = ''urn:ietf:params:oauth:client-assertion-type:jwt-bearer''"

definition clientAssertionLifetime :: int where "clientAssertionLifetime = 5 * 60 * second"

definition Provider_SetClientAuth :: "client_auth \<Rightarrow> provider \<Rightarrow> provider" where
  "Provider_SetClientAuth ca p = p\<lparr>p_clientAuth := ca\<rparr>"

definition applyClientAuth :: "provider \<Rightarrow> oauth2_config \<Rightarrow> oauth2_config" where
  "applyClientAuth p cfg =
     (if ca_method (p_clientAuth p) = ''client_secret_basic'' then
        cfg\<lparr>oc_ClientSecret := ca_secret (p_clientAuth p),
          oc_Endpoint := (oc_Endpoint cfg)\<lparr>ep_AuthStyle := AuthStyleInHeader\<rparr>\<rparr>
      else if ca_method (p_clientAuth p) = ''client_secret_post'' then
        cfg\<lparr>oc_ClientSecret := ca_secret (p_clientAuth p),
          oc_Endpoint := (oc_Endpoint cfg)\<lparr>ep_AuthStyle := AuthStyleInParams\<rparr>\<rparr>
      else cfg)"

definition oauth2Config :: "provider \<Rightarrow> string \<Rightarrow> oauth2_config" where
  "oauth2Config p scope =
     applyClientAuth p \<lparr>oc_ClientID = p_ClientID p, oc_ClientSecret = [],
       oc_Endpoint = (up_Endpoint (p_upstream p))\<lparr>ep_DeviceAuthURL := dc_DeviceAuthorizationEndpoint (p_claims p)\<rparr>,
       oc_RedirectURL = [], oc_Scopes = Fields scope\<rparr>"

definition tokenEndpoint :: "provider \<Rightarrow> string" where
  "tokenEndpoint p = ep_TokenURL (up_Endpoint (p_upstream p))"

text \<open>\<^verbatim>\<open>encoding/base64\<close>: an alphabet, and the padding character or none.\<close>

definition b64_std :: "nat \<Rightarrow> char" where
  "b64_std n = (if n < 26 then char_of (65 + n) else if n < 52 then char_of (71 + n)
     else if n < 62 then char_of (n - 4) else if n = 62 then CHR ''+'' else CHR ''/'')"

definition b64_url :: "nat \<Rightarrow> char" where
  "b64_url n = (if n = 62 then CHR ''-'' else if n = 63 then CHR ''_'' else b64_std n)"

fun b64 :: "(nat \<Rightarrow> char) \<Rightarrow> string \<Rightarrow> string \<Rightarrow> string" where
  "b64 al eqs (a # b # c # s) =
     [al (byte a div 4), al (byte a mod 4 * 16 + byte b div 16), al (byte b mod 16 * 4 + byte c div 64), al (byte c mod 64)] @
     b64 al eqs s"
| "b64 al eqs [a, b] = [al (byte a div 4), al (byte a mod 4 * 16 + byte b div 16), al (byte b mod 16 * 4)] @ eqs"
| "b64 al eqs [a] = [al (byte a div 4), al (byte a mod 4 * 16)] @ eqs @ eqs"
| "b64 al eqs [] = []"

definition randomState :: "'w net \<Rightarrow> 'w \<Rightarrow> (error + string) \<times> 'w" where
  "randomState nt w =
     (case nt_rand nt 24 w of
        (Inl err, w1) \<Rightarrow> (Inl err, w1)
      | (Inr b, w1) \<Rightarrow> (Inr (b64 b64_url [] b), w1))"

definition signClientAssertion :: "'w net \<Rightarrow> provider \<Rightarrow> int \<Rightarrow> 'w \<Rightarrow> (error + string) \<times> 'w" where
  "signClientAssertion nt p lifetime w =
     (let ca = p_clientAuth p; aud = (if ca_audience ca = [] then tokenEndpoint p else ca_audience ca) in
      case randomState nt w of
        (Inl err, w1) \<Rightarrow> (Inl (wrap ''oidc: generate client assertion jti: '' err), w1)
      | (Inr jti, w1) \<Rightarrow>
          (case nt_NewSigner nt (ca_alg ca) (ca_signer ca) (ca_keyID ca) of
             Some err \<Rightarrow> (Inl (wrap ''oidc: create client assertion signer: '' err), w1)
           | None \<Rightarrow>
               (let claims = \<lparr>jwt_Issuer = p_ClientID p, jwt_Subject = p_ClientID p, jwt_Audience = [aud],
                      jwt_Expiry = Add (nt_now nt w1) lifetime, jwt_IssuedAt = nt_now nt w1, jwt_ID = jti\<rparr>
                in case nt_Serialize nt (ca_alg ca) (ca_signer ca) (ca_keyID ca) claims of
                     Inl err \<Rightarrow> (Inl (wrap ''oidc: sign client assertion: '' err), w1)
                   | Inr assertion \<Rightarrow> (Inr assertion, w1))))"

definition clientAssertionOptions :: "'w net \<Rightarrow> provider \<Rightarrow> int \<Rightarrow> 'w \<Rightarrow> (error + opts) \<times> 'w" where
  "clientAssertionOptions nt p lifetime w =
     (if ca_method (p_clientAuth p) \<noteq> ''private_key_jwt'' then (Inr [], w)
      else (case signClientAssertion nt p lifetime w of
          (Inl err, w1) \<Rightarrow> (Inl err, w1)
        | (Inr assertion, w1) \<Rightarrow>
            (Inr [(''client_assertion_type'', clientAssertionType), (''client_assertion'', assertion)], w1)))"

end
