(* ===== verification/TokenEndpoint.thy ===== *)
theory TokenEndpoint
  imports Provider
begin

text \<open>
  internal/oidc, token.go, refresh.go and tokenexchange.go: the conversion of a token response, the
  refresh, the hand-written request to the token endpoint and the token exchange.
\<close>

section \<open>Results\<close>

definition json_string :: "json option \<Rightarrow> string option" where
  "json_string v = (case v of Some (JStr s) \<Rightarrow> Some s | _ \<Rightarrow> None)"

text \<open>
  What is taken over as it is: the tokens, the expiry, \<^verbatim>\<open>issued_token_type\<close> and the extension
  members. Then the \<^verbatim>\<open>id_token\<close>, which is verified; what is wrong with it is recorded, and it is
  left out.
\<close>

definition base_result :: "token \<Rightarrow> result" where
  "base_result tok =
     (let res = zero_result\<lparr>r_AccessToken := tk_AccessToken tok, r_RefreshToken := tk_RefreshToken tok,
            r_Expiry := tk_Expiry tok\<rparr>;
          res = (case json_string (tk_Extra tok ''issued_token_type'') of
              Some s \<Rightarrow> res\<lparr>r_IssuedTokenType := s\<rparr> | None \<Rightarrow> res)
      in case tk_Extra tok ''_extensions'' of
           Some (JObj ext) \<Rightarrow> if length ext > 0 then res\<lparr>r_Extra := ext\<rparr> else res | _ \<Rightarrow> res)"

definition toResult :: "'w net \<Rightarrow> provider \<Rightarrow> token \<Rightarrow> string \<Rightarrow> 'w \<Rightarrow> (error + result) \<times> 'w" where
  "toResult nt p tok expectedNonce w =
     (case json_string (tk_Extra tok ''id_token'') of
        None \<Rightarrow> (Inr (base_result tok), w)
      | Some raw \<Rightarrow>
          if raw = [] then (Inr (base_result tok), w)
          else (case nt_Verify nt (p_upstream p) (p_ClientID p) raw w of
              (Inl err, w1) \<Rightarrow>
                (Inr ((base_result tok)\<lparr>r_IDTokenError := Some (wrap ''oidc: id_token verification failed: '' err)\<rparr>), w1)
            | (Inr nonce, w1) \<Rightarrow>
                if expectedNonce \<noteq> [] \<and> nonce \<noteq> expectedNonce then
                  (Inr ((base_result tok)\<lparr>r_IDTokenError :=
                     Some (errorf ''oidc: id_token nonce mismatch (possible replay/substitution)'')\<rparr>), w1)
                else (Inr ((base_result tok)\<lparr>r_IDToken := raw\<rparr>), w1)))"

lemma base_result_simps [simp]:
  "r_AccessToken (base_result tok) = tk_AccessToken tok" "r_RefreshToken (base_result tok) = tk_RefreshToken tok"
  "r_Expiry (base_result tok) = tk_Expiry tok" "r_IDToken (base_result tok) = []"
  "r_IDTokenError (base_result tok) = None"
  by (auto simp: base_result_def zero_result_def Let_def split: option.split json.split)

section \<open>The token endpoint\<close>

record tokenResponse =
  tr_AccessToken :: string
  tr_TokenType :: string
  tr_RefreshToken :: string
  tr_ExpiresIn :: int
  tr_IDToken :: string
  tr_IssuedTokenType :: string
  tr_Error :: string
  tr_ErrorDescription :: string
  tr_ErrorURI :: string

definition zero_response :: tokenResponse where
  "zero_response = \<lparr>tr_AccessToken = [], tr_TokenType = [], tr_RefreshToken = [], tr_ExpiresIn = 0, tr_IDToken = [],
     tr_IssuedTokenType = [], tr_Error = [], tr_ErrorDescription = [], tr_ErrorURI = []\<rparr>"

definition response_fields :: "string list" where
  "response_fields = [''access_token'', ''token_type'', ''refresh_token'', ''expires_in'', ''id_token'',
     ''issued_token_type'', ''error'', ''error_description'', ''error_uri'']"

text \<open>An int64 field takes only a literal without fraction and exponent, within its range.\<close>

definition json_int64 :: "string \<Rightarrow> int option" where
  "json_int64 lit = signed decimal lit"

definition set_response_string :: "string \<Rightarrow> string \<Rightarrow> tokenResponse \<Rightarrow> tokenResponse option" where
  "set_response_string f s r =
     (if f = ''access_token'' then Some (r\<lparr>tr_AccessToken := s\<rparr>)
      else if f = ''token_type'' then Some (r\<lparr>tr_TokenType := s\<rparr>)
      else if f = ''refresh_token'' then Some (r\<lparr>tr_RefreshToken := s\<rparr>)
      else if f = ''id_token'' then Some (r\<lparr>tr_IDToken := s\<rparr>)
      else if f = ''issued_token_type'' then Some (r\<lparr>tr_IssuedTokenType := s\<rparr>)
      else if f = ''error'' then Some (r\<lparr>tr_Error := s\<rparr>)
      else if f = ''error_description'' then Some (r\<lparr>tr_ErrorDescription := s\<rparr>)
      else if f = ''error_uri'' then Some (r\<lparr>tr_ErrorURI := s\<rparr>)
      else None)"

definition set_response_field :: "string \<Rightarrow> json \<Rightarrow> tokenResponse \<Rightarrow> tokenResponse option" where
  "set_response_field k v r =
     (case struct_field response_fields k of
        None \<Rightarrow> Some r
      | Some f \<Rightarrow>
          (case v of
             JNull \<Rightarrow> Some r
           | JStr s \<Rightarrow> set_response_string f s r
           | JNum lit \<Rightarrow>
               if f = ''expires_in'' then map_option (\<lambda>n. r\<lparr>tr_ExpiresIn := n\<rparr>) (json_int64 lit) else None
           | _ \<Rightarrow> None))"

fun set_response_fields :: "(string \<times> json) list \<Rightarrow> tokenResponse \<Rightarrow> tokenResponse option" where
  "set_response_fields [] r = Some r"
| "set_response_fields ((k, v) # ms) r =
     (case set_response_field k v r of None \<Rightarrow> None | Some r' \<Rightarrow> set_response_fields ms r')"

definition Unmarshal_tokenResponse :: "string \<Rightarrow> tokenResponse option" where
  "Unmarshal_tokenResponse b =
     (case json_parse b of
        Some JNull \<Rightarrow> Some zero_response
      | Some (JObj ms) \<Rightarrow> set_response_fields ms zero_response
      | _ \<Rightarrow> None)"

text \<open>The members of the response that are not the struct's, by their exact names.\<close>

definition extensions :: "string \<Rightarrow> jmap" where
  "extensions body =
     (case fst (unmarshal_map body) of
        None \<Rightarrow> []
      | Some raw \<Rightarrow> filter (\<lambda>(k, _). k \<notin> set response_fields) raw)"

text \<open>\<^verbatim>\<open>time.Duration(n) * time.Second\<close>: int64 arithmetic, which wraps around.\<close>

definition wrap64 :: "int \<Rightarrow> int" where
  "wrap64 n = (n + 2 ^ 63) mod 2 ^ 64 - 2 ^ 63"

definition seconds :: "int \<Rightarrow> int" where
  "seconds n = wrap64 (n * second)"

text \<open>The body with the client's parameters, and the header.\<close>

definition SetBasicAuth :: "string \<Rightarrow> string \<Rightarrow> http_request \<Rightarrow> http_request" where
  "SetBasicAuth user password = set_header ''Authorization'' (''Basic '' @ b64 b64_std ''='' (user @ '':'' @ password))"

definition authenticate :: "'w net \<Rightarrow> provider \<Rightarrow> vals \<Rightarrow> 'w \<Rightarrow> (error + vals) \<times> 'w" where
  "authenticate nt p v w =
     (let v1 = vals_Set ''client_id'' (p_ClientID p) v in
      if ca_method (p_clientAuth p) = ''client_secret_post'' then
        (Inr (vals_Set ''client_secret'' (ca_secret (p_clientAuth p)) v1), w)
      else if ca_method (p_clientAuth p) = ''private_key_jwt'' then
        (case signClientAssertion nt p clientAssertionLifetime w of
           (Inl err, w1) \<Rightarrow> (Inl err, w1)
         | (Inr assertion, w1) \<Rightarrow>
             (Inr (vals_Set ''client_assertion'' assertion
                (vals_Set ''client_assertion_type'' clientAssertionType v1)), w1))
      else (Inr v1, w))"

definition token_request :: "provider \<Rightarrow> string \<Rightarrow> vals \<Rightarrow> error + http_request" where
  "token_request p tokenURL v =
     (case NewRequest ''POST'' tokenURL (Encode v) of
        Inl err \<Rightarrow> Inl err
      | Inr req0 \<Rightarrow>
          (let req = set_header ''Content-Type'' ''application/x-www-form-urlencoded'' req0 in
           Inr (if ca_method (p_clientAuth p) = ''client_secret_basic''
                then SetBasicAuth (p_ClientID p) (ca_secret (p_clientAuth p)) req else req)))"

definition token_of :: "gotime \<Rightarrow> tokenResponse \<Rightarrow> jmap \<Rightarrow> token" where
  "token_of now tr raw =
     \<lparr>tk_AccessToken = tr_AccessToken tr, tk_TokenType = tr_TokenType tr, tk_RefreshToken = tr_RefreshToken tr,
      tk_Expiry = (if tr_ExpiresIn tr > 0 then Add now (seconds (tr_ExpiresIn tr)) else zero_time),
      tk_Extra = (\<lambda>k. if k = ''id_token'' then Some (JStr (tr_IDToken tr))
        else if k = ''issued_token_type'' then Some (JStr (tr_IssuedTokenType tr))
        else if k = ''_extensions'' \<and> length raw > 0 then Some (JObj raw) else None)\<rparr>"

definition read_token :: "gotime \<Rightarrow> http_response \<Rightarrow> error + token" where
  "read_token now resp =
     (case read_limited (2 ^ 20) resp of
        Inl err \<Rightarrow> Inl (wrap ''read token response: '' err)
      | Inr body \<Rightarrow>
          (let failed = (rs_StatusCode resp < 200 \<or> rs_StatusCode resp > 299) in
           case Unmarshal_tokenResponse body of
             None \<Rightarrow>
               if failed then Inl (RetrieveError [] [] []) else Inl (wrap ''parse token response: '' (External ''json''))
           | Some tr \<Rightarrow>
               if failed \<or> tr_Error tr \<noteq> [] then
                 Inl (RetrieveError (tr_Error tr) (tr_ErrorDescription tr) (tr_ErrorURI tr))
               else if tr_AccessToken tr = [] then Inl (errorf ''oidc: token response missing access_token'')
               else Inr (token_of now tr (extensions body))))"

definition postTokenRequest :: "'w net \<Rightarrow> provider \<Rightarrow> string \<Rightarrow> vals \<Rightarrow> 'w \<Rightarrow> (error + token) \<times> 'w" where
  "postTokenRequest nt p tokenURL v w =
     (case authenticate nt p v w of
        (Inl err, w1) \<Rightarrow> (Inl err, w1)
      | (Inr v1, w1) \<Rightarrow>
          (case token_request p tokenURL v1 of
             Inl err \<Rightarrow> (Inl err, w1)
           | Inr req \<Rightarrow>
               (case nt_http nt req w1 of
                  (Inl err, w2) \<Rightarrow> (Inl err, w2)
                | (Inr resp, w2) \<Rightarrow> (read_token (nt_now nt w2) resp, w2))))"

section \<open>Refresh\<close>

definition refreshWithAssertion ::
  "'w net \<Rightarrow> provider \<Rightarrow> oauth2_config \<Rightarrow> string \<Rightarrow> 'w \<Rightarrow> (error + result) \<times> 'w" where
  "refreshWithAssertion nt p cfg refreshToken w =
     (case postTokenRequest nt p (ep_TokenURL (oc_Endpoint cfg))
             [(''grant_type'', [''refresh_token'']), (''refresh_token'', [refreshToken])] w of
        (Inl err, w1) \<Rightarrow> (Inl (wrap ''oidc: refresh failed: '' err), w1)
      | (Inr tok, w1) \<Rightarrow> toResult nt p tok [] w1)"

definition Provider_Refresh :: "'w net \<Rightarrow> provider \<Rightarrow> string \<Rightarrow> string \<Rightarrow> 'w \<Rightarrow> (error + result) \<times> 'w" where
  "Provider_Refresh nt p scope refreshToken w =
     (let cfg = oauth2Config p scope in
      if ca_method (p_clientAuth p) = ''private_key_jwt'' then refreshWithAssertion nt p cfg refreshToken w
      else (case nt_Token nt cfg refreshToken w of
          (Inl err, w1) \<Rightarrow> (Inl (wrap ''oidc: refresh failed: '' err), w1)
        | (Inr tok, w1) \<Rightarrow> toResult nt p tok [] w1))"

section \<open>Token exchange\<close>

definition tokenExchangeGrantType :: string where
  "tokenExchangeGrantType = ''urn:ietf:params:oauth:grant-type:token-exchange''"

definition set_nonempty :: "string \<Rightarrow> string \<Rightarrow> vals \<Rightarrow> vals" where
  "set_nonempty k x v = (if x \<noteq> [] then vals_Set k x v else v)"

definition add_all :: "string \<Rightarrow> string list \<Rightarrow> vals \<Rightarrow> vals" where
  "add_all k xs v = foldl (\<lambda>v x. vals_Add k x v) v xs"

definition add_extra :: "vals \<Rightarrow> vals \<Rightarrow> vals" where
  "add_extra extraFields v = foldl (\<lambda>v (k, xs). add_all k xs v) v extraFields"

definition exchange_form ::
  "provider \<Rightarrow> string \<Rightarrow> string \<Rightarrow> string \<Rightarrow> string \<Rightarrow> string list \<Rightarrow> vals \<Rightarrow> vals" where
  "exchange_form p scope subjectToken subjectTokenType requestedTokenType resources extraFields =
     add_extra extraFields
       (add_all ''resource'' resources
         (set_nonempty ''requested_token_type'' requestedTokenType
           (set_nonempty ''scope'' scope
             (set_nonempty ''audience'' (p_Audience p)
               [(''grant_type'', [tokenExchangeGrantType]), (''subject_token'', [subjectToken]),
                (''subject_token_type'', [subjectTokenType])]))))"

definition Provider_TokenExchange ::
  "'w net \<Rightarrow> provider \<Rightarrow> string \<Rightarrow> string \<Rightarrow> string \<Rightarrow> string \<Rightarrow> string list \<Rightarrow> vals \<Rightarrow> 'w \<Rightarrow> (error + result) \<times> 'w" where
  "Provider_TokenExchange nt p scope subjectToken subjectTokenType requestedTokenType resources extraFields w =
     (case postTokenRequest nt p (tokenEndpoint p)
             (exchange_form p scope subjectToken subjectTokenType requestedTokenType resources extraFields) w of
        (Inl err, w1) \<Rightarrow> (Inl (wrap ''oidc: token exchange failed: '' err), w1)
      | (Inr tok, w1) \<Rightarrow> toResult nt p tok [] w1)"

end
