(* ===== verification/MockIssuer.thy ===== *)
theory MockIssuer
  imports TokenEndpoint
begin

text \<open>
  internal/oidctest/mockissuer.go: the issuer of the repository's tests, and what it uses of net/http:
  forms and basic authentication. As an HTTP client of the model it is the other side of
  internal/oidc. The signing and the verification of JWTs are parameters, as they are there.
\<close>

section \<open>Forms and basic authentication\<close>

text \<open>\<^verbatim>\<open>url.ParseQuery\<close> with its error: it fails for the elements that \<^const>\<open>parseQuery\<close> skips.\<close>

definition query_ok :: "string \<Rightarrow> bool" where
  "query_ok q \<longleftrightarrow> list_all (\<lambda>key. key = [] \<or> CHR '';'' \<notin> set key \<and>
     (case Cut (CHR ''='') key of (k, x, _) \<Rightarrow>
        unescape k encodeQueryComponent \<noteq> None \<and> unescape x encodeQueryComponent \<noteq> None)) (Split (CHR ''&'') q)"

definition append_vals :: "vals \<Rightarrow> vals \<Rightarrow> vals" where
  "append_vals v u = foldl (\<lambda>m (k, xs). foldl (\<lambda>m x. vals_Add k x m) m xs) v u"

text \<open>
  \<^verbatim>\<open>r.ParseForm\<close> for a body with a media type without parameters: the form of a POST, PUT or PATCH
  body of at most 10 MB, followed by the values of the query.
\<close>

definition ParseForm :: "http_request \<Rightarrow> url \<Rightarrow> vals option" where
  "ParseForm rq u =
     (let form = (rq_Method rq \<in> {''POST'', ''PUT'', ''PATCH''} \<and>
            map_of (rq_Header rq) ''Content-Type'' = Some ''application/x-www-form-urlencoded'')
      in if form \<and> (10 * 2 ^ 20 < length (rq_Body rq) \<or> \<not> query_ok (rq_Body rq)) then None
         else if \<not> query_ok (u_RawQuery u) then None
         else Some (append_vals (if form then parseQuery (rq_Body rq) else []) (url_Query u)))"

text \<open>\<^verbatim>\<open>base64.StdEncoding.DecodeString\<close>: padded groups of four; line breaks are ignored.\<close>

definition unb64_char :: "char \<Rightarrow> nat option" where
  "unb64_char c =
     (let n = byte c in
      if 65 \<le> n \<and> n \<le> 90 then Some (n - 65) else if 97 \<le> n \<and> n \<le> 122 then Some (n - 71)
      else if 48 \<le> n \<and> n \<le> 57 then Some (n + 4) else if c = CHR ''+'' then Some 62
      else if c = CHR ''/'' then Some 63 else None)"

fun unb64_group :: "nat option list \<Rightarrow> string option" where
  "unb64_group [Some a, Some b, Some c, Some d] =
     Some [char_of (a * 4 + b div 16), char_of (b mod 16 * 16 + c div 4), char_of (c mod 4 * 64 + d)]"
| "unb64_group [Some a, Some b, Some c] = Some [char_of (a * 4 + b div 16), char_of (b mod 16 * 16 + c div 4)]"
| "unb64_group [Some a, Some b] = Some [char_of (a * 4 + b div 16)]"
| "unb64_group _ = None"

fun unb64 :: "string \<Rightarrow> string option" where
  "unb64 [] = Some []"
| "unb64 (a # b # c # d # s) =
     (if d = CHR ''='' then
        if s \<noteq> [] then None
        else if c = CHR ''='' then unb64_group [unb64_char a, unb64_char b]
        else unb64_group [unb64_char a, unb64_char b, unb64_char c]
      else (case (unb64_group [unb64_char a, unb64_char b, unb64_char c, unb64_char d], unb64 s) of
          (Some x, Some y) \<Rightarrow> Some (x @ y) | _ \<Rightarrow> None))"
| "unb64 _ = None"

definition DecodeString :: "string \<Rightarrow> string option" where
  "DecodeString s = unb64 (filter (\<lambda>c. byte c \<noteq> 10 \<and> byte c \<noteq> 13) s)"

definition BasicAuth :: "http_request \<Rightarrow> (string \<times> string) option" where
  "BasicAuth rq =
     (case map_of (rq_Header rq) ''Authorization'' of
        None \<Rightarrow> None
      | Some a \<Rightarrow>
          if length a < 6 \<or> map to_lower (take 6 a) \<noteq> ''basic '' then None
          else (case DecodeString (drop 6 a) of
              None \<Rightarrow> None
            | Some c \<Rightarrow> (case Cut (CHR '':'') c of (user, password, ok) \<Rightarrow> if ok then Some (user, password) else None)))"

section \<open>The issuer\<close>

definition mockClientID :: string where "mockClientID = ''test-client''"
definition MockAuthCode :: string where "MockAuthCode = ''mock-auth-code''"

text \<open>
  The fields that are set before the first request, without \<^verbatim>\<open>Audience\<close>, which nothing reads, and the
  operations on keys: the key set, the signature of an id_token (or the text of what went wrong), the
  claims of a client assertion verified with \<^verbatim>\<open>ExpectedAssertionKey\<close>, their validation.
\<close>

record mock_issuer =
  mi_URL :: string
  mi_IssuerOverride :: string
  mi_NoDeviceEndpoint :: bool
  mi_GrantTypesSupported :: "string list option"
  mi_CodeChallengeMethodsSupported :: "string list option"
  mi_PendingPolls :: int
  mi_DeviceIntervalSeconds :: int
  mi_DeviceExpiresInSeconds :: int
  mi_IncludeIDToken :: bool
  mi_RefreshErr :: string
  mi_RefreshDelay :: int
  mi_OmitRefreshToken :: bool
  mi_AuthCodeErr :: string
  mi_OmitDeviceExpiresIn :: bool
  mi_TokenExchangeErr :: string
  mi_IssuedTokenType :: string
  mi_NonceForAuthCode :: string
  mi_RequireClientAuth :: string
  mi_ExpectedClientSecret :: string
  mi_jwks :: string
  mi_Sign :: "jwt_claims \<Rightarrow> string \<Rightarrow> string + string"
  mi_Claims :: "string \<Rightarrow> error + jwt_claims"
  mi_Validate :: "jwt_claims \<Rightarrow> error option"

text \<open>What the requests change. A device code has its number of polls.\<close>

record mock_state =
  ms_deviceCodes :: "(string \<times> nat) list"
  ms_refreshSeq :: nat
  ms_refreshCalls :: nat
  ms_assertionJTIs :: "string list"
  ms_lastTokenExchangeForm :: "vals option"
  ms_now :: gotime

definition new_mock_state :: "gotime \<Rightarrow> mock_state" where
  "new_mock_state now = \<lparr>ms_deviceCodes = [], ms_refreshSeq = 0, ms_refreshCalls = 0, ms_assertionJTIs = [],
     ms_lastTokenExchangeForm = None, ms_now = now\<rparr>"

section \<open>Answers\<close>

definition answer :: "nat \<Rightarrow> string \<Rightarrow> http_response" where
  "answer status body = \<lparr>rs_StatusCode = status, rs_Body = body, rs_BodyErr = None\<rparr>"

text \<open>\<^verbatim>\<open>json.NewEncoder(w).Encode\<close>, with a line feed after the value.\<close>

definition json_answer :: "nat \<Rightarrow> jmap \<Rightarrow> http_response" where
  "json_answer status doc = answer status (json_text (canonical (JObj doc)) @ [CHR 0x0A])"

definition writeTokenError :: "nat \<Rightarrow> string \<Rightarrow> http_response" where
  "writeTokenError status errCode = json_answer status [(''error'', JStr errCode)]"

definition json_int :: "int \<Rightarrow> json" where
  "json_int n = JNum (int_text n)"

definition mock_claims :: "mock_issuer \<Rightarrow> gotime \<Rightarrow> string \<Rightarrow> jwt_claims" where
  "mock_claims mi now subject =
     \<lparr>jwt_Issuer = (if mi_IssuerOverride mi \<noteq> [] then mi_IssuerOverride mi else mi_URL mi), jwt_Subject = subject,
      jwt_Audience = [mockClientID], jwt_Expiry = Add now (3600 * second), jwt_IssuedAt = now, jwt_ID = []\<rparr>"

definition signIDToken :: "mock_issuer \<Rightarrow> gotime \<Rightarrow> string \<Rightarrow> string \<Rightarrow> string + string" where
  "signIDToken mi now subject nonce = mi_Sign mi (mock_claims mi now subject) nonce"

definition success_doc :: "mock_issuer \<Rightarrow> nat \<Rightarrow> string option \<Rightarrow> jmap \<Rightarrow> jmap" where
  "success_doc mi seq idToken extra =
     foldl (\<lambda>m (k, v). AList.update k v m)
       ([(''access_token'', JStr (''access-token-'' @ itoa seq)), (''token_type'', JStr ''Bearer''), (''expires_in'', json_int 3600)] @
        (if mi_OmitRefreshToken mi then [] else [(''refresh_token'', JStr (''refresh-token-'' @ itoa seq))]) @
        (case idToken of None \<Rightarrow> [] | Some t \<Rightarrow> [(''id_token'', JStr t)])) extra"

definition writeTokenSuccess ::
  "mock_issuer \<Rightarrow> string \<Rightarrow> string \<Rightarrow> jmap \<Rightarrow> mock_state \<Rightarrow> http_response \<times> mock_state" where
  "writeTokenSuccess mi subject nonce extra s =
     (let seq = Suc (ms_refreshSeq s); s1 = s\<lparr>ms_refreshSeq := seq\<rparr> in
      if mi_IncludeIDToken mi then
        (case signIDToken mi (ms_now s) subject nonce of
           Inl err \<Rightarrow> (answer 500 (err @ [CHR 0x0A]), s1)
         | Inr t \<Rightarrow> (json_answer 200 (success_doc mi seq (Some t) extra), s1))
      else (json_answer 200 (success_doc mi seq None extra), s1))"

section \<open>Authentication of the client\<close>

definition checkClientAssertion :: "mock_issuer \<Rightarrow> vals \<Rightarrow> mock_state \<Rightarrow> bool \<times> mock_state" where
  "checkClientAssertion mi form s =
     (if vals_Get form ''client_assertion_type'' \<noteq> ''urn:ietf:params:oauth:client-assertion-type:jwt-bearer'' then (False, s)
      else if vals_Get form ''client_assertion'' = [] then (False, s)
      else (case mi_Claims mi (vals_Get form ''client_assertion'') of
          Inl err \<Rightarrow> (False, s)
        | Inr claims \<Rightarrow>
            if jwt_Issuer claims \<noteq> mockClientID \<or> jwt_Subject claims \<noteq> mockClientID then (False, s)
            else if jwt_ID claims = [] then (False, s)
            else if mi_Validate mi claims \<noteq> None then (False, s)
            else (True, s\<lparr>ms_assertionJTIs := ms_assertionJTIs s @ [jwt_ID claims]\<rparr>)))"

definition checkClientAuth :: "mock_issuer \<Rightarrow> http_request \<Rightarrow> vals \<Rightarrow> mock_state \<Rightarrow> bool \<times> mock_state" where
  "checkClientAuth mi rq form s =
     (if mi_RequireClientAuth mi = [] then (True, s)
      else if mi_RequireClientAuth mi = ''client_secret_basic'' then
        (BasicAuth rq = Some (mockClientID, mi_ExpectedClientSecret mi), s)
      else if mi_RequireClientAuth mi = ''client_secret_post'' then
        (vals_Get form ''client_id'' = mockClientID \<and> vals_Get form ''client_secret'' = mi_ExpectedClientSecret mi, s)
      else if mi_RequireClientAuth mi = ''private_key_jwt'' then checkClientAssertion mi form s
      else (False, s))"

section \<open>The grants\<close>

definition handleAuthCodeToken :: "mock_issuer \<Rightarrow> vals \<Rightarrow> mock_state \<Rightarrow> http_response \<times> mock_state" where
  "handleAuthCodeToken mi form s =
     (if mi_AuthCodeErr mi \<noteq> [] then (writeTokenError 400 (mi_AuthCodeErr mi), s)
      else if vals_Get form ''code'' \<noteq> MockAuthCode then (writeTokenError 400 ''invalid_grant'', s)
      else writeTokenSuccess mi ''authcode-subject'' (mi_NonceForAuthCode mi) [] s)"

definition handleDeviceToken :: "mock_issuer \<Rightarrow> vals \<Rightarrow> mock_state \<Rightarrow> http_response \<times> mock_state" where
  "handleDeviceToken mi form s =
     (let code = vals_Get form ''device_code'' in
      case map_of (ms_deviceCodes s) code of
        None \<Rightarrow> (writeTokenError 400 ''expired_token'', s)
      | Some n \<Rightarrow>
          (let polls = Suc n; s1 = s\<lparr>ms_deviceCodes := AList.update code polls (ms_deviceCodes s)\<rparr> in
           if int polls \<le> mi_PendingPolls mi then (writeTokenError 400 ''authorization_pending'', s1)
           else writeTokenSuccess mi ''device-subject'' [] [] s1))"

definition handleRefreshToken :: "mock_issuer \<Rightarrow> mock_state \<Rightarrow> http_response \<times> mock_state" where
  "handleRefreshToken mi s =
     (if mi_RefreshErr mi \<noteq> [] then (writeTokenError 400 (mi_RefreshErr mi), s)
      else (let s1 = (if mi_RefreshDelay mi > 0 then s\<lparr>ms_now := Add (ms_now s) (mi_RefreshDelay mi)\<rparr> else s)
            in writeTokenSuccess mi ''refresh-subject'' [] [] (s1\<lparr>ms_refreshCalls := Suc (ms_refreshCalls s1)\<rparr>)))"

definition handleTokenExchange :: "mock_issuer \<Rightarrow> vals \<Rightarrow> mock_state \<Rightarrow> http_response \<times> mock_state" where
  "handleTokenExchange mi form s =
     (let s1 = s\<lparr>ms_lastTokenExchangeForm := Some form\<rparr> in
      if mi_TokenExchangeErr mi \<noteq> [] then (writeTokenError 400 (mi_TokenExchangeErr mi), s1)
      else if vals_Get form ''subject_token'' = [] \<or> vals_Get form ''subject_token_type'' = [] then
        (writeTokenError 400 ''invalid_request'', s1)
      else (let issued = (if mi_IssuedTokenType mi = [] then ''urn:ietf:params:oauth:token-type:access_token''
              else mi_IssuedTokenType mi)
            in writeTokenSuccess mi ''token-exchange-subject'' [] [(''issued_token_type'', JStr issued)] s1))"

definition handleToken :: "mock_issuer \<Rightarrow> http_request \<Rightarrow> url \<Rightarrow> mock_state \<Rightarrow> http_response \<times> mock_state" where
  "handleToken mi rq u s =
     (case ParseForm rq u of
        None \<Rightarrow> (answer 400 (''bad form'' @ [CHR 0x0A]), s)
      | Some form \<Rightarrow>
          (case checkClientAuth mi rq form s of
             (False, s1) \<Rightarrow> (writeTokenError 401 ''invalid_client'', s1)
           | (True, s1) \<Rightarrow>
               (let grant = vals_Get form ''grant_type'' in
                if grant = ''urn:ietf:params:oauth:grant-type:device_code'' then handleDeviceToken mi form s1
                else if grant = ''refresh_token'' then handleRefreshToken mi s1
                else if grant = ''authorization_code'' then handleAuthCodeToken mi form s1
                else if grant = ''urn:ietf:params:oauth:grant-type:token-exchange'' then handleTokenExchange mi form s1
                else (writeTokenError 400 ''unsupported_grant_type'', s1))))"

section \<open>Discovery, device authorization, the server\<close>

definition string_array :: "string list \<Rightarrow> json" where
  "string_array xs = JArr (map JStr xs)"

definition discovery_doc :: "mock_issuer \<Rightarrow> jmap" where
  "discovery_doc mi =
     [(''issuer'', JStr (if mi_IssuerOverride mi \<noteq> [] then mi_IssuerOverride mi else mi_URL mi)),
      (''authorization_endpoint'', JStr (mi_URL mi @ ''/authorize'')), (''token_endpoint'', JStr (mi_URL mi @ ''/token'')),
      (''jwks_uri'', JStr (mi_URL mi @ ''/jwks''))] @
     (if mi_NoDeviceEndpoint mi then [] else [(''device_authorization_endpoint'', JStr (mi_URL mi @ ''/device_authorization''))]) @
     (case mi_GrantTypesSupported mi of None \<Rightarrow> [] | Some xs \<Rightarrow> [(''grant_types_supported'', string_array xs)]) @
     (case mi_CodeChallengeMethodsSupported mi of None \<Rightarrow> []
      | Some xs \<Rightarrow> [(''code_challenge_methods_supported'', string_array xs)])"

definition handleDeviceAuthorization :: "mock_issuer \<Rightarrow> mock_state \<Rightarrow> http_response \<times> mock_state" where
  "handleDeviceAuthorization mi s =
     (let code = ''device-code-'' @ itoa (length (ms_deviceCodes s) + 1) in
      (json_answer 200
         ([(''device_code'', JStr code), (''user_code'', JStr ''USER-CODE''),
           (''verification_uri'', JStr (mi_URL mi @ ''/verify'')), (''interval'', json_int (mi_DeviceIntervalSeconds mi))] @
          (if mi_OmitDeviceExpiresIn mi then [] else [(''expires_in'', json_int (mi_DeviceExpiresInSeconds mi))])),
       s\<lparr>ms_deviceCodes := AList.update code 0 (ms_deviceCodes s)\<rparr>))"

text \<open>The server as an HTTP client: a request for one of its paths is answered by its handler.\<close>

definition mock_http :: "mock_issuer \<Rightarrow> mock_state http_client" where
  "mock_http mi rq s =
     (case url_Parse (rq_URL rq) of
        Inl err \<Rightarrow> (Inl err, s)
      | Inr u \<Rightarrow>
          apfst Inr
            (if u_Path u = ''/.well-known/openid-configuration'' then (json_answer 200 (discovery_doc mi), s)
             else if u_Path u = ''/jwks'' then (answer 200 (mi_jwks mi), s)
             else if u_Path u = ''/device_authorization'' then handleDeviceAuthorization mi s
             else if u_Path u = ''/token'' then handleToken mi rq u s
             else if u_Path u = ''/authorize'' then (answer 200 [], s)
             else (answer 404 (''404 page not found'' @ [CHR 0x0A]), s)))"

end
