(* ===== verification/Callback.thy ===== *)
theory Callback
  imports Provider
begin

text \<open>
  internal/oidc/callback.go: the one-shot callback server. Its handlers run concurrently with the
  function that waits for the first result or the end of the context; the step relation below has
  one step per handled request, for the receipt of a result and for the end of the context.
\<close>

section \<open>The handler\<close>

definition badState :: string where "badState = ''Invalid or missing state parameter.''"
definition loginFailed :: string where
  "loginFailed = ''Login failed. You can close this window and return to the terminal.''"
definition loginComplete :: string where
  "loginComplete = ''Login complete. You can close this window and return to the terminal.''"

text \<open>The status and text of the response, and the result, if the state is the expected one.\<close>

definition handle_callback :: "string \<Rightarrow> string \<Rightarrow> nat \<times> string \<times> (error + string) option" where
  "handle_callback expectedState query =
     (let q = parseQuery query in
      if vals_Get q ''state'' \<noteq> expectedState then (400, badState, None)
      else if vals_Get q ''error'' \<noteq> [] then
        (200, loginFailed, Some (Inl (AuthorizationError (vals_Get q ''error'') (vals_Get q ''error_description''))))
      else (200, loginComplete, Some (Inr (vals_Get q ''code''))))"

definition callback_result :: "string \<Rightarrow> string \<Rightarrow> (error + string) option" where
  "callback_result expectedState query = snd (snd (handle_callback expectedState query))"

section \<open>The server\<close>

text \<open>The channel has room for one result; \<open>cb_outcome\<close> is what \<^verbatim>\<open>awaitCallback\<close> returned.\<close>

record callback_server =
  cb_channel :: "(error + string) option"
  cb_outcome :: "(error + string) option"

datatype callback_event = Request string | Receive | ContextDone

definition timed_out :: error where
  "timed_out = wrap ''oidc: timed out waiting for the authorization callback: '' (Sentinel ErrContextDone)"

definition new_server :: callback_server where
  "new_server = \<lparr>cb_channel = None, cb_outcome = None\<rparr>"

text \<open>A non-blocking send: with a result waiting in the channel a further one is dropped.\<close>

definition offer :: "(error + string) option \<Rightarrow> callback_server \<Rightarrow> callback_server" where
  "offer r s = (if cb_channel s = None then s\<lparr>cb_channel := r\<rparr> else s)"

inductive callback_step :: "string \<Rightarrow> callback_server \<Rightarrow> callback_event \<Rightarrow> callback_server \<Rightarrow> bool"
  for expected :: string where
  request: "cb_outcome s = None \<Longrightarrow> callback_step expected s (Request q) (offer (callback_result expected q) s)"
| receive: "cb_outcome s = None \<Longrightarrow> cb_channel s = Some r \<Longrightarrow>
    callback_step expected s Receive (s\<lparr>cb_channel := None, cb_outcome := Some r\<rparr>)"
| done_step: "cb_outcome s = None \<Longrightarrow> callback_step expected s ContextDone (s\<lparr>cb_outcome := Some (Inl timed_out)\<rparr>)"

inductive_cases callback_stepE: "callback_step expected s e s'"

inductive callback_run :: "string \<Rightarrow> callback_event list \<Rightarrow> callback_server \<Rightarrow> bool" for expected :: string where
  start: "callback_run expected [] new_server"
| step: "callback_run expected es s \<Longrightarrow> callback_step expected s e s' \<Longrightarrow> callback_run expected (es @ [e]) s'"

text \<open>The requests of a run, and the result of the first one whose state is the expected one.\<close>

fun queries :: "callback_event list \<Rightarrow> string list" where
  "queries [] = []"
| "queries (Request q # es) = q # queries es"
| "queries (_ # es) = queries es"

fun first_result :: "string \<Rightarrow> string list \<Rightarrow> (error + string) option" where
  "first_result expected [] = None"
| "first_result expected (q # qs) =
     (case callback_result expected q of Some r \<Rightarrow> Some r | None \<Rightarrow> first_result expected qs)"

text \<open>
  \<^verbatim>\<open>awaitCallback\<close> as a function of the requests handled while it waits: the first result, and
  without one the end of the context.
\<close>

definition awaitCallback :: "'w net \<Rightarrow> int option \<Rightarrow> nat \<Rightarrow> string \<Rightarrow> 'w \<Rightarrow> (error + string) \<times> 'w" where
  "awaitCallback nt timeout port expectedState w =
     (case nt_wait nt timeout port w of
        (qs, w1) \<Rightarrow>
          (case first_result expectedState qs of
             Some r \<Rightarrow> (r, w1)
           | None \<Rightarrow> (Inl timed_out, w1)))"

section \<open>Lemmas\<close>

lemma queries_append [simp]: "queries (es @ fs) = queries es @ queries fs"
  by (induction es rule: queries.induct) simp_all

lemma first_result_append:
  "first_result expected (qs @ rs) =
     (case first_result expected qs of Some r \<Rightarrow> Some r | None \<Rightarrow> first_result expected rs)"
  by (induction qs) (auto split: option.split)

lemma first_result_Some:
  "first_result expected qs = Some r \<Longrightarrow> \<exists>q\<in>set qs. callback_result expected q = Some r"
  by (induction qs) (auto split: option.splits)

lemma first_result_None:
  "first_result expected qs = None \<longleftrightarrow> (\<forall>q\<in>set qs. callback_result expected q = None)"
  by (induction qs) (auto split: option.splits)

lemma callback_result_iff:
  "callback_result expected q = Some r \<longleftrightarrow>
     vals_Get (parseQuery q) ''state'' = expected \<and>
     r = (if vals_Get (parseQuery q) ''error'' \<noteq> []
          then Inl (AuthorizationError (vals_Get (parseQuery q) ''error'') (vals_Get (parseQuery q) ''error_description''))
          else Inr (vals_Get (parseQuery q) ''code''))"
  by (auto simp: callback_result_def handle_callback_def Let_def)

lemma callback_result_None:
  "callback_result expected q = None \<longleftrightarrow> vals_Get (parseQuery q) ''state'' \<noteq> expected"
  by (auto simp: callback_result_def handle_callback_def Let_def)

text \<open>
  The invariant of a run: while nothing is returned, the channel holds the result of the first
  genuine request; what is returned is that result or the end of the context.
\<close>

lemma callback_run_invariant:
  assumes "callback_run expected es s"
  shows "case cb_outcome s of
      None \<Rightarrow> cb_channel s = first_result expected (queries es) \<and> Receive \<notin> set es \<and> ContextDone \<notin> set es
    | Some r \<Rightarrow> (last es = Receive \<and> first_result expected (queries es) = Some r) \<or>
        (last es = ContextDone \<and> r = Inl timed_out)"
  using assms
proof induction
  case start
  then show ?case by (simp add: new_server_def)
next
  case (step es s e s')
  from step(2) show ?case
    using step.IH by cases (auto simp: offer_def first_result_append split: option.splits, metis)
qed

lemma callback_run_snoc: "callback_run expected es s \<Longrightarrow> callback_step expected s e s' \<Longrightarrow> callback_run expected (es @ [e]) s'"
  by (rule callback_run.step)

text \<open>Any sequence of requests can be handled while nothing has been returned.\<close>

lemma callback_run_requests:
  "callback_run expected (map Request qs) \<lparr>cb_channel = first_result expected qs, cb_outcome = None\<rparr>"
proof (induction qs rule: rev_induct)
  case Nil
  then show ?case using callback_run.start by (simp add: new_server_def)
next
  case (snoc q qs)
  let ?s = "\<lparr>cb_channel = first_result expected qs, cb_outcome = None\<rparr>"
  have "callback_step expected ?s (Request q) (offer (callback_result expected q) ?s)"
    by (rule callback_step.request) simp
  moreover have "offer (callback_result expected q) ?s =
      \<lparr>cb_channel = first_result expected (qs @ [q]), cb_outcome = None\<rparr>"
    by (auto simp: offer_def first_result_append split: option.splits)
  ultimately show ?case
    using callback_run_snoc [OF snoc.IH] by fastforce
qed

end
