(* ===== verification/LoginFlows.thy ===== *)
theory LoginFlows
  imports TokenEndpoint Callback
begin

text \<open>
  internal/oidc, authcode.go and device.go: the two interactive grants, and the provider as an
  implementation of the interface \<open>grant_source\<close> of authflow.
\<close>

section \<open>Authorization code with PKCE\<close>

definition authCodeTimeout :: int where "authCodeTimeout = 5 * 60 * second"

definition redirect_uri :: "nat \<Rightarrow> string" where
  "redirect_uri port = ''http://127.0.0.1:'' @ itoa port @ ''/callback''"

definition audience_opts :: "provider \<Rightarrow> opts" where
  "audience_opts p = (if p_Audience p \<noteq> [] then [(''audience'', p_Audience p)] else [])"

text \<open>\<^verbatim>\<open>S256ChallengeOption\<close>, \<^verbatim>\<open>Nonce\<close> and the audience.\<close>

definition authorization_opts :: "'w net \<Rightarrow> provider \<Rightarrow> string \<Rightarrow> string \<Rightarrow> opts" where
  "authorization_opts nt p verifier nonce =
     [(''code_challenge_method'', ''S256''), (''code_challenge'', nt_S256Challenge nt verifier), (''nonce'', nonce)] @
     audience_opts p"

text \<open>One option per value of \<^verbatim>\<open>extraFields\<close>, in the order of the map.\<close>

definition extra_opts :: "vals \<Rightarrow> opts" where
  "extra_opts extraFields = concat (map (\<lambda>(k, vs). map (\<lambda>v. (k, v)) vs) extraFields)"

definition open_url :: "'w opener option \<Rightarrow> 'w prompt \<Rightarrow> string \<Rightarrow> 'w \<Rightarrow> 'w" where
  "open_url openBrowser prompt authURL w =
     (case openBrowser of
        None \<Rightarrow> w
      | Some f \<Rightarrow>
          (case f authURL w of
             (Some err, w1) \<Rightarrow>
               (case prompt of
                  None \<Rightarrow> w1
                | Some out \<Rightarrow> out [T ''warning: could not open a browser automatically: '', W err] w1)
           | (None, w1) \<Rightarrow> w1))"

definition show_hint :: "'w prompt \<Rightarrow> string \<Rightarrow> 'w \<Rightarrow> 'w" where
  "show_hint hint authURL w =
     (case hint of
        None \<Rightarrow> w
      | Some out \<Rightarrow> out [T ''To sign in, visit:'', S authURL] w)"

text \<open>From the authorization request on: the browser, the callback, the exchange of the code.\<close>

definition exchange_code ::
  "'w net \<Rightarrow> provider \<Rightarrow> oauth2_config \<Rightarrow> string \<Rightarrow> string \<Rightarrow> vals \<Rightarrow> string \<Rightarrow> 'w \<Rightarrow> (error + result) \<times> 'w" where
  "exchange_code nt p cfg verifier nonce extraFields code w =
     (case clientAssertionOptions nt p clientAssertionLifetime w of
        (Inl err, w1) \<Rightarrow> (Inl err, w1)
      | (Inr assertionOpts, w1) \<Rightarrow>
          (case nt_Exchange nt cfg code
                  ([(''code_verifier'', verifier)] @ assertionOpts @ extra_opts extraFields) w1 of
             (Inl err, w2) \<Rightarrow> (Inl (wrap ''oidc: authorization code exchange failed: '' err), w2)
           | (Inr tok, w2) \<Rightarrow> toResult nt p tok nonce w2))"

definition authorize ::
  "'w net \<Rightarrow> provider \<Rightarrow> oauth2_config \<Rightarrow> nat \<Rightarrow> string \<Rightarrow> string \<Rightarrow> string \<Rightarrow> 'w opener option \<Rightarrow> 'w prompt \<Rightarrow>
   'w prompt \<Rightarrow> 'w \<Rightarrow> (error + string) \<times> 'w" where
  "authorize nt p cfg port verifier state nonce openBrowser prompt hint w =
     (let authURL = nt_AuthCodeURL nt cfg state (authorization_opts nt p verifier nonce);
          timeout = (if nt_hasDeadline nt then None else Some authCodeTimeout)
      in awaitCallback nt timeout port state (show_hint hint authURL (open_url openBrowser prompt authURL w)))"

definition AuthCodeLogin ::
  "'w net \<Rightarrow> provider \<Rightarrow> string \<Rightarrow> int \<Rightarrow> 'w opener option \<Rightarrow> 'w prompt \<Rightarrow> 'w prompt \<Rightarrow> vals \<Rightarrow> 'w \<Rightarrow>
   (error + result) \<times> 'w" where
  "AuthCodeLogin nt p scope port openBrowser prompt hint extraFields w =
     (if \<not> Provider_SupportsGrant p ''authorization_code'' then
        (Inl (Errorf [T ''oidc: issuer '', S (p_Issuer p), T '' does not support the authorization_code grant (issuer advertises: '',
           S (Provider_AdvertisedGrants p), T '')'']), w)
      else (case codeChallengeMethod p of
          Inl err \<Rightarrow> (Inl err, w)
        | Inr _ \<Rightarrow>
            (case nt_Listen nt port w of
               (Inl err, w1) \<Rightarrow> (Inl (wrap ''oidc: bind loopback callback listener: '' err), w1)
             | (Inr None, w1) \<Rightarrow> (Inl (errorf ''oidc: unexpected listener address type''), nt_Close nt w1)
             | (Inr (Some bound), w1) \<Rightarrow>
                 (let cfg = (oauth2Config p scope)\<lparr>oc_RedirectURL := redirect_uri bound\<rparr>;
                      (verifier, w2) = nt_GenerateVerifier nt w1 in
                  case randomState nt w2 of
                    (Inl err, w3) \<Rightarrow> (Inl (wrap ''oidc: generate state: '' err), nt_Close nt w3)
                  | (Inr state, w3) \<Rightarrow>
                      (case randomState nt w3 of
                         (Inl err, w4) \<Rightarrow> (Inl (wrap ''oidc: generate nonce: '' err), nt_Close nt w4)
                       | (Inr nonce, w4) \<Rightarrow>
                           (case authorize nt p cfg bound verifier state nonce openBrowser prompt hint w4 of
                              (Inl err, w5) \<Rightarrow> (Inl err, w5)
                            | (Inr code, w5) \<Rightarrow> exchange_code nt p cfg verifier nonce extraFields code w5))))))"

section \<open>Device code\<close>

definition deviceLoginFallbackTimeout :: int where "deviceLoginFallbackTimeout = 15 * 60 * second"
definition maxDeviceAssertionLifetime :: int where "maxDeviceAssertionLifetime = 15 * 60 * second"

text \<open>\<^verbatim>\<open>time.Until\<close>: a difference of instants, saturated to a Duration.\<close>

definition sat64 :: "int \<Rightarrow> int" where
  "sat64 n = max (- (2 ^ 63)) (min (2 ^ 63 - 1) n)"

definition deviceAssertionLifetime :: "gotime \<Rightarrow> gotime \<Rightarrow> int" where
  "deviceAssertionLifetime now expiry =
     (if IsZero expiry then clientAssertionLifetime
      else (let remaining = sat64 (ns expiry - ns now) in
        if remaining \<le> 0 then clientAssertionLifetime
        else if remaining > maxDeviceAssertionLifetime then maxDeviceAssertionLifetime
        else remaining))"

definition verification_line :: "device_auth \<Rightarrow> line" where
  "verification_line da =
     (let verificationURI = (if da_VerificationURIComplete da = [] then da_VerificationURI da else da_VerificationURIComplete da)
      in [T ''To sign in, visit:'', S verificationURI, T ''and enter the code: '', S (da_UserCode da)])"

text \<open>With the device code at hand; writing to a nil prompt panics.\<close>

definition poll_device ::
  "'w net \<Rightarrow> provider \<Rightarrow> oauth2_config \<Rightarrow> 'w prompt \<Rightarrow> vals \<Rightarrow> device_auth \<Rightarrow> 'w \<Rightarrow> (error + result) \<times> 'w" where
  "poll_device nt p cfg prompt extraFields da w =
     (case prompt of
        None \<Rightarrow> (Inl (External ''panic: nil prompt''), w)
      | Some out \<Rightarrow>
          (let w0 = out (verification_line da) w;
               timeout = (if IsZero (da_Expiry da) \<and> \<not> nt_hasDeadline nt then Some deviceLoginFallbackTimeout else None)
           in case clientAssertionOptions nt p (deviceAssertionLifetime (nt_now nt w0) (da_Expiry da)) w0 of
                (Inl err, w1) \<Rightarrow> (Inl err, w1)
              | (Inr assertionOpts, w1) \<Rightarrow>
                  (case nt_DeviceAccessToken nt cfg timeout da
                          (audience_opts p @ assertionOpts @ extra_opts extraFields) w1 of
                     (Inl err, w2) \<Rightarrow> (Inl (wrap ''oidc: device-code token exchange failed: '' err), w2)
                   | (Inr tok, w2) \<Rightarrow> toResult nt p tok [] w2)))"

definition DeviceLogin ::
  "'w net \<Rightarrow> provider \<Rightarrow> string \<Rightarrow> 'w prompt \<Rightarrow> vals \<Rightarrow> 'w \<Rightarrow> (error + result) \<times> 'w" where
  "DeviceLogin nt p scope prompt extraFields w =
     (if \<not> Provider_SupportsDeviceCode p then
        (Inl (Errorf [T ''oidc: issuer '', S (p_Issuer p),
           T '' does not advertise device_authorization_endpoint; device-code grant unavailable (issuer advertises: '',
           S (Provider_AdvertisedGrants p), T '')'']), w)
      else if \<not> Provider_SupportsGrant p ''urn:ietf:params:oauth:grant-type:device_code'' then
        (Inl (Errorf [T ''oidc: issuer '', S (p_Issuer p),
           T '' advertises grant_types_supported without device-code; device-code grant unavailable (issuer advertises: '',
           S (Provider_AdvertisedGrants p), T '')'']), w)
      else (let cfg = oauth2Config p scope in
        case nt_DeviceAuth nt cfg (audience_opts p) w of
          (Inl err, w1) \<Rightarrow> (Inl (wrap ''oidc: device authorization request failed: '' err), w1)
        | (Inr da, w1) \<Rightarrow> poll_device nt p cfg prompt extraFields da w1))"

section \<open>The provider as a grant source\<close>

definition provider_ops :: "'w net \<Rightarrow> (provider, 'w) grant_source" where
  "provider_ops nt = \<lparr>SupportsGrant = Provider_SupportsGrant, SupportsDeviceCode = Provider_SupportsDeviceCode,
     SetAudience = Provider_SetAudience, SetClientAuth = Provider_SetClientAuth,
     AdvertisedGrants = Provider_AdvertisedGrants, gs_DeviceLogin = DeviceLogin nt,
     gs_AuthCodeLogin = AuthCodeLogin nt, gs_Refresh = Provider_Refresh nt,
     gs_TokenExchange = Provider_TokenExchange nt\<rparr>"

end
