(* ===== verification/OidcProps.thy ===== *)
theory OidcProps
  imports LoginFlows
begin

text \<open>
  What internal/oidc guarantees: whom it talks to, what binds an authorization to its request, how long
  an assertion and a token live, what is posted to the token endpoint and what is taken from it.
\<close>

section \<open>Discovery\<close>

text \<open>
  C27: A provider is discovered only over https, or over http from a loopback address; any other
  issuer is refused before the network is used.
\<close>

theorem discover_secure:
  "case fst (Discover nt issuer clientID w) of
     Inr p \<Rightarrow> \<exists>u. url_Parse issuer = Inr u \<and>
       (u_Scheme u = ''https'' \<or> u_Scheme u = ''http'' \<and> (Hostname u = ''127.0.0.1'' \<or> Hostname u = ''::1''))
   | Inl e \<Rightarrow> validateIssuerURL issuer = None \<or> snd (Discover nt issuer clientID w) = w \<and> validateIssuerURL issuer = Some e"
proof (cases "validateIssuerURL issuer")
  case None
  then have "\<exists>u. url_Parse issuer = Inr u \<and>
      (u_Scheme u = ''https'' \<or> u_Scheme u = ''http'' \<and> (Hostname u = ''127.0.0.1'' \<or> Hostname u = ''::1''))"
    by (auto simp: validateIssuerURL_def split: sum.splits if_splits)
  then show ?thesis using None by (auto split: sum.split)
next
  case (Some e)
  then show ?thesis by (simp add: Discover_def)
qed

section \<open>The authorization request\<close>

lemma b64_ne: "s \<noteq> [] \<Longrightarrow> b64 al eqs s \<noteq> []"
  by (cases "(al, eqs, s)" rule: b64.cases) auto

text \<open>The random source returns as many bytes as asked for.\<close>

definition rand_ok :: "'w net \<Rightarrow> bool" where
  "rand_ok nt \<longleftrightarrow> (\<forall>n w b w'. nt_rand nt n w = (Inr b, w') \<longrightarrow> length b = n)"

lemma randomState_ne: "rand_ok nt \<Longrightarrow> randomState nt w = (Inr s, w') \<Longrightarrow> s \<noteq> []"
  by (auto simp: randomState_def rand_ok_def split: prod.splits sum.splits dest!: b64_ne)
    (metis b64_ne length_0_conv zero_neq_numeral)

lemma toResult_IDToken:
  assumes "toResult nt p tok nonce w = (Inr res, w')" "r_IDToken res \<noteq> []"
  shows "\<exists>n. nt_Verify nt (p_upstream p) (p_ClientID p) (r_IDToken res) w = (Inr n, w') \<and> (nonce \<noteq> [] \<longrightarrow> n = nonce)"
  using assms unfolding toResult_def
  by (auto simp: zero_result_def split: option.splits if_splits prod.splits sum.splits json.splits)

lemma authorize_await:
  "authorize nt p cfg port verifier state nonce br pr hint w = (r, w') \<Longrightarrow>
     \<exists>timeout v. awaitCallback nt timeout port state v = (r, w')"
  unfolding authorize_def Let_def by blast

lemma exchange_codeE:
  assumes "exchange_code nt p cfg verifier nonce extra code w = (Inr res, w')"
  obtains assertion w1 tok w2 where "clientAssertionOptions nt p clientAssertionLifetime w = (Inr assertion, w1)"
    "nt_Exchange nt cfg code ((''code_verifier'', verifier) # assertion @ extra_opts extra) w1 = (Inr tok, w2)"
    "toResult nt p tok nonce w2 = (Inr res, w')"
  using assms unfolding exchange_code_def by (auto split: prod.splits sum.splits)

lemma AuthCodeLoginE:
  assumes "AuthCodeLogin nt p scope port br pr hint extra w = (Inr res, w')"
  obtains bound verifier state nonce code w1 w2 w3 w4 w5 where
    "codeChallengeMethod p = Inr ''S256''" "Provider_SupportsGrant p ''authorization_code''"
    "nt_Listen nt port w = (Inr (Some bound), w1)" "nt_GenerateVerifier nt w1 = (verifier, w2)"
    "randomState nt w2 = (Inr state, w3)" "randomState nt w3 = (Inr nonce, w4)"
    "authorize nt p ((oauth2Config p scope)\<lparr>oc_RedirectURL := redirect_uri bound\<rparr>) bound verifier state nonce br pr hint w4 = (Inr code, w5)"
    "exchange_code nt p ((oauth2Config p scope)\<lparr>oc_RedirectURL := redirect_uri bound\<rparr>) verifier nonce extra code w5 = (Inr res, w')"
proof -
  have "codeChallengeMethod p = Inr m \<Longrightarrow> m = ''S256''" for m
    by (auto simp: codeChallengeMethod_def split: if_splits)
  then show ?thesis
    using assms that unfolding AuthCodeLogin_def Let_def
    by (auto split: if_splits prod.splits sum.splits option.splits)
qed

text \<open>
  C9: A login with an authorization code is bound to its own request: S256 is available, the code
  comes from a callback with the state generated for this login, it is exchanged together with the PKCE
  verifier generated for it, and an id_token in the result was verified for this client and carries
  the nonce generated for it.
\<close>

theorem authcode_binding:
  assumes "rand_ok nt" "AuthCodeLogin nt p scope port br pr hint extra w = (Inr res, w')"
  shows "\<exists>bound verifier state nonce code timeout opts tok w1 w2 w3 w4 v w5 w6 w7.
     codeChallengeMethod p = Inr ''S256'' \<and>
     nt_Listen nt port w = (Inr (Some bound), w1) \<and> nt_GenerateVerifier nt w1 = (verifier, w2) \<and>
     randomState nt w2 = (Inr state, w3) \<and> randomState nt w3 = (Inr nonce, w4) \<and>
     awaitCallback nt timeout bound state v = (Inr code, w5) \<and>
     nt_Exchange nt ((oauth2Config p scope)\<lparr>oc_RedirectURL := redirect_uri bound\<rparr>) code
       ((''code_verifier'', verifier) # opts) w6 = (Inr tok, w7) \<and>
     (r_IDToken res \<noteq> [] \<longrightarrow> nt_Verify nt (p_upstream p) (p_ClientID p) (r_IDToken res) w7 = (Inr nonce, w'))"
proof (rule AuthCodeLoginE [OF assms(2)])
  fix bound verifier state nonce code w1 w2 w3 w4 w5
  let ?cfg = "(oauth2Config p scope)\<lparr>oc_RedirectURL := redirect_uri bound\<rparr>"
  assume a: "codeChallengeMethod p = Inr ''S256''" "nt_Listen nt port w = (Inr (Some bound), w1)"
    "nt_GenerateVerifier nt w1 = (verifier, w2)" "randomState nt w2 = (Inr state, w3)" "randomState nt w3 = (Inr nonce, w4)"
    and auth: "authorize nt p ?cfg bound verifier state nonce br pr hint w4 = (Inr code, w5)"
    and ex: "exchange_code nt p ?cfg verifier nonce extra code w5 = (Inr res, w')"
  obtain assertion w6 tok w7 where
    e: "nt_Exchange nt ?cfg code ((''code_verifier'', verifier) # assertion @ extra_opts extra) w6 = (Inr tok, w7)"
      "toResult nt p tok nonce w7 = (Inr res, w')"
    by (rule exchange_codeE [OF ex])
  have "nonce \<noteq> []" by (rule randomState_ne [OF assms(1) a(5)])
  then have "r_IDToken res \<noteq> [] \<longrightarrow> nt_Verify nt (p_upstream p) (p_ClientID p) (r_IDToken res) w7 = (Inr nonce, w')"
    using toResult_IDToken [OF e(2)] by blast
  with a authorize_await [OF auth] e(1) show ?thesis by blast
qed

section \<open>An issuer for the examples\<close>

text \<open>The world counts the calls of the random source. The browser is redirected with the state it was given.\<close>

definition demo_endpoint :: endpoint where
  "demo_endpoint = \<lparr>ep_AuthURL = ''https://i/a'', ep_DeviceAuthURL = [], ep_TokenURL = ''https://i/t'', ep_AuthStyle = AuthStyleAutoDetect\<rparr>"

definition demo_token :: token where
  "demo_token = \<lparr>tk_AccessToken = ''at'', tk_TokenType = ''Bearer'', tk_RefreshToken = ''rt'', tk_Expiry = Time 5 0,
     tk_Extra = (\<lambda>k. if k = ''id_token'' then Some (JStr ''jwt'') else None)\<rparr>"

definition demo_state :: "nat \<Rightarrow> string" where
  "demo_state n = b64 b64_url [] (replicate 24 (char_of n))"

definition demo_net :: "nat net" where
  "demo_net = \<lparr>nt_http = (\<lambda>_ w. (Inr \<lparr>rs_StatusCode = 200, rs_Body = ''{\"access_token\":\"at\"}'', rs_BodyErr = None\<rparr>, w)),
     nt_now = (\<lambda>_. Time 1000 0), nt_rand = (\<lambda>n w. (Inr (replicate n (char_of w)), Suc w)),
     nt_NewProvider = (\<lambda>_ w. (Inr \<lparr>up_Endpoint = demo_endpoint, up_rawClaims = ''{}''\<rparr>, w)),
     nt_Verify = (\<lambda>_ _ _ w. (Inr (demo_state 1), w)), nt_NewSigner = (\<lambda>_ _ _. None), nt_Serialize = (\<lambda>_ _ _ _. Inr ''jws''),
     nt_Token = (\<lambda>_ _ w. (Inr demo_token, w)), nt_GenerateVerifier = (\<lambda>w. (''verifier'', w)),
     nt_S256Challenge = (\<lambda>v. v), nt_AuthCodeURL = (\<lambda>_ s _. s), nt_Exchange = (\<lambda>_ _ _ w. (Inr demo_token, w)),
     nt_DeviceAuth = (\<lambda>_ _ w. (Inl (External []), w)), nt_DeviceAccessToken = (\<lambda>_ _ _ _ w. (Inr demo_token, w)),
     nt_hasDeadline = False, nt_Listen = (\<lambda>_ w. (Inr (Some 4711), w)), nt_Close = (\<lambda>w. w),
     nt_wait = (\<lambda>_ _ w. ([''code=early'', ''code=c&state='' @ demo_state 0], w))\<rparr>"

definition demo_provider :: provider where
  "demo_provider = \<lparr>p_Issuer = ''https://i'', p_ClientID = ''cli'', p_Audience = [],
     p_upstream = \<lparr>up_Endpoint = demo_endpoint, up_rawClaims = ''{}''\<rparr>, p_claims = no_claims, p_clientAuth = no_client_auth\<rparr>"

lemma demo_rand: "rand_ok demo_net"
  by (simp add: rand_ok_def demo_net_def)

lemma demo_random: "randomState demo_net n = (Inr (demo_state n), Suc n)"
  by (simp add: randomState_def demo_net_def demo_state_def)

lemma demo_callback: "awaitCallback demo_net timeout 4711 (demo_state 0) w = (Inr ''c'', w)"
proof -
  have "first_result (demo_state 0) [''code=early'', ''code=c&state='' @ demo_state 0] = Some (Inr ''c'')" by code_simp
  then show ?thesis by (simp add: awaitCallback_def demo_net_def)
qed

lemma demo_login:
  "AuthCodeLogin demo_net demo_provider ''openid'' 0 None None None [] 0 =
     (Inr (zero_result\<lparr>r_AccessToken := ''at'', r_RefreshToken := ''rt'', r_Expiry := Time 5 0, r_IDToken := ''jwt''\<rparr>), 2)"
proof -
  have *: "nt_Listen demo_net 0 0 = (Inr (Some 4711), 0)" "nt_GenerateVerifier demo_net w = (''verifier'', w)"
    "nt_Exchange demo_net cfg code opts w = (Inr demo_token, w)" "nt_Verify demo_net up c raw w = (Inr (demo_state 1), w)"
    for w cfg code opts up c raw by (simp_all add: demo_net_def)
  show ?thesis
    by (simp add: AuthCodeLogin_def Provider_SupportsGrant_def codeChallengeMethod_def demo_random * authorize_def
        open_url_def show_hint_def demo_callback exchange_code_def clientAssertionOptions_def toResult_def base_result_def
        demo_provider_def no_claims_def no_client_auth_def zero_result_def json_string_def demo_token_def)
qed

lemma authcode_binding_witness:
  "\<exists>state nonce code timeout v w3 w4 w5 w7. randomState demo_net 0 = (Inr state, w3) \<and> randomState demo_net w3 = (Inr nonce, w4) \<and>
     awaitCallback demo_net timeout 4711 state v = (Inr code, w5) \<and>
     nt_Verify demo_net (p_upstream demo_provider) ''cli'' ''jwt'' w7 = (Inr nonce, 2)"
proof -
  have "nt_Listen demo_net 0 0 = (Inr (Some 4711), 0)" "nt_GenerateVerifier demo_net 0 = (''verifier'', 0)" "p_ClientID demo_provider = ''cli''"
    by (simp_all add: demo_net_def demo_provider_def)
  then show ?thesis
    using authcode_binding [OF demo_rand demo_login] by fastforce
qed

section \<open>Times\<close>

text \<open>
  The assertion minted for a device login lives for a positive time of at most fifteen minutes:
  exactly until the device code expires when that is known, not past, and within the cap.
\<close>

theorem device_assertion_bounds:
  "0 < deviceAssertionLifetime now expiry \<and> deviceAssertionLifetime now expiry \<le> 15 * 60 * second \<and>
   (\<not> IsZero expiry \<and> 0 < ns expiry - ns now \<and> ns expiry - ns now \<le> 15 * 60 * second \<longrightarrow>
      deviceAssertionLifetime now expiry = ns expiry - ns now)"
  by (auto simp: deviceAssertionLifetime_def clientAssertionLifetime_def maxDeviceAssertionLifetime_def sat64_def Let_def)

lemma device_assertion_bounds_witness:
  "deviceAssertionLifetime (Time 1000 0) (Time (1000 + 600 * second) 0) = 600 * second"
  using device_assertion_bounds [of "Time 1000 0" "Time (1000 + 600 * second) 0"] by (simp add: IsZero_def)

lemma wrap64_id: "- (2 ^ 63) \<le> n \<Longrightarrow> n < 2 ^ 63 \<Longrightarrow> wrap64 n = n"
  by (simp add: wrap64_def)

lemma wrap64_over:
  assumes "2 ^ 63 \<le> n" "n < 2 ^ 64"
  shows "wrap64 n = n - 2 ^ 64"
proof -
  have "(n + 2 ^ 63) mod 2 ^ 64 = (n + 2 ^ 63 - 2 ^ 64) mod 2 ^ 64"
    by (simp only: minus_mod_self2)
  also have "\<dots> = n + 2 ^ 63 - 2 ^ 64"
    using assms by (intro mod_pos_pos_trivial) simp_all
  finally show ?thesis by (simp add: wrap64_def)
qed

text \<open>
  C38: A positive \<^verbatim>\<open>expires_in\<close> moves the token's expiry that many seconds ahead as long as it is at
  most 9223372036 (292 years); from the next second on the Duration overflows and the token comes
  out as already expired.
\<close>

theorem expiry_overflow:
  assumes "0 < tr_ExpiresIn tr"
  shows "(tr_ExpiresIn tr \<le> 9223372036 \<longrightarrow> ns (tk_Expiry (token_of now tr raw)) = ns now + tr_ExpiresIn tr * second) \<and>
    (9223372037 \<le> tr_ExpiresIn tr \<and> tr_ExpiresIn tr \<le> 18446744073 \<longrightarrow> ns (tk_Expiry (token_of now tr raw)) < ns now)"
proof (intro conjI impI)
  assume "tr_ExpiresIn tr \<le> 9223372036"
  then have "seconds (tr_ExpiresIn tr) = tr_ExpiresIn tr * second"
    using assms unfolding seconds_def by (intro wrap64_id) simp_all
  then show "ns (tk_Expiry (token_of now tr raw)) = ns now + tr_ExpiresIn tr * second"
    using assms by (simp add: token_of_def Add_def)
next
  assume "9223372037 \<le> tr_ExpiresIn tr \<and> tr_ExpiresIn tr \<le> 18446744073"
  then have "seconds (tr_ExpiresIn tr) = tr_ExpiresIn tr * second - 2 ^ 64" "tr_ExpiresIn tr * second < 2 ^ 64"
    unfolding seconds_def by (simp_all add: wrap64_over)
  then show "ns (tk_Expiry (token_of now tr raw)) < ns now"
    using assms by (simp add: token_of_def Add_def)
qed

lemma expiry_overflow_witness:
  "ns (tk_Expiry (token_of (Time 7 0) (zero_response\<lparr>tr_ExpiresIn := 3600\<rparr>) [])) = 7 + 3600 * second \<and>
   ns (tk_Expiry (token_of (Time 7 0) (zero_response\<lparr>tr_ExpiresIn := 9223372037\<rparr>) [])) < 7"
  using expiry_overflow [of "zero_response\<lparr>tr_ExpiresIn := 3600\<rparr>" "Time 7 0" "[]"]
    expiry_overflow [of "zero_response\<lparr>tr_ExpiresIn := 9223372037\<rparr>" "Time 7 0" "[]"] by simp

section \<open>What is posted\<close>

lemma vals_list_add_all: "vals_list (add_all k xs v) k' = vals_list v k' @ (if k' = k then xs else [])"
  unfolding add_all_def by (induction xs arbitrary: v) (simp_all add: vals_list_Add)

lemma distinct_add_all: "distinct (map fst v) \<Longrightarrow> distinct (map fst (add_all k xs v))"
  unfolding add_all_def by (induction xs arbitrary: v) simp_all

lemma vals_list_add_extra:
  "vals_list (add_extra ex v) k = vals_list v k @ concat (map snd (filter (\<lambda>p. fst p = k) ex))"
  unfolding add_extra_def by (induction ex arbitrary: v) (auto simp: vals_list_add_all)

lemma distinct_add_extra: "distinct (map fst v) \<Longrightarrow> distinct (map fst (add_extra ex v))"
  unfolding add_extra_def by (induction ex arbitrary: v) (auto simp: distinct_add_all)

lemma vals_list_set_nonempty:
  "vals_list (set_nonempty k x v) k' = (if k' = k \<and> x \<noteq> [] then [x] else vals_list v k')"
  by (simp add: set_nonempty_def vals_list_Set)

lemma distinct_set_nonempty: "distinct (map fst v) \<Longrightarrow> distinct (map fst (set_nonempty k x v))"
  by (simp add: set_nonempty_def)

lemma distinct_exchange_form: "distinct (map fst (exchange_form p scope st stt rtt rs ex))"
  unfolding exchange_form_def
  by (intro distinct_add_extra distinct_add_all distinct_set_nonempty) simp

lemma distinct_authenticate:
  "authenticate nt p v w = (Inr v', w') \<Longrightarrow> distinct (map fst v) \<Longrightarrow> distinct (map fst v')"
  by (auto simp: authenticate_def Let_def split: if_splits prod.splits sum.splits)

lemma token_request_body:
  assumes "token_request p url v = Inr req" "distinct (map fst v)"
  shows "rq_Method req = ''POST''" "vals_list (parseQuery (rq_Body req)) k = vals_list v k"
    "map_of (rq_Header req) ''Content-Type'' = Some ''application/x-www-form-urlencoded''"
    "map_of (rq_Header req) ''Authorization'' =
       (if ca_method (p_clientAuth p) = ''client_secret_basic''
        then Some (''Basic '' @ b64 b64_std ''='' (p_ClientID p @ '':'' @ ca_secret (p_clientAuth p))) else None)"
  using assms by (auto simp: token_request_def NewRequest_def set_header_def SetBasicAuth_def Let_def update_conv'
      query_roundtrip split: sum.splits)

text \<open>The names of the form this package itself sets.\<close>

definition form_names :: "string list" where
  "form_names = [''grant_type'', ''subject_token'', ''subject_token_type'', ''audience'', ''scope'', ''requested_token_type'',
     ''resource'', ''client_id'', ''client_secret'', ''client_assertion'', ''client_assertion_type'']"

definition optional :: "string \<Rightarrow> string list" where
  "optional x = (if x = [] then [] else [x])"

lemma extra_absent: "k \<notin> fst ` set ex \<Longrightarrow> concat (map snd (filter (\<lambda>p. fst p = k) ex)) = []"
  by (induction ex) auto

lemma extra_present: "distinct (map fst ex) \<Longrightarrow> (k, vs) \<in> set ex \<Longrightarrow> concat (map snd (filter (\<lambda>p. fst p = k) ex)) = vs"
  by (induction ex) (auto simp: extra_absent rev_image_eqI)

lemma exchange_form_values:
  assumes "set (map fst ex) \<inter> set form_names = {}" "v = exchange_form p scope st stt rtt rs ex"
  shows "vals_list v ''grant_type'' = [tokenExchangeGrantType]" "vals_list v ''subject_token'' = [st]"
    "vals_list v ''subject_token_type'' = [stt]" "vals_list v ''audience'' = optional (p_Audience p)"
    "vals_list v ''scope'' = optional scope" "vals_list v ''requested_token_type'' = optional rtt"
    "vals_list v ''resource'' = rs" "vals_list v ''client_secret'' = []"
proof -
  have "k \<in> set form_names \<Longrightarrow> k \<notin> fst ` set ex" for k using assms(1) by auto
  then have *: "k \<in> set form_names \<Longrightarrow> concat (map snd (filter (\<lambda>p. fst p = k) ex)) = []" for k
    by (rule extra_absent)
  show "vals_list v ''grant_type'' = [tokenExchangeGrantType]" "vals_list v ''subject_token'' = [st]"
    "vals_list v ''subject_token_type'' = [stt]" "vals_list v ''audience'' = optional (p_Audience p)"
    "vals_list v ''scope'' = optional scope" "vals_list v ''requested_token_type'' = optional rtt"
    "vals_list v ''resource'' = rs" "vals_list v ''client_secret'' = []"
    unfolding assms(2) exchange_form_def
    by (simp_all add: vals_list_add_extra vals_list_add_all vals_list_set_nonempty * form_names_def optional_def)
      (simp_all add: vals_list_def)
qed

lemma authenticate_values:
  assumes "authenticate nt p v w = (Inr v', w')"
  shows "k \<notin> {''client_id'', ''client_secret'', ''client_assertion'', ''client_assertion_type''} \<Longrightarrow> vals_list v' k = vals_list v k"
    "vals_list v' ''client_id'' = [p_ClientID p]"
    "vals_list v' ''client_secret'' =
       (if ca_method (p_clientAuth p) = ''client_secret_post'' then [ca_secret (p_clientAuth p)] else vals_list v ''client_secret'')"
  using assms by (auto simp: authenticate_def Let_def vals_list_Set split: if_splits prod.splits sum.splits)

text \<open>
  C21: The body of a token-exchange request, decoded the way a server decodes a form, holds the grant
  type, the subject token with its type, exactly the optional parameters that were asked for, all
  resources in their order, the client and every extra field; the secret is in the body for
  \<^verbatim>\<open>client_secret_post\<close>, and in the header, not form-encoded, for \<^verbatim>\<open>client_secret_basic\<close> only.
\<close>

theorem exchange_request:
  assumes ex: "set (map fst ex) \<inter> set form_names = {}" "distinct (map fst ex)"
    and auth: "authenticate nt p (exchange_form p scope st stt rtt rs ex) w = (Inr v, w1)"
    and req: "token_request p (tokenEndpoint p) v = Inr req"
  shows "(let q = vals_list (parseQuery (rq_Body req)); ca = p_clientAuth p in
    q ''grant_type'' = [tokenExchangeGrantType] \<and> q ''subject_token'' = [st] \<and> q ''subject_token_type'' = [stt] \<and>
    q ''audience'' = optional (p_Audience p) \<and> q ''scope'' = optional scope \<and>
    q ''requested_token_type'' = optional rtt \<and> q ''resource'' = rs \<and> q ''client_id'' = [p_ClientID p] \<and>
    (\<forall>(k, xs) \<in> set ex. q k = xs) \<and>
    q ''client_secret'' = (if ca_method ca = ''client_secret_post'' then [ca_secret ca] else []) \<and>
    map_of (rq_Header req) ''Authorization'' = (if ca_method ca = ''client_secret_basic''
      then Some (''Basic '' @ b64 b64_std ''='' (p_ClientID p @ '':'' @ ca_secret ca)) else None))"
proof -
  let ?f = "exchange_form p scope st stt rtt rs ex"
  have d: "distinct (map fst v)"
    by (rule distinct_authenticate [OF auth distinct_exchange_form])
  note body = token_request_body [OF req d]
  note keep = authenticate_values [OF auth]
  note form = exchange_form_values [OF ex(1) refl, of p scope st stt rtt rs]
  have extra: "vals_list v k = xs" if "(k, xs) \<in> set ex" for k xs
  proof -
    have out: "k \<notin> set form_names" using ex(1) that by force
    have "vals_list ?f k = xs"
      using extra_present [OF ex(2) that] out
      by (simp add: exchange_form_def vals_list_add_extra vals_list_add_all vals_list_set_nonempty form_names_def)
        (simp add: vals_list_def)
    then show ?thesis using out by (subst keep(1)) (auto simp: form_names_def)
  qed
  have "\<forall>(k, xs) \<in> set ex. vals_list v k = xs" using extra by blast
  then show ?thesis
    unfolding Let_def body(2,4) keep(2,3) form(8) by (simp add: keep(1) form(1-7))
qed

text \<open>A confidential client of the example issuer, and the form of one exchange.\<close>

definition basic_provider :: provider where
  "basic_provider = demo_provider\<lparr>p_Audience := ''api'',
     p_clientAuth := no_client_auth\<lparr>ca_method := ''client_secret_basic'', ca_secret := ''a+b''\<rparr>\<rparr>"

definition basic_form :: vals where
  "basic_form = exchange_form basic_provider ''openid'' ''tok en'' ''t'' [] [''r1'', ''r2''] [(''actor'', [''x''])]"

lemma basic_auth: "authenticate nt basic_provider v w = (Inr (vals_Set ''client_id'' ''cli'' v), w)"
  by (simp add: authenticate_def basic_provider_def demo_provider_def)

lemma basic_request: "\<exists>req. token_request basic_provider (tokenEndpoint basic_provider) v = Inr req"
proof -
  have "tokenEndpoint basic_provider = ''https://i/t''"
    by (simp add: tokenEndpoint_def basic_provider_def demo_provider_def demo_endpoint_def)
  moreover have "\<not> is_err (url_Parse ''https://i/t'')" by code_simp
  ultimately show ?thesis
    by (cases "url_Parse ''https://i/t''") (simp_all add: token_request_def NewRequest_def Let_def)
qed

lemma exchange_request_witness:
  "\<exists>req. token_request basic_provider (tokenEndpoint basic_provider) (vals_Set ''client_id'' ''cli'' basic_form) = Inr req \<and>
     vals_list (parseQuery (rq_Body req)) ''resource'' = [''r1'', ''r2''] \<and>
     vals_list (parseQuery (rq_Body req)) ''actor'' = [''x''] \<and> vals_list (parseQuery (rq_Body req)) ''requested_token_type'' = [] \<and>
     map_of (rq_Header req) ''Authorization'' = Some (''Basic '' @ b64 b64_std ''='' ''cli:a+b'')"
proof -
  obtain req where req: "token_request basic_provider (tokenEndpoint basic_provider) (vals_Set ''client_id'' ''cli'' basic_form) = Inr req"
    using basic_request by blast
  have "set (map fst [(''actor'', [''x''])]) \<inter> set form_names = {}" "distinct (map fst [(''actor'', [''x''])])"
    by (simp_all add: form_names_def)
  from exchange_request [OF this basic_auth [of demo_net basic_form 0, unfolded basic_form_def] req [unfolded basic_form_def]] req
  show ?thesis
    by (simp add: Let_def optional_def) (simp add: basic_provider_def demo_provider_def)
qed

text \<open>
  C24: When the token endpoint answers a token exchange with a status outside 200 to 299 or with an
  error member, the exchange fails with that OAuth error, code, description and URI, still found under
  the wrapping, and it counts as a rejection of the client exactly for \<^verbatim>\<open>unauthorized_client\<close>.
\<close>

theorem exchange_rejected:
  assumes "authenticate nt p (exchange_form p scope st stt rtt rs ex) w = (Inr v, w1)"
    and "token_request p (tokenEndpoint p) v = Inr req" "nt_http nt req w1 = (Inr resp, w2)"
    and "read_limited (2 ^ 20) resp = Inr body" "Unmarshal_tokenResponse body = Some tr"
    and "rs_StatusCode resp < 200 \<or> 299 < rs_StatusCode resp \<or> tr_Error tr \<noteq> []"
  shows "\<exists>e. Provider_TokenExchange nt p scope st stt rtt rs ex w = (Inl e, w2) \<and>
    as_RetrieveError e = Some (RetrieveError (tr_Error tr) (tr_ErrorDescription tr) (tr_ErrorURI tr)) \<and>
    (isPerClientRejection e \<longleftrightarrow> tr_Error tr = ''unauthorized_client'')"
proof -
  have "read_token (nt_now nt w2) resp = Inl (RetrieveError (tr_Error tr) (tr_ErrorDescription tr) (tr_ErrorURI tr))"
    using assms(4-6) by (auto simp: read_token_def Let_def)
  then have "postTokenRequest nt p (tokenEndpoint p) (exchange_form p scope st stt rtt rs ex) w =
      (Inl (RetrieveError (tr_Error tr) (tr_ErrorDescription tr) (tr_ErrorURI tr)), w2)"
    using assms(1-3) by (simp add: postTokenRequest_def)
  then show ?thesis
    by (simp add: Provider_TokenExchange_def as_RetrieveError_def isPerClientRejection_def)
qed

lemma exchange_rejected_witness:
  "\<exists>e. Provider_TokenExchange (demo_net\<lparr>nt_http := (\<lambda>_ w. (Inr \<lparr>rs_StatusCode = 400,
      rs_Body = ''{\"error\":\"unauthorized_client\",\"error_description\":\"no\"}'', rs_BodyErr = None\<rparr>, Suc w))\<rparr>)
      basic_provider ''openid'' ''tok en'' ''t'' [] [''r1'', ''r2''] [(''actor'', [''x''])] 0 = (Inl e, 1) \<and>
    as_RetrieveError e = Some (RetrieveError ''unauthorized_client'' ''no'' []) \<and> isPerClientRejection e"
proof -
  let ?resp = "\<lparr>rs_StatusCode = 400, rs_Body = ''{\"error\":\"unauthorized_client\",\"error_description\":\"no\"}'', rs_BodyErr = None\<rparr>"
  let ?tr = "zero_response\<lparr>tr_Error := ''unauthorized_client'', tr_ErrorDescription := ''no''\<rparr>"
  let ?nt = "demo_net\<lparr>nt_http := (\<lambda>_ w. (Inr ?resp, Suc w))\<rparr>"
  obtain req where req: "token_request basic_provider (tokenEndpoint basic_provider) (vals_Set ''client_id'' ''cli'' basic_form) = Inr req"
    using basic_request by blast
  have un: "Unmarshal_tokenResponse (rs_Body ?resp) = Some ?tr" by code_simp
  have "read_limited (2 ^ 20) ?resp = Inr (rs_Body ?resp)" by (simp add: read_limited_def)
  from exchange_rejected [OF basic_auth [of ?nt basic_form 0, unfolded basic_form_def] req [unfolded basic_form_def] _ this un]
  show ?thesis by (simp add: zero_response_def)
qed

end
