(* ===== verification/MockProps.thy ===== *)
theory MockProps
  imports MockIssuer OidcProps
begin

text \<open>
  The client against the repository's own issuer: each client authentication method the client
  implements is accepted by the issuer that requires it, and a token exchange comes back with the
  tokens the issuer minted. Between them: forms, base64 and JSON lines, encoded by one side and decoded
  by the other.
\<close>

section \<open>Forms\<close>

lemma query_ok_Encode: "query_ok (Encode v)"
proof -
  have e: "CHR '';'' \<notin> set (pair_text p) \<and>
      (case Cut (CHR ''='') (pair_text p) of (k, x, _) \<Rightarrow>
        unescape k encodeQueryComponent \<noteq> None \<and> unescape x encodeQueryComponent \<noteq> None)" for p
    using escape_clean [of "fst p"] escape_clean [of "snd p"] by (simp add: pair_text_def Cut_append)
  have a: "list_all (\<lambda>s. CHR ''&'' \<notin> set s) (map pair_text ps)" for ps
    by (auto simp: list_all_iff pair_text_def escape_clean)
  show ?thesis
  proof (cases "encode_pairs v = []")
    case True
    then show ?thesis by (simp add: query_ok_def Encode_def)
  next
    case False
    then have "Split (CHR ''&'') (Encode v) = map pair_text (encode_pairs v)"
      unfolding Encode_def by (intro Split_Join a) simp
    then show ?thesis using e by (auto simp: query_ok_def list_all_iff)
  qed
qed

lemma parseQuery_Nil: "parseQuery [] = []"
  by (simp add: parseQuery_def add_query_def)

text \<open>An encoded form is at most three times as long as what it encodes, and its separators.\<close>

definition form_weight :: "vals \<Rightarrow> nat" where
  "form_weight v = sum_list (map (\<lambda>(k, xs). sum_list (map (\<lambda>x. 3 * (length k + length x) + 2) xs)) v)"

lemma length_escape: "length (escape s m) \<le> 3 * length s"
  by (induction s) (auto simp: escape_def escape_char_def)

lemma length_Join: "length (string_Join xs [c]) \<le> sum_list (map (\<lambda>x. length x + 1) xs)"
  by (induction xs "[c]" rule: string_Join.induct) auto

lemma form_weight_sorted: "form_weight (foldr insert_vals v []) = form_weight v"
proof -
  have "form_weight (insert_vals p m) = form_weight (p # m)" for p m
    by (induction m) (auto simp: form_weight_def)
  then show ?thesis by (induction v) (simp_all add: form_weight_def)
qed

lemma length_Encode: "length (Encode v) \<le> form_weight v"
proof -
  let ?w = "\<lambda>p. 3 * (length (fst p) + length (snd p)) + 2"
  have p: "length (pair_text p) + 1 \<le> ?w p" for p
    using length_escape [of "fst p" encodeQueryComponent] length_escape [of "snd p" encodeQueryComponent]
    by (simp add: pair_text_def)
  have "length (Encode v) \<le> sum_list (map (\<lambda>x. length x + 1) (map pair_text (encode_pairs v)))"
    unfolding Encode_def by (rule length_Join)
  also have "\<dots> \<le> sum_list (map ?w (encode_pairs v))"
    unfolding map_map o_def by (rule sum_list_mono) (rule p)
  also have "\<dots> = form_weight (foldr insert_vals v [])"
  proof -
    have "sum_list (map ?w (concat (map (\<lambda>(k, xs). map (\<lambda>x. (k, x)) xs) m))) = form_weight m" for m
      by (induction m) (auto simp: form_weight_def o_def)
    then show ?thesis by (simp add: encode_pairs_def)
  qed
  finally show ?thesis by (simp add: form_weight_sorted)
qed

lemma ParseForm_request:
  assumes "token_request p url v = Inr req" "u_RawQuery u = []" "length (Encode v) \<le> 10 * 2 ^ 20"
  shows "ParseForm req u = Some (parseQuery (Encode v))"
proof -
  have "rq_Method req = ''POST''" "rq_Body req = Encode v"
    "map_of (rq_Header req) ''Content-Type'' = Some ''application/x-www-form-urlencoded''"
    using assms(1) by (auto simp: token_request_def NewRequest_def set_header_def SetBasicAuth_def Let_def update_conv'
        split: sum.splits)
  moreover have "query_ok []" by (simp add: query_ok_def)
  ultimately show ?thesis
    using assms(2,3) by (simp add: ParseForm_def query_ok_Encode append_vals_def url_Query_def parseQuery_Nil)
qed

section \<open>Basic authentication\<close>

lemma b64_std_simps:
  assumes "n < 64"
  shows "unb64_char (b64_std n) = Some n" "b64_std n \<noteq> CHR ''=''" "byte (b64_std n) \<noteq> 10 \<and> byte (b64_std n) \<noteq> 13"
proof -
  show "unb64_char (b64_std n) = Some n"
    using assms by (auto simp: unb64_char_def b64_std_def Let_def)
  have b: "byte (b64_std n) \<noteq> 10 \<and> byte (b64_std n) \<noteq> 13 \<and> byte (b64_std n) \<noteq> 61"
    using assms by (auto simp: b64_std_def)
  then show "byte (b64_std n) \<noteq> 10 \<and> byte (b64_std n) \<noteq> 13" by simp
  show "b64_std n \<noteq> CHR ''=''" using b by auto
qed

lemma byte_bound: "byte c < 256"
  by simp

lemma two_bits: "x mod 4 * 16 + y div 16 < (64::nat)" if "y < 256"
proof -
  have "x mod 4 \<le> 3" "y div 16 \<le> 15" using that by simp_all
  then show ?thesis by linarith
qed

lemma four_bits: "x mod 16 * 4 + y div 64 < (64::nat)" if "y < 256"
proof -
  have "x mod 16 \<le> 15" "y div 64 \<le> 3" using that by simp_all
  then show ?thesis by linarith
qed

text \<open>The bits of a byte that a division leaves.\<close>

lemma byte_high:
  "byte c div 16 div 16 = 0" "byte c div 16 mod 16 = byte c div 16" "byte c div 64 div 4 = 0"
  "byte c div 64 mod 4 = byte c div 64"
proof -
  have "byte c div 16 < 16" "byte c div 64 < 4"
    using less_mult_imp_div_less [of "byte c" 16 16] less_mult_imp_div_less [of "byte c" 4 64] byte_bound [of c] by simp_all
  then show "byte c div 16 div 16 = 0" "byte c div 16 mod 16 = byte c div 16" "byte c div 64 div 4 = 0"
    "byte c div 64 mod 4 = byte c div 64" by simp_all
qed

lemma b64_nat_bounds:
  "byte a div 4 < 64" "byte a mod 4 * 16 + byte b div 16 < 64" "byte b mod 16 * 4 + byte c div 64 < 64"
  "byte c mod 64 < 64" "byte a mod 4 * 16 < 64" "byte b mod 16 * 4 < 64"
proof -
  show "byte a div 4 < 64" using less_mult_imp_div_less [of "byte a" 64 4] byte_bound [of a] by simp
qed (use two_bits [OF byte_bound, of "byte a" b] four_bits [OF byte_bound, of "byte b" c]
    two_bits [of 0 "byte a"] four_bits [of 0 "byte b"] in simp_all)

lemma unb64_b64: "unb64 (b64 b64_std ''='' s) = Some s"
proof (induction b64_std "''=''" s rule: b64.induct)
  case (1 a b c s)
  then show ?case
    by (simp add: b64_std_simps b64_nat_bounds byte_high)
next
  case (2 a b)
  then show ?case by (simp add: b64_std_simps b64_nat_bounds byte_high)
next
  case (3 a)
  then show ?case by (simp add: b64_std_simps b64_nat_bounds byte_high)
qed simp

lemma b64_no_break: "c \<in> set (b64 b64_std ''='' s) \<Longrightarrow> byte c \<noteq> 10 \<and> byte c \<noteq> 13"
  by (induction b64_std "''=''" s rule: b64.induct) (auto simp: b64_std_simps(3) b64_nat_bounds)

lemma DecodeString_b64: "DecodeString (b64 b64_std ''='' s) = Some s"
proof -
  have "filter (\<lambda>c. byte c \<noteq> 10 \<and> byte c \<noteq> 13) (b64 b64_std ''='' s) = b64 b64_std ''='' s"
    using b64_no_break [of _ s] by (auto intro: filter_True)
  then show ?thesis by (simp add: DecodeString_def unb64_b64)
qed

lemma BasicAuth_SetBasicAuth:
  assumes "CHR '':'' \<notin> set user"
  shows "BasicAuth (SetBasicAuth user password rq) = Some (user, password)"
proof -
  have "map to_lower ''Basic '' = ''basic ''" by code_simp
  then show ?thesis
    using assms by (simp add: BasicAuth_def SetBasicAuth_def set_header_def update_conv' DecodeString_b64 Cut_append)
qed

section \<open>Authentication\<close>

text \<open>
  Client and issuer agree: the client is the issuer's, authenticates with the method the issuer
  requires, if any, with the secret it expects, or with a key whose signatures it can verify.
\<close>

definition signs_for :: "mock_issuer \<Rightarrow> 'w net \<Rightarrow> client_auth \<Rightarrow> bool" where
  "signs_for mi nt ca \<longleftrightarrow>
     (\<forall>n w. \<exists>b. nt_rand nt n w = (Inr b, w) \<and> length b = n) \<and>
     nt_NewSigner nt (ca_alg ca) (ca_signer ca) (ca_keyID ca) = None \<and>
     (\<forall>cl. jwt_Issuer cl = mockClientID \<and> jwt_Subject cl = mockClientID \<longrightarrow>
        (\<exists>a cl'. nt_Serialize nt (ca_alg ca) (ca_signer ca) (ca_keyID ca) cl = Inr a \<and> a \<noteq> [] \<and>
           mi_Claims mi a = Inr cl' \<and> jwt_Issuer cl' = jwt_Issuer cl \<and> jwt_Subject cl' = jwt_Subject cl \<and>
           jwt_ID cl' = jwt_ID cl \<and> mi_Validate mi cl' = None))"

definition agree :: "mock_issuer \<Rightarrow> 'w net \<Rightarrow> provider \<Rightarrow> bool" where
  "agree mi nt p \<longleftrightarrow>
     p_ClientID p = mockClientID \<and>
     (mi_RequireClientAuth mi = [] \<or> mi_RequireClientAuth mi = ca_method (p_clientAuth p)) \<and>
     ca_method (p_clientAuth p) \<in> {[], ''client_secret_basic'', ''client_secret_post'', ''private_key_jwt''} \<and>
     ca_secret (p_clientAuth p) = mi_ExpectedClientSecret mi \<and>
     (ca_method (p_clientAuth p) = ''private_key_jwt'' \<longrightarrow> signs_for mi nt (p_clientAuth p))"

lemma signs_for_assertion:
  assumes "signs_for mi nt (p_clientAuth p)" "p_ClientID p = mockClientID"
  obtains a cl where "signClientAssertion nt p lifetime w = (Inr a, w)" "a \<noteq> []" "mi_Claims mi a = Inr cl" "mi_Validate mi cl = None"
    "jwt_Issuer cl = p_ClientID p" "jwt_Subject cl = p_ClientID p" "jwt_ID cl \<noteq> []"
proof -
  let ?ca = "p_clientAuth p"
  obtain b where b: "nt_rand nt 24 w = (Inr b, w)" "length b = 24"
    using assms unfolding signs_for_def by blast
  let ?cl = "\<lparr>jwt_Issuer = p_ClientID p, jwt_Subject = p_ClientID p,
    jwt_Audience = [if ca_audience ?ca = [] then tokenEndpoint p else ca_audience ?ca],
    jwt_Expiry = Add (nt_now nt w) lifetime, jwt_IssuedAt = nt_now nt w, jwt_ID = b64 b64_url [] b\<rparr>"
  have "jwt_Issuer ?cl = mockClientID \<and> jwt_Subject ?cl = mockClientID" by (simp add: assms(2))
  then obtain a cl' where a: "nt_Serialize nt (ca_alg ?ca) (ca_signer ?ca) (ca_keyID ?ca) ?cl = Inr a" "a \<noteq> []"
    "mi_Claims mi a = Inr cl'" "jwt_Issuer cl' = jwt_Issuer ?cl" "jwt_Subject cl' = jwt_Subject ?cl"
    "jwt_ID cl' = jwt_ID ?cl" "mi_Validate mi cl' = None"
    using assms(1) unfolding signs_for_def by blast
  have "b64 b64_url [] b \<noteq> []" using b(2) by (intro b64_ne) auto
  moreover have "signClientAssertion nt p lifetime w = (Inr a, w)"
    using a(1) assms by (simp add: signClientAssertion_def randomState_def b(1) signs_for_def Let_def)
  ultimately show ?thesis using that [of a cl'] a by simp
qed

text \<open>The form the client posts is one the issuer authenticates.\<close>

lemma vals_Get_form:
  "distinct (map fst v) \<Longrightarrow> vals_Get (parseQuery (Encode v)) k = vals_Get v k"
  by (simp add: vals_Get_def query_roundtrip)

lemma checkClientAssertion_ok:
  assumes "vals_Get form ''client_assertion'' = a" "vals_Get form ''client_assertion_type'' = clientAssertionType"
    "a \<noteq> []" "mi_Claims mi a = Inr cl" "mi_Validate mi cl = None" "jwt_Issuer cl = c" "jwt_Subject cl = c"
    "jwt_ID cl \<noteq> []" "c = mockClientID"
  shows "checkClientAssertion mi form s = (True, s\<lparr>ms_assertionJTIs := ms_assertionJTIs s @ [jwt_ID cl]\<rparr>)"
  using assms by (simp add: checkClientAssertion_def clientAssertionType_def)

lemma authenticate_accepted:
  assumes "agree mi nt p" "distinct (map fst v)"
  obtains v' where "authenticate nt p v w = (Inr v', w)"
    "\<And>req url s. token_request p url v' = Inr req \<Longrightarrow>
       \<exists>jtis. checkClientAuth mi req (parseQuery (Encode v')) s = (True, s\<lparr>ms_assertionJTIs := ms_assertionJTIs s @ jtis\<rparr>)"
proof -
  let ?v = "vals_Set ''client_id'' (p_ClientID p) v"
  note ag = assms(1) [unfolded agree_def] and goal = that
  let ?ok = "\<lambda>u. \<forall>req url s. token_request p url u = Inr req \<longrightarrow>
    (\<exists>jtis. checkClientAuth mi req (parseQuery (Encode u)) s = (True, s\<lparr>ms_assertionJTIs := ms_assertionJTIs s @ jtis\<rparr>))"
  have plain: "?ok u" if chk: "\<And>req url s. token_request p url u = Inr req \<Longrightarrow> checkClientAuth mi req (parseQuery (Encode u)) s = (True, s)" for u
  proof (intro allI impI exI [of _ "[]"])
    show "checkClientAuth mi req (parseQuery (Encode u)) s = (True, s\<lparr>ms_assertionJTIs := ms_assertionJTIs s @ []\<rparr>)"
      if "token_request p url u = Inr req" for req url s
      using chk [OF that] by simp
  qed
  have fin: thesis if a: "authenticate nt p v w = (Inr u, w)" and ok: "?ok u" for u
    by (rule goal [OF a]) (use ok in blast)
  consider (none) "ca_method (p_clientAuth p) = []" | (basic) "ca_method (p_clientAuth p) = ''client_secret_basic''"
    | (post) "ca_method (p_clientAuth p) = ''client_secret_post''" | (jwt) "ca_method (p_clientAuth p) = ''private_key_jwt''"
    using ag by blast
  then show ?thesis
  proof cases
    case none
    then have "?ok ?v" using ag by (intro plain) (simp add: checkClientAuth_def)
    then show ?thesis by (rule fin [rotated]) (simp add: authenticate_def none)
  next
    case basic
    have "BasicAuth req = Some (mockClientID, mi_ExpectedClientSecret mi)" if "token_request p url ?v = Inr req" for req url
    proof -
      have "CHR '':'' \<notin> set mockClientID" by (simp add: mockClientID_def)
      then show ?thesis
        using that basic ag by (auto simp: token_request_def Let_def BasicAuth_SetBasicAuth split: sum.splits)
    qed
    then have "?ok ?v" using ag basic by (intro plain) (auto simp: checkClientAuth_def)
    then show ?thesis by (rule fin [rotated]) (simp add: authenticate_def basic)
  next
    case post
    let ?w = "vals_Set ''client_secret'' (ca_secret (p_clientAuth p)) ?v"
    have "distinct (map fst ?w)" using assms(2) by simp
    then have "vals_Get (parseQuery (Encode ?w)) ''client_id'' = mockClientID"
      "vals_Get (parseQuery (Encode ?w)) ''client_secret'' = mi_ExpectedClientSecret mi"
      using ag by (simp_all add: vals_Get_form vals_Get_Set)
    then have "?ok ?w" using ag post by (intro plain) (auto simp: checkClientAuth_def)
    then show ?thesis by (rule fin [rotated]) (simp add: authenticate_def post)
  next
    case jwt
    then have "signs_for mi nt (p_clientAuth p)" "p_ClientID p = mockClientID" using ag by simp_all
    then obtain a cl where a: "signClientAssertion nt p clientAssertionLifetime w = (Inr a, w)" "a \<noteq> []"
      "mi_Claims mi a = Inr cl" "mi_Validate mi cl = None" "jwt_Issuer cl = p_ClientID p" "jwt_Subject cl = p_ClientID p"
      "jwt_ID cl \<noteq> []" by (rule signs_for_assertion)
    let ?w = "vals_Set ''client_assertion'' a (vals_Set ''client_assertion_type'' clientAssertionType ?v)"
    have "distinct (map fst ?w)" using assms(2) by simp
    then have g: "vals_Get (parseQuery (Encode ?w)) ''client_assertion'' = a"
      "vals_Get (parseQuery (Encode ?w)) ''client_assertion_type'' = clientAssertionType"
      by (simp_all add: vals_Get_form vals_Get_Set)
    have asserted: "checkClientAssertion mi (parseQuery (Encode ?w)) s =
        (True, s\<lparr>ms_assertionJTIs := ms_assertionJTIs s @ [jwt_ID cl]\<rparr>)" for s
      by (rule checkClientAssertion_ok [OF g a(2-7)]) (use ag in simp)
    then have "?ok ?w"
    proof (cases "mi_RequireClientAuth mi = []")
      case True
      then show ?thesis by (intro plain) (simp add: checkClientAuth_def)
    next
      case False
      then have "checkClientAuth mi req form s = checkClientAssertion mi form s" for req form s
        using ag jwt by (simp add: checkClientAuth_def)
      then show ?thesis using asserted by auto
    qed
    then show ?thesis by (rule fin [rotated]) (simp add: authenticate_def jwt a(1))
  qed
qed

section \<open>The minted tokens\<close>

text \<open>An exchange comes with the type of the issued token, the other grants without.\<close>

definition type_member :: "string option \<Rightarrow> jmap" where
  "type_member issued = (case issued of None \<Rightarrow> [] | Some s \<Rightarrow> [(''issued_token_type'', JStr s)])"

definition minted :: "mock_issuer \<Rightarrow> nat \<Rightarrow> string option \<Rightarrow> tokenResponse" where
  "minted mi seq issued = zero_response\<lparr>tr_AccessToken := ''access-token-'' @ itoa seq, tr_TokenType := ''Bearer'',
     tr_RefreshToken := (if mi_OmitRefreshToken mi then [] else ''refresh-token-'' @ itoa seq), tr_ExpiresIn := 3600,
     tr_IssuedTokenType := (case issued of None \<Rightarrow> [] | Some s \<Rightarrow> s)\<rparr>"

definition issued_doc :: "mock_issuer \<Rightarrow> nat \<Rightarrow> string option \<Rightarrow> jmap" where
  "issued_doc mi seq issued = success_doc mi seq None (type_member issued)"

lemma issued_order:
  "sort_keys [(''access_token'', a), (''token_type'', b), (''expires_in'', c), (''refresh_token'', d), (''issued_token_type'', e)] =
    [(''access_token'', a), (''expires_in'', c), (''issued_token_type'', e), (''refresh_token'', d), (''token_type'', b)]"
  "sort_keys [(''access_token'', a), (''token_type'', b), (''expires_in'', c), (''issued_token_type'', e)] =
    [(''access_token'', a), (''expires_in'', c), (''issued_token_type'', e), (''token_type'', b)]"
  "sort_keys [(''access_token'', a), (''token_type'', b), (''expires_in'', c), (''refresh_token'', d)] =
    [(''access_token'', a), (''expires_in'', c), (''refresh_token'', d), (''token_type'', b)]"
  "sort_keys [(''access_token'', a), (''token_type'', b), (''expires_in'', c)] =
    [(''access_token'', a), (''expires_in'', c), (''token_type'', b)]"
  by code_simp+

lemma issued_doc_eq:
  "issued_doc mi seq issued = [(''access_token'', JStr (''access-token-'' @ itoa seq)), (''token_type'', JStr ''Bearer''), (''expires_in'', JNum ''3600'')] @
        (if mi_OmitRefreshToken mi then [] else [(''refresh_token'', JStr (''refresh-token-'' @ itoa seq))]) @
        type_member issued"
proof -
  have "json_int 3600 = JNum ''3600''" by (simp add: json_int_def int_text_def itoa.simps digit_def) code_simp
  then show ?thesis by (simp add: issued_doc_def success_doc_def type_member_def split: option.split)
qed

definition issued_members :: "mock_issuer \<Rightarrow> nat \<Rightarrow> string option \<Rightarrow> jmap" where
  "issued_members mi seq issued =
     [(''access_token'', JStr (''access-token-'' @ itoa seq)), (''expires_in'', JNum ''3600'')] @ type_member issued @
     (if mi_OmitRefreshToken mi then [] else [(''refresh_token'', JStr (''refresh-token-'' @ itoa seq))]) @
     [(''token_type'', JStr ''Bearer'')]"

lemma issued_canonical: "canonical (JObj (issued_doc mi seq issued)) = JObj (issued_members mi seq issued)"
  by (simp add: issued_doc_eq issued_members_def type_member_def issued_order split: option.split)

lemma issued_wf: "pred_option utf8_valid issued \<Longrightarrow> wf_json (canonical (JObj (issued_doc mi seq issued)))"
proof -
  assume u: "pred_option utf8_valid issued"
  have n: "number ''3600'' = Some (''3600'', [])" by code_simp
  have v: "utf8_valid ''access_token''" "utf8_valid ''token_type''" "utf8_valid ''expires_in''"
    "utf8_valid ''refresh_token''" "utf8_valid ''issued_token_type''" "utf8_valid ''Bearer''"
    by (rule ascii_utf8_valid; code_simp)+
  have "utf8_valid (''access-token-'' @ itoa seq)" "utf8_valid (''refresh-token-'' @ itoa seq)"
    by (rule ascii_utf8_valid; simp add: itoa_ascii)+
  with n v u have "wf_json (JObj (issued_doc mi seq issued))"
    by (cases issued) (simp_all add: issued_doc_eq type_member_def)
  then show ?thesis by (rule canonical_wf)
qed

lemma issued_keys: "fst ` set (issued_members mi seq issued) \<subseteq> set response_fields"
  by (cases issued) (simp_all add: issued_members_def response_fields_def type_member_def)

lemma issued_parse:
  assumes "pred_option utf8_valid issued"
  shows "json_parse (json_text (canonical (JObj (issued_doc mi seq issued))) @ [CHR 0x0A]) = Some (JObj (issued_members mi seq issued))"
  by (rule json_line_roundtrip [OF issued_wf [OF assms], THEN trans]) (simp only: issued_canonical)

lemma issued_Unmarshal:
  assumes "pred_option utf8_valid issued"
  shows "Unmarshal_tokenResponse (json_text (canonical (JObj (issued_doc mi seq issued))) @ [CHR 0x0A]) = Some (minted mi seq issued)"
proof -
  have n: "json_int64 ''3600'' = Some 3600" by code_simp
  have f: "set_response_field ''access_token'' (JStr s) r = Some (r\<lparr>tr_AccessToken := s\<rparr>)"
    "set_response_field ''expires_in'' (JNum ''3600'') r = Some (r\<lparr>tr_ExpiresIn := 3600\<rparr>)"
    "set_response_field ''issued_token_type'' (JStr s) r = Some (r\<lparr>tr_IssuedTokenType := s\<rparr>)"
    "set_response_field ''refresh_token'' (JStr s) r = Some (r\<lparr>tr_RefreshToken := s\<rparr>)"
    "set_response_field ''token_type'' (JStr s) r = Some (r\<lparr>tr_TokenType := s\<rparr>)" for s r
    by (simp_all add: set_response_field_def struct_field_def response_fields_def set_response_string_def n)
  show ?thesis
    unfolding Unmarshal_tokenResponse_def issued_parse [OF assms] issued_members_def type_member_def
    by (simp add: f minted_def zero_response_def split: option.split)
qed

text \<open>Members that the response's struct has are not extensions.\<close>

lemma keys_any: "map fst (fst (any_members ms)) = map fst ms"
  by (induction ms rule: any_value_any_values_any_members.induct(3) [where P = "\<lambda>_. True" and Q = "\<lambda>_. True"])
    (auto split: prod.splits)

lemma keys_obj_map: "fst ` set (obj_map ms) = fst ` set ms"
proof -
  have "fst ` set (foldl (\<lambda>m (k, v). AList.update k v m) m ms) = fst ` set m \<union> fst ` set ms" for m
  proof (induction ms arbitrary: m)
    case (Cons p ms)
    then show ?case by (cases p) (simp add: dom_update)
  qed simp
  from this [of "[]"] show ?thesis by (simp add: obj_map_def)
qed

lemma no_extensions:
  assumes "json_parse body = Some (JObj ms)" "fst ` set ms \<subseteq> set response_fields"
  shows "extensions body = []"
proof -
  obtain ms' ok where a: "any_members ms = (ms', ok)" by fastforce
  then have "fst ` set (obj_map ms') = fst ` set ms"
    using keys_any [of ms] keys_obj_map [of ms'] by (metis fst_conv set_map)
  with assms(2) have "\<forall>q\<in>set (obj_map ms'). fst q \<in> set response_fields" by blast
  then have "filter (\<lambda>(k, _). k \<notin> set response_fields) (obj_map ms') = []"
    unfolding filter_empty_conv by (simp only: split_beta not_not)
  then show ?thesis by (simp only: extensions_def unmarshal_map_def assms(1) a option.case json.case prod.case fst_conv)
qed

lemma issued_read:
  assumes "pred_option utf8_valid issued" "length (rs_Body rs) \<le> 2 ^ 20" "rs = json_answer 200 (issued_doc mi seq issued)"
  shows "read_token now rs = Inr (token_of now (minted mi seq issued) [])"
proof -
  let ?b = "json_text (canonical (JObj (issued_doc mi seq issued))) @ [CHR 0x0A]"
  have "extensions ?b = []"
    using no_extensions [OF issued_parse [OF assms(1)] issued_keys] .
  moreover have "read_limited (2 ^ 20) rs = Inr ?b" "rs_StatusCode rs = 200"
    using assms(2,3) by (auto simp: read_limited_def json_answer_def answer_def)
  moreover have "tr_Error (minted mi seq issued) = []" "tr_AccessToken (minted mi seq issued) \<noteq> []"
    by (simp_all add: minted_def zero_response_def)
  ultimately show ?thesis
    by (simp only: read_token_def sum.case issued_Unmarshal [OF assms(1)] Let_def option.case simp_thms) simp
qed

section \<open>A token exchange, end to end\<close>

definition issued_type :: "mock_issuer \<Rightarrow> string" where
  "issued_type mi = (if mi_IssuedTokenType mi = [] then ''urn:ietf:params:oauth:token-type:access_token'' else mi_IssuedTokenType mi)"

text \<open>The bodies of the exchange are within the limits of the two readers: 10 MB and 1 MB.\<close>

definition within_limits :: "mock_issuer \<Rightarrow> mock_state net \<Rightarrow> provider \<Rightarrow> vals \<Rightarrow> mock_state \<Rightarrow> bool" where
  "within_limits mi nt p v w \<longleftrightarrow>
     (case authenticate nt p v w of (Inr v', _) \<Rightarrow> length (Encode v') \<le> 10 * 2 ^ 20 | _ \<Rightarrow> True) \<and>
     length (rs_Body (json_answer 200 (issued_doc mi (Suc (ms_refreshSeq w)) (Some (issued_type mi))))) \<le> 2 ^ 20"

lemma token_request_URL: "token_request p url v = Inr req \<Longrightarrow> rq_URL req = url"
  by (auto simp: token_request_def NewRequest_def set_header_def SetBasicAuth_def Let_def split: sum.splits)

lemma token_request_ok: "url_Parse url = Inr u \<Longrightarrow> \<exists>req. token_request p url v = Inr req"
  by (simp add: token_request_def NewRequest_def Let_def)

text \<open>What the token endpoint does with the request of an exchange.\<close>

lemma handleToken_exchange:
  assumes "ParseForm req u = Some form" "checkClientAuth mi req form s = (True, s1)"
    and "vals_list form ''grant_type'' = [tokenExchangeGrantType]"
    and "vals_list form ''subject_token'' = [st]" "st \<noteq> []" "vals_list form ''subject_token_type'' = [stt]" "stt \<noteq> []"
    and "mi_TokenExchangeErr mi = []" "\<not> mi_IncludeIDToken mi"
  shows "handleToken mi req u s =
    (json_answer 200 (issued_doc mi (Suc (ms_refreshSeq s1)) (Some (issued_type mi))),
     s1\<lparr>ms_lastTokenExchangeForm := Some form, ms_refreshSeq := Suc (ms_refreshSeq s1)\<rparr>)"
proof -
  have g: "vals_Get form ''grant_type'' = tokenExchangeGrantType" "vals_Get form ''subject_token'' = st"
    "vals_Get form ''subject_token_type'' = stt"
    using assms(3,4,6) by (simp_all add: vals_Get_def)
  have "handleTokenExchange mi form s1 =
    (json_answer 200 (issued_doc mi (Suc (ms_refreshSeq s1)) (Some (issued_type mi))),
     s1\<lparr>ms_lastTokenExchangeForm := Some form, ms_refreshSeq := Suc (ms_refreshSeq s1)\<rparr>)"
    using assms(5,7,8,9)
    by (simp add: handleTokenExchange_def g writeTokenSuccess_def Let_def issued_doc_def issued_type_def type_member_def)
  then show ?thesis
    by (simp add: handleToken_def assms(1,2) Let_def g(1) tokenExchangeGrantType_def)
qed

lemma issued_utf8: "utf8_valid (mi_IssuedTokenType mi) \<Longrightarrow> utf8_valid (issued_type mi)"
proof -
  have "utf8_valid ''urn:ietf:params:oauth:token-type:access_token''" by (rule ascii_utf8_valid) code_simp
  then show "utf8_valid (mi_IssuedTokenType mi) \<Longrightarrow> utf8_valid (issued_type mi)" by (simp add: issued_type_def)
qed

lemma minted_result:
  "toResult nt p (token_of now (minted mi seq issued) []) [] w =
    (Inr (zero_result\<lparr>r_AccessToken := ''access-token-'' @ itoa seq,
       r_RefreshToken := (if mi_OmitRefreshToken mi then [] else ''refresh-token-'' @ itoa seq),
       r_Expiry := Add now (3600 * second), r_IssuedTokenType := (case issued of None \<Rightarrow> [] | Some s \<Rightarrow> s)\<rparr>), w)"
proof -
  have "seconds 3600 = 3600 * second" by (simp add: seconds_def wrap64_id)
  then show ?thesis
    by (simp add: toResult_def base_result_def token_of_def minted_def zero_response_def json_string_def Let_def)
qed

text \<open>
  C13: Against the repository's issuer, a client that authenticates with the method and the credentials
  the issuer requires, be it none, a secret in the header or in the body or a signed assertion, gets the
  next tokens of the issuer from a token exchange, expiring an hour later; the issuer has recorded the
  form it was sent, and nothing else of it has changed but the identifiers of the assertions.
\<close>

theorem exchange_served:
  assumes ag: "agree mi nt p" and http: "nt_http nt = mock_http mi"
    and url: "url_Parse (tokenEndpoint p) = Inr u" "u_Path u = ''/token''" "u_RawQuery u = []"
    and form: "st \<noteq> []" "stt \<noteq> []" "set (map fst ex) \<inter> set form_names = {}" "distinct (map fst ex)"
    and limits: "within_limits mi nt p (exchange_form p scope st stt rtt rs ex) w"
    and issuer: "mi_TokenExchangeErr mi = []" "\<not> mi_IncludeIDToken mi" "utf8_valid (mi_IssuedTokenType mi)"
  shows "\<exists>w' received jtis. Provider_TokenExchange nt p scope st stt rtt rs ex w =
      (Inr (zero_result\<lparr>r_AccessToken := ''access-token-'' @ itoa (Suc (ms_refreshSeq w)),
         r_RefreshToken := (if mi_OmitRefreshToken mi then [] else ''refresh-token-'' @ itoa (Suc (ms_refreshSeq w))),
         r_Expiry := Add (nt_now nt w') (3600 * second), r_IssuedTokenType := issued_type mi\<rparr>), w') \<and>
    w' = w\<lparr>ms_assertionJTIs := ms_assertionJTIs w @ jtis, ms_lastTokenExchangeForm := Some received,
      ms_refreshSeq := Suc (ms_refreshSeq w)\<rparr> \<and>
    vals_list received ''subject_token'' = [st] \<and> vals_list received ''subject_token_type'' = [stt] \<and>
    vals_list received ''audience'' = optional (p_Audience p) \<and> vals_list received ''scope'' = optional scope \<and>
    vals_list received ''requested_token_type'' = optional rtt \<and> vals_list received ''resource'' = rs \<and>
    (\<forall>(k, xs) \<in> set ex. vals_list received k = xs)"
proof -
  let ?f = "exchange_form p scope st stt rtt rs ex"
  let ?n = "Suc (ms_refreshSeq w)"
  obtain v where v: "authenticate nt p ?f w = (Inr v, w)"
    and accept: "\<And>req url s. token_request p url v = Inr req \<Longrightarrow>
      \<exists>jtis. checkClientAuth mi req (parseQuery (Encode v)) s = (True, s\<lparr>ms_assertionJTIs := ms_assertionJTIs s @ jtis\<rparr>)"
    using authenticate_accepted [OF ag distinct_exchange_form] by metis
  obtain req where req: "token_request p (tokenEndpoint p) v = Inr req"
    using token_request_ok [OF url(1)] by blast
  obtain jtis where ok: "checkClientAuth mi req (parseQuery (Encode v)) w = (True, w\<lparr>ms_assertionJTIs := ms_assertionJTIs w @ jtis\<rparr>)"
    using accept [OF req] by blast
  define w' where "w' = w\<lparr>ms_assertionJTIs := ms_assertionJTIs w @ jtis,
    ms_lastTokenExchangeForm := Some (parseQuery (Encode v)), ms_refreshSeq := ?n\<rparr>"
  have "length (Encode v) \<le> 10 * 2 ^ 20" using limits by (simp add: within_limits_def v)
  then have parsed: "ParseForm req u = Some (parseQuery (Encode v))" by (rule ParseForm_request [OF req url(3)])
  have "distinct (map fst v)" by (rule distinct_authenticate [OF v distinct_exchange_form])
  then have q: "vals_list (parseQuery (Encode v)) k = vals_list v k" for k by (rule query_roundtrip)
  have body: "rq_Body req = Encode v"
    using req by (auto simp: token_request_def NewRequest_def set_header_def SetBasicAuth_def Let_def split: sum.splits)
  note sent = exchange_request [OF form(3,4) v req, unfolded Let_def body]
  have "handleToken mi req u w = (json_answer 200 (issued_doc mi ?n (Some (issued_type mi))), w')"
    by (subst handleToken_exchange [OF parsed ok _ _ form(1) _ form(2) issuer(1,2)]) (use sent in \<open>simp_all add: w'_def\<close>)
  then have "nt_http nt req w = (Inr (json_answer 200 (issued_doc mi ?n (Some (issued_type mi)))), w')"
    by (simp add: http mock_http_def token_request_URL [OF req] url)
  moreover have "length (rs_Body (json_answer 200 (issued_doc mi ?n (Some (issued_type mi))))) \<le> 2 ^ 20"
    using limits by (simp add: within_limits_def)
  ultimately have "postTokenRequest nt p (tokenEndpoint p) ?f w =
      (Inr (token_of (nt_now nt w') (minted mi ?n (Some (issued_type mi))) []), w')"
    by (simp add: postTokenRequest_def v req issued_read [OF _ _ refl] issued_utf8 [OF issuer(3)])
  then have "Provider_TokenExchange nt p scope st stt rtt rs ex w =
      toResult nt p (token_of (nt_now nt w') (minted mi ?n (Some (issued_type mi))) []) [] w'"
    by (simp add: Provider_TokenExchange_def)
  note this [unfolded minted_result option.case]
  then show ?thesis
    using sent by (intro exI [of _ w'] exI [of _ "parseQuery (Encode v)"] exI [of _ jtis]) (simp add: w'_def)
qed

text \<open>A client with a key, its issuer, and a signature scheme that only carries the identifier.\<close>

definition test_issuer :: mock_issuer where
  "test_issuer = \<lparr>mi_URL = ''https://i'', mi_IssuerOverride = [], mi_NoDeviceEndpoint = False, mi_GrantTypesSupported = None,
     mi_CodeChallengeMethodsSupported = None, mi_PendingPolls = 0, mi_DeviceIntervalSeconds = 0, mi_DeviceExpiresInSeconds = 0,
     mi_IncludeIDToken = False, mi_RefreshErr = [], mi_RefreshDelay = 0, mi_OmitRefreshToken = True, mi_AuthCodeErr = [],
     mi_OmitDeviceExpiresIn = False, mi_TokenExchangeErr = [], mi_IssuedTokenType = ''urn:t'', mi_NonceForAuthCode = [],
     mi_RequireClientAuth = ''private_key_jwt'', mi_ExpectedClientSecret = [], mi_jwks = [], mi_Sign = (\<lambda>_ _. Inr ''id''),
     mi_Claims = (\<lambda>a. case a of [] \<Rightarrow> Inl (External ''jose'')
       | _ # i \<Rightarrow> Inr \<lparr>jwt_Issuer = mockClientID, jwt_Subject = mockClientID, jwt_Audience = [],
           jwt_Expiry = zero_time, jwt_IssuedAt = zero_time, jwt_ID = i\<rparr>),
     mi_Validate = (\<lambda>_. None)\<rparr>"

definition test_net :: "mock_issuer \<Rightarrow> mock_state net" where
  "test_net mi = \<lparr>nt_http = mock_http mi, nt_now = ms_now, nt_rand = (\<lambda>n w. (Inr (replicate n (CHR ''r'')), w)),
     nt_NewProvider = (\<lambda>_ w. (Inl (External []), w)), nt_Verify = (\<lambda>_ _ _ w. (Inl (External []), w)),
     nt_NewSigner = (\<lambda>_ _ _. None), nt_Serialize = (\<lambda>_ _ _ cl. Inr (CHR ''.'' # jwt_ID cl)),
     nt_Token = (\<lambda>_ _ w. (Inl (External []), w)), nt_GenerateVerifier = (\<lambda>w. (''verifier'', w)),
     nt_S256Challenge = (\<lambda>v. v), nt_AuthCodeURL = (\<lambda>_ s _. s), nt_Exchange = (\<lambda>_ _ _ w. (Inl (External []), w)),
     nt_DeviceAuth = (\<lambda>_ _ w. (Inl (External []), w)), nt_DeviceAccessToken = (\<lambda>_ _ _ _ w. (Inl (External []), w)),
     nt_hasDeadline = False, nt_Listen = (\<lambda>_ w. (Inr None, w)), nt_Close = (\<lambda>w. w), nt_wait = (\<lambda>_ _ w. ([], w))\<rparr>"

definition test_provider :: "string \<Rightarrow> string \<Rightarrow> provider" where
  "test_provider m secret = demo_provider\<lparr>p_ClientID := mockClientID, p_Audience := ''api'',
     p_upstream := \<lparr>up_Endpoint = demo_endpoint\<lparr>ep_TokenURL := ''https://i/token''\<rparr>, up_rawClaims = ''{}''\<rparr>,
     p_clientAuth := no_client_auth\<lparr>ca_method := m, ca_secret := secret\<rparr>\<rparr>"

lemma test_url:
  "\<exists>u. url_Parse (tokenEndpoint (test_provider m secret)) = Inr u \<and> u_Path u = ''/token'' \<and> u_RawQuery u = []"
proof -
  have "(case url_Parse ''https://i/token'' of Inr u \<Rightarrow> u_Path u = ''/token'' \<and> u_RawQuery u = [] | _ \<Rightarrow> False)" by code_simp
  then show ?thesis
    by (auto simp: tokenEndpoint_def test_provider_def demo_endpoint_def split: sum.splits)
qed

lemma test_agree: "agree test_issuer (test_net test_issuer) (test_provider ''private_key_jwt'' [])"
  by (auto simp: agree_def signs_for_def test_issuer_def test_net_def test_provider_def no_client_auth_def)

lemma length_b64_raw: "length (b64 al [] s) \<le> 2 * length s"
  by (induction al "[] :: string" s rule: b64.induct) auto

lemma test_limits:
  "within_limits test_issuer (test_net test_issuer) (test_provider ''private_key_jwt'' [])
     (exchange_form (test_provider ''private_key_jwt'' []) ''openid'' ''tok'' ''t'' [] [''r1'', ''r2''] []) (new_mock_state now)"
proof -
  let ?p = "test_provider ''private_key_jwt'' []"
  let ?f = "exchange_form ?p ''openid'' ''tok'' ''t'' [] [''r1'', ''r2''] []"
  let ?v = "vals_Set ''client_assertion'' (CHR ''.'' # b64 b64_url [] (replicate 24 (CHR ''r'')))
    (vals_Set ''client_assertion_type'' clientAssertionType (vals_Set ''client_id'' mockClientID ?f))"
  have "authenticate (test_net test_issuer) ?p ?f w = (Inr ?v, w)" for w
    by (simp add: authenticate_def signClientAssertion_def randomState_def test_net_def test_provider_def no_client_auth_def)
  moreover have "length (b64 b64_url [] (replicate 24 (CHR ''r''))) \<le> 48"
    using length_b64_raw [of b64_url "replicate 24 (CHR ''r'')"] by simp
  then have "form_weight ?v \<le> 10 * 2 ^ 20"
    by (simp add: form_weight_def exchange_form_def test_provider_def vals_Set_def set_nonempty_def add_all_def vals_Add_def
        vals_list_def add_extra_def tokenExchangeGrantType_def mockClientID_def clientAssertionType_def)
  then have "length (Encode ?v) \<le> 10 * 2 ^ 20" using length_Encode [of ?v] by (rule le_trans [rotated])
  moreover have "length (rs_Body (json_answer 200 (issued_doc test_issuer 1 (Some (issued_type test_issuer))))) = 102"
    unfolding json_answer_def answer_def issued_canonical
    by (simp add: issued_members_def type_member_def test_issuer_def issued_type_def) code_simp
  ultimately show ?thesis by (simp add: within_limits_def new_mock_state_def)
qed

lemma exchange_served_witness:
  "\<exists>w' received. Provider_TokenExchange (test_net test_issuer) (test_provider ''private_key_jwt'' []) ''openid'' ''tok'' ''t'' [] [''r1'', ''r2''] []
      (new_mock_state (Time 0 0)) =
      (Inr (zero_result\<lparr>r_AccessToken := ''access-token-1'', r_Expiry := Time 3600000000000 0, r_IssuedTokenType := ''urn:t''\<rparr>), w') \<and>
    ms_lastTokenExchangeForm w' = Some received \<and> vals_list received ''audience'' = [''api''] \<and> vals_list received ''resource'' = [''r1'', ''r2'']"
proof -
  obtain u where u: "url_Parse (tokenEndpoint (test_provider ''private_key_jwt'' [])) = Inr u" "u_Path u = ''/token''" "u_RawQuery u = []"
    using test_url by blast
  have f: "set (map fst []) \<inter> set form_names = {}" "distinct (map fst ([] :: vals))" by simp_all
  have i: "nt_http (test_net test_issuer) = mock_http test_issuer" "mi_TokenExchangeErr test_issuer = []" "\<not> mi_IncludeIDToken test_issuer"
    "mi_OmitRefreshToken test_issuer" "issued_type test_issuer = ''urn:t''" "optional (p_Audience (test_provider m s)) = [''api'']"
    for m s by (simp_all add: test_net_def test_issuer_def issued_type_def test_provider_def optional_def)
  have t: "utf8_valid (mi_IssuedTokenType test_issuer)" by code_simp
  have n: "''access-token-'' @ itoa (Suc 0) = ''access-token-1''" by code_simp
  have a: "Add (Time 0 0) (3600 * second) = Time 3600000000000 0" by (simp add: Add_def)
  from exchange_served [OF test_agree i(1) u _ _ f test_limits i(2,3) t, of "Time 0 0"]
  obtain w' received jtis where r: "Provider_TokenExchange (test_net test_issuer) (test_provider ''private_key_jwt'' []) ''openid'' ''tok'' ''t'' []
      [''r1'', ''r2''] [] (new_mock_state (Time 0 0)) =
      (Inr (zero_result\<lparr>r_AccessToken := ''access-token-'' @ itoa (Suc (ms_refreshSeq (new_mock_state (Time 0 0)))),
         r_RefreshToken := [], r_Expiry := Add (nt_now (test_net test_issuer) w') (3600 * second),
         r_IssuedTokenType := ''urn:t''\<rparr>), w')"
    "w' = (new_mock_state (Time 0 0))\<lparr>ms_assertionJTIs := ms_assertionJTIs (new_mock_state (Time 0 0)) @ jtis,
      ms_lastTokenExchangeForm := Some received, ms_refreshSeq := Suc (ms_refreshSeq (new_mock_state (Time 0 0)))\<rparr>"
    "vals_list received ''audience'' = [''api'']" "vals_list received ''resource'' = [''r1'', ''r2'']"
    unfolding i by (auto simp: i(4))
  have "nt_now (test_net test_issuer) w' = Time 0 0" by (simp add: test_net_def r(2) new_mock_state_def)
  moreover have "ms_refreshSeq (new_mock_state (Time 0 0)) = 0" by (simp add: new_mock_state_def)
  ultimately have "Provider_TokenExchange (test_net test_issuer) (test_provider ''private_key_jwt'' []) ''openid'' ''tok'' ''t'' []
      [''r1'', ''r2''] [] (new_mock_state (Time 0 0)) =
      (Inr (zero_result\<lparr>r_AccessToken := ''access-token-1'', r_Expiry := Time 3600000000000 0, r_IssuedTokenType := ''urn:t''\<rparr>), w')"
    unfolding r(1) by (simp only: n a) (simp add: zero_result_def)
  with r show ?thesis by (auto simp: new_mock_state_def)
qed

section \<open>A client the issuer does not know\<close>

lemma invalid_client_read:
  "read_token now (writeTokenError 401 ''invalid_client'') = Inl (RetrieveError ''invalid_client'' [] [])"
proof -
  have "Unmarshal_tokenResponse (rs_Body (writeTokenError 401 ''invalid_client'')) = Some (zero_response\<lparr>tr_Error := ''invalid_client''\<rparr>)"
    "length (rs_Body (writeTokenError 401 ''invalid_client'')) = 27"
    by code_simp+
  then show ?thesis
    by (simp add: read_token_def read_limited_def Let_def zero_response_def)
      (simp add: writeTokenError_def json_answer_def answer_def)
qed

lemma BasicAuth_request:
  assumes "token_request p url v = Inr req" "p_ClientID p = mockClientID"
  shows "BasicAuth req = (if ca_method (p_clientAuth p) = ''client_secret_basic''
    then Some (mockClientID, ca_secret (p_clientAuth p)) else None)"
proof -
  have "CHR '':'' \<notin> set mockClientID" by (simp add: mockClientID_def)
  then show ?thesis
    using assms by (auto simp: token_request_def Let_def BasicAuth_SetBasicAuth NewRequest_def split: sum.splits if_splits)
      (simp add: BasicAuth_def set_header_def)
qed

lemma checkClientAuth_refused:
  assumes "p_ClientID p = mockClientID" "mi_RequireClientAuth mi \<in> {''client_secret_basic'', ''client_secret_post''}"
    and "mi_ExpectedClientSecret mi \<noteq> []"
    and "ca_method (p_clientAuth p) \<noteq> mi_RequireClientAuth mi \<or> ca_secret (p_clientAuth p) \<noteq> mi_ExpectedClientSecret mi"
    and "token_request p url v = Inr req"
    and "vals_list form ''client_secret'' =
      (if ca_method (p_clientAuth p) = ''client_secret_post'' then [ca_secret (p_clientAuth p)] else [])"
  shows "checkClientAuth mi req form s = (False, s)"
proof (cases "mi_RequireClientAuth mi = ''client_secret_basic''")
  case True
  then show ?thesis using assms(4) by (auto simp: checkClientAuth_def BasicAuth_request [OF assms(5,1)])
next
  case False
  then have "mi_RequireClientAuth mi = ''client_secret_post''" using assms(2) by simp
  moreover from this have "vals_Get form ''client_secret'' \<noteq> mi_ExpectedClientSecret mi"
    using assms(3,4,6) by (auto simp: vals_Get_def split: if_splits)
  ultimately show ?thesis by (simp add: checkClientAuth_def)
qed

text \<open>
  C22: An issuer that requires a secret refuses the exchange of a client with another method or another
  secret: the client reports the OAuth error \<^verbatim>\<open>invalid_client\<close>, and the issuer has not changed.
\<close>

theorem exchange_refused:
  assumes client: "p_ClientID p = mockClientID" and http: "nt_http nt = mock_http mi"
    and required: "mi_RequireClientAuth mi \<in> {''client_secret_basic'', ''client_secret_post''}" "mi_ExpectedClientSecret mi \<noteq> []"
    and wrong: "ca_method (p_clientAuth p) \<noteq> mi_RequireClientAuth mi \<or> ca_secret (p_clientAuth p) \<noteq> mi_ExpectedClientSecret mi"
    and url: "url_Parse (tokenEndpoint p) = Inr u" "u_Path u = ''/token''" "u_RawQuery u = []"
    and ex: "set (map fst ex) \<inter> set form_names = {}" "distinct (map fst ex)"
    and auth: "authenticate nt p (exchange_form p scope st stt rtt rs ex) w = (Inr v, w1)" "length (Encode v) \<le> 10 * 2 ^ 20"
  shows "\<exists>e. Provider_TokenExchange nt p scope st stt rtt rs ex w = (Inl e, w1) \<and>
    as_RetrieveError e = Some (RetrieveError ''invalid_client'' [] [])"
proof -
  obtain req where req: "token_request p (tokenEndpoint p) v = Inr req"
    using token_request_ok [OF url(1)] by blast
  have body: "rq_Body req = Encode v"
    using req by (auto simp: token_request_def NewRequest_def set_header_def SetBasicAuth_def Let_def split: sum.splits)
  note parsed = ParseForm_request [OF req url(3) auth(2)]
  have "checkClientAuth mi req (parseQuery (Encode v)) w1 = (False, w1)"
    using exchange_request [OF ex auth(1) req, unfolded Let_def body]
    by (intro checkClientAuth_refused [OF client required wrong req]) simp
  then have "handleToken mi req u w1 = (writeTokenError 401 ''invalid_client'', w1)"
    by (simp add: handleToken_def parsed)
  then have "nt_http nt req w1 = (Inr (writeTokenError 401 ''invalid_client''), w1)"
    by (simp add: http mock_http_def token_request_URL [OF req] url)
  then have "postTokenRequest nt p (tokenEndpoint p) (exchange_form p scope st stt rtt rs ex) w =
      (Inl (RetrieveError ''invalid_client'' [] []), w1)"
    by (simp add: postTokenRequest_def auth(1) req invalid_client_read)
  then show ?thesis by (simp add: Provider_TokenExchange_def as_RetrieveError_def)
qed

lemma exchange_refused_witness:
  "\<exists>e. Provider_TokenExchange (test_net (test_issuer\<lparr>mi_RequireClientAuth := ''client_secret_basic'', mi_ExpectedClientSecret := ''right''\<rparr>))
      (test_provider ''client_secret_basic'' ''wrong'') [] ''tok'' ''t'' [] [] [] (new_mock_state (Time 0 0)) = (Inl e, new_mock_state (Time 0 0)) \<and>
    as_RetrieveError e = Some (RetrieveError ''invalid_client'' [] [])"
proof -
  let ?mi = "test_issuer\<lparr>mi_RequireClientAuth := ''client_secret_basic'', mi_ExpectedClientSecret := ''right''\<rparr>"
  let ?p = "test_provider ''client_secret_basic'' ''wrong''"
  let ?f = "exchange_form ?p [] ''tok'' ''t'' [] [] []"
  let ?v = "vals_Set ''client_id'' mockClientID ?f"
  obtain u where u: "url_Parse (tokenEndpoint ?p) = Inr u" "u_Path u = ''/token''" "u_RawQuery u = []"
    using test_url by blast
  have i: "p_ClientID ?p = mockClientID" "nt_http (test_net ?mi) = mock_http ?mi"
    "mi_RequireClientAuth ?mi \<in> {''client_secret_basic'', ''client_secret_post''}" "mi_ExpectedClientSecret ?mi \<noteq> []"
    "ca_method (p_clientAuth ?p) \<noteq> mi_RequireClientAuth ?mi \<or> ca_secret (p_clientAuth ?p) \<noteq> mi_ExpectedClientSecret ?mi"
    by (simp_all add: test_provider_def test_net_def no_client_auth_def)
  have f: "set (map fst []) \<inter> set form_names = {}" "distinct (map fst ([] :: vals))" by simp_all
  have v: "authenticate (test_net ?mi) ?p ?f w = (Inr ?v, w)" for w
    by (simp add: authenticate_def test_provider_def no_client_auth_def)
  have "form_weight ?v \<le> 10 * 2 ^ 20"
    by (simp add: form_weight_def exchange_form_def test_provider_def vals_Set_def set_nonempty_def add_all_def
        vals_list_def add_extra_def tokenExchangeGrantType_def mockClientID_def)
  then have "length (Encode ?v) \<le> 10 * 2 ^ 20" using length_Encode [of ?v] by (rule le_trans [rotated])
  from exchange_refused [OF i u f v this] show ?thesis .
qed

end
