(* ===== verification/FlowProps.thy ===== *)
theory FlowProps
  imports LoginFlows
begin

text \<open>
  What the login flows guarantee: the plan against the grants' own methods, the bounded fallback, the
  browser command, the issuer, the callback server, PKCE and nonce, and the life of assertions.
\<close>

section \<open>The plan\<close>

text \<open>The grants of the program by the methods of their interface, for the same question.\<close>

definition planned :: "('p, 'w) grant_source \<Rightarrow> 'p \<Rightarrow> string \<Rightarrow> environment \<Rightarrow> bool \<Rightarrow> grant \<Rightarrow> bool" where
  "planned gs p grantType env nonInteractive g \<longleftrightarrow>
     AutoEligible g \<and> (grantType = ''auto'' \<or> grantType = [] \<or> grantType = grant_Name g) \<and>
     SupportsGrant gs p (WireGrant g) \<and> (g = DeviceCode \<longrightarrow> SupportsDeviceCode gs p) \<and>
     Viable g env nonInteractive"

text \<open>The decisions of \<^verbatim>\<open>plan\<close>, with its errors as arguments.\<close>

definition decide :: "bool \<Rightarrow> bool \<Rightarrow> bool \<Rightarrow> bool \<Rightarrow> string \<Rightarrow> error list \<Rightarrow> error + string list" where
  "decide a d va vd gt e =
     (let order = (if va then [grantAuthorizationCode] else []) @ (if vd then [grantDeviceCodeURN] else []) in
      if gt = ''authcode'' then if \<not> a then Inl (e ! 0) else if \<not> va then Inl (e ! 1) else Inr [grantAuthorizationCode]
      else if gt = ''device-code'' then if \<not> d then Inl (e ! 2) else if \<not> vd then Inl (e ! 3) else Inr [grantDeviceCodeURN]
      else if gt = ''auto'' \<or> gt = [] then if \<not> a \<and> \<not> d then Inl (e ! 4) else if order = [] then Inl (e ! 5) else Inr order
      else Inl (e ! 6))"

lemma nth_literal: "[a, b, c, d, e, f, g] ! 0 = a" "[a, b, c, d, e, f, g] ! 1 = b" "[a, b, c, d, e, f, g] ! 2 = c"
  "[a, b, c, d, e, f, g] ! 3 = d" "[a, b, c, d, e, f, g] ! 4 = e" "[a, b, c, d, e, f, g] ! 5 = f"
  "[a, b, c, d, e, f, g] ! 6 = g"
  by simp_all

lemma plan_decide:
  "\<exists>e. plan gs p gt env ni =
     decide (SupportsGrant gs p grantAuthorizationCode) (SupportsDeviceCode gs p \<and> SupportsGrant gs p grantDeviceCodeURN)
       (SupportsGrant gs p grantAuthorizationCode \<and> BrowserAvailable env)
       ((SupportsDeviceCode gs p \<and> SupportsGrant gs p grantDeviceCodeURN) \<and> TerminalAttended env \<and> \<not> ni) gt e"
proof -
  have "\<exists>e1 e2 e3 e4 e5 e6 e7. plan gs p gt env ni =
     decide (SupportsGrant gs p grantAuthorizationCode) (SupportsDeviceCode gs p \<and> SupportsGrant gs p grantDeviceCodeURN)
       (SupportsGrant gs p grantAuthorizationCode \<and> BrowserAvailable env)
       ((SupportsDeviceCode gs p \<and> SupportsGrant gs p grantDeviceCodeURN) \<and> TerminalAttended env \<and> \<not> ni) gt
       [e1, e2, e3, e4, e5, e6, e7]"
    unfolding plan_def decide_def Let_def nth_literal by (intro exI) (rule refl)
  then show ?thesis by blast
qed

lemma decide_order:
  "decide a d (a \<and> b) (d \<and> t \<and> \<not> n) gt e = Inr order \<longleftrightarrow>
     order = (if (gt = ''auto'' \<or> gt = [] \<or> gt = ''authcode'') \<and> a \<and> b then [grantAuthorizationCode] else []) @
       (if (gt = ''auto'' \<or> gt = [] \<or> gt = ''device-code'') \<and> d \<and> t \<and> \<not> n then [grantDeviceCodeURN] else []) \<and>
     order \<noteq> []"
proof -
  have ne: "''authcode'' \<noteq> ''device-code''" "''authcode'' \<noteq> ''auto''" "''device-code'' \<noteq> ''auto''" by simp_all
  consider "gt = ''authcode''" | "gt = ''device-code''" | "gt = ''auto''" | "gt = []"
    | "gt \<noteq> ''authcode''" "gt \<noteq> ''device-code''" "gt \<noteq> ''auto''" "gt \<noteq> []" by blast
  then show ?thesis
  proof cases
    case 1
    then show ?thesis by (cases a; cases b; simp add: decide_def; blast)
  next
    case 2
    then show ?thesis by (cases d; cases t; cases n; simp add: decide_def; blast)
  next
    case 3
    then show ?thesis by (cases a; cases b; cases d; cases t; cases n; simp add: decide_def; blast)
  next
    case 4
    then show ?thesis by (cases a; cases b; cases d; cases t; cases n; simp add: decide_def; blast)
  next
    case 5
    then show ?thesis by (simp add: decide_def)
  qed
qed

lemma decide_shape:
  "decide a d (a \<and> b) (d \<and> t \<and> \<not> n) gt e = Inr order \<Longrightarrow>
     \<exists>u v. order = (if u then [grantAuthorizationCode] else []) @ (if v then [grantDeviceCodeURN] else []) \<and> order \<noteq> []"
  by (drule iffD1 [OF decide_order], intro exI, assumption)

text \<open>
  The hand-written plan of authflow and the methods of the grants say the same: a plan is the list of
  the wire names of the grants that are eligible for the grant type, advertised by the issuer and
  viable in the environment, in the fixed order; when there is none, it is an error.
\<close>

lemma plan_equivalence:
  "plan gs p grantType env nonInteractive = Inr order \<longleftrightarrow>
     order = map WireGrant (filter (planned gs p grantType env nonInteractive) [AuthCode, DeviceCode, TokenExchange]) \<and>
     order \<noteq> []"
proof -
  let ?P = "planned gs p grantType env nonInteractive"
  have shape: "map WireGrant (filter ?P [AuthCode, DeviceCode, TokenExchange]) =
      (if ?P AuthCode then [grantAuthorizationCode] else []) @ (if ?P DeviceCode then [grantDeviceCodeURN] else [])"
    by (simp add: planned_def grantAuthorizationCode_def grantDeviceCodeURN_def)
  have P: "?P AuthCode \<longleftrightarrow> (grantType = ''auto'' \<or> grantType = [] \<or> grantType = ''authcode'') \<and>
      SupportsGrant gs p grantAuthorizationCode \<and> BrowserAvailable env"
    "?P DeviceCode \<longleftrightarrow> (grantType = ''auto'' \<or> grantType = [] \<or> grantType = ''device-code'') \<and>
      (SupportsDeviceCode gs p \<and> SupportsGrant gs p grantDeviceCodeURN) \<and> TerminalAttended env \<and> \<not> nonInteractive"
    by (auto simp: planned_def ac_Viable_def dc_Viable_def grantAuthorizationCode_def grantDeviceCodeURN_def)
  obtain e where "plan gs p grantType env nonInteractive =
     decide (SupportsGrant gs p grantAuthorizationCode) (SupportsDeviceCode gs p \<and> SupportsGrant gs p grantDeviceCodeURN)
       (SupportsGrant gs p grantAuthorizationCode \<and> BrowserAvailable env)
       ((SupportsDeviceCode gs p \<and> SupportsGrant gs p grantDeviceCodeURN) \<and> TerminalAttended env \<and> \<not> nonInteractive) grantType e"
    using plan_decide by fast
  then show ?thesis
    by (simp only: shape P decide_order)
qed

lemma plan_short:
  assumes "plan gs p gt env ni = Inr order"
  shows "order \<noteq> []" "length order \<le> 2" "distinct order" "set order \<subseteq> {grantAuthorizationCode, grantDeviceCodeURN}"
proof -
  obtain e where "plan gs p gt env ni =
     decide (SupportsGrant gs p grantAuthorizationCode) (SupportsDeviceCode gs p \<and> SupportsGrant gs p grantDeviceCodeURN)
       (SupportsGrant gs p grantAuthorizationCode \<and> BrowserAvailable env)
       ((SupportsDeviceCode gs p \<and> SupportsGrant gs p grantDeviceCodeURN) \<and> TerminalAttended env \<and> \<not> ni) gt e"
    using plan_decide by fast
  then have "\<exists>u v. order = (if u then [grantAuthorizationCode] else []) @ (if v then [grantDeviceCodeURN] else []) \<and> order \<noteq> []"
    by (rule decide_shape [OF trans [OF sym assms]])
  then obtain u v where "order = (if u then [grantAuthorizationCode] else []) @ (if v then [grantDeviceCodeURN] else [])"
    "order \<noteq> []" by (elim exE conjE)
  then show "order \<noteq> []" "length order \<le> 2" "distinct order" "set order \<subseteq> {grantAuthorizationCode, grantDeviceCodeURN}"
    by (cases u; cases v; simp add: grantAuthorizationCode_def grantDeviceCodeURN_def)+
qed

section \<open>Login\<close>

text \<open>
  The login as the interface of the grants suggests it: each grant executes itself, with the callback
  port and the options of the source, and hands over to the next after a rejection of the client.
\<close>

definition exec_opts_of :: "('p, 'w) source \<Rightarrow> 'w exec_opts" where
  "exec_opts_of s = \<lparr>eo_Scope = s_Scope s, eo_Prompt = s_Prompt s, eo_HintWriter = hintWriter s,
     eo_OpenBrowser = s_OpenBrowser s, eo_ExtraFields = s_ExtraFields s\<rparr>"

definition state_of :: "('p, 'w) source \<Rightarrow> grant_state" where
  "state_of s = new_grants\<lparr>gr_authcode := \<lparr>ac_CallbackPort = s_CallbackPort s\<rparr>\<rparr>"

fun try_grants :: "('p, 'w) source \<Rightarrow> 'p \<Rightarrow> grant \<Rightarrow> grant list \<Rightarrow> 'w \<Rightarrow> (error + result) \<times> 'w" where
  "try_grants s p g [] w = Execute g (state_of s) (s_ops s) p (exec_opts_of s) w"
| "try_grants s p g (h # gs) w =
     (case Execute g (state_of s) (s_ops s) p (exec_opts_of s) w of
        (Inr res, w1) \<Rightarrow> (Inr res, w1)
      | (Inl err, w1) \<Rightarrow>
          if isPerClientRejection err then try_grants s p h gs (warn_fallback s (WireGrant g) err w1) else (Inl err, w1))"

definition eligible :: "('p, 'w) source \<Rightarrow> 'p \<Rightarrow> grant list" where
  "eligible s p = filter (planned (s_ops s) p (s_GrantType s) (s_Env s) (s_NonInteractive s)) [AuthCode, DeviceCode, TokenExchange]"

lemma attempt_Execute:
  "g \<noteq> TokenExchange \<Longrightarrow> attempt s p (WireGrant g) w = Execute g (state_of s) (s_ops s) p (exec_opts_of s) w"
  by (cases g) (simp_all add: attempt_def ac_Execute_def dc_Execute_def exec_opts_of_def state_of_def
      grantDeviceCodeURN_def grantAuthorizationCode_def)

lemma attempts_grants:
  "TokenExchange \<notin> set (g # gs) \<Longrightarrow> attempts s p (map WireGrant (g # gs)) w = try_grants s p g gs w"
proof (induction gs arbitrary: g w)
  case Nil
  have "attempts s p [x] w = attempt s p x w" for x by (simp split: prod.split sum.split)
  moreover have "attempt s p (WireGrant g) w = Execute g (state_of s) (s_ops s) p (exec_opts_of s) w"
    using Nil by (intro attempt_Execute) auto
  ultimately show ?case by (simp del: attempts.simps)
next
  case (Cons h gs)
  have a: "attempt s p (WireGrant g) w = Execute g (state_of s) (s_ops s) p (exec_opts_of s) w"
    using Cons.prems by (intro attempt_Execute) auto
  have rest: "attempts s p (WireGrant h # map WireGrant gs) v = try_grants s p h gs v" for v
    using Cons.prems Cons.IH [of h v] by simp
  obtain x w1 where e: "Execute g (state_of s) (s_ops s) p (exec_opts_of s) w = (x, w1)" by fastforce
  have "attempts s p (WireGrant g # WireGrant h # map WireGrant gs) w =
    (case attempt s p (WireGrant g) w of
       (Inr res, w1) \<Rightarrow> (Inr res, w1)
     | (Inl err, w1) \<Rightarrow>
         if WireGrant h # map WireGrant gs = [] \<or> \<not> isPerClientRejection err then (Inl err, w1)
         else attempts s p (WireGrant h # map WireGrant gs) (warn_fallback s (WireGrant g) err w1))"
    by (rule attempts.simps(2))
  then show ?case by (cases x) (simp_all add: a e rest del: attempts.simps)
qed

lemma eligible_interactive: "TokenExchange \<notin> set (eligible s p)" "length (eligible s p) \<le> 2"
  by (simp_all add: eligible_def planned_def)

text \<open>
  C17: authflow's \<^verbatim>\<open>Login\<close>, with its hand-written plan and its dispatch by wire names, and the methods of
  the grants say the same: the discovered provider is asked by the grants that are eligible for the
  grant type, advertised and viable, in their order, each executing itself, the next one only after
  the client was rejected; when there is none, the login is an error.
\<close>

theorem login_by_grants:
  "\<exists>e. Login s w =
     (case discover s w of
        (Inl err, w1) \<Rightarrow> (Inl err, w1)
      | (Inr p, w1) \<Rightarrow> (case eligible s p of [] \<Rightarrow> (Inl e, w1) | g # gs \<Rightarrow> try_grants s p g gs w1))"
proof (cases "discover s w")
  case (Pair x w1)
  show ?thesis
  proof (cases x)
    case (Inl err)
    then show ?thesis by (simp add: Login_def Pair)
  next
    case (Inr p)
    let ?plan = "plan (s_ops s) p (s_GrantType s) (s_Env s) (s_NonInteractive s)"
    note eq = plan_equivalence [of "s_ops s" p "s_GrantType s" "s_Env s" "s_NonInteractive s", folded eligible_def]
    show ?thesis
    proof (cases "eligible s p")
      case Nil
      then obtain e where "?plan = Inl e" using eq by (cases ?plan) auto
      then show ?thesis by (auto simp: Login_def Pair Inr Nil)
    next
      case (Cons g gs)
      then have "?plan = Inr (map WireGrant (g # gs))" using eq [of "map WireGrant (g # gs)"] by simp
      moreover have "length (map WireGrant (g # gs)) \<le> maxInteractiveAttempts"
        using eligible_interactive(2) [of s p] Cons by (simp add: maxInteractiveAttempts_def)
      moreover have "attempts s p (map WireGrant (g # gs)) w1 = try_grants s p g gs w1"
        using eligible_interactive(1) [of s p] Cons by (intro attempts_grants) simp
      ultimately show ?thesis by (simp add: Login_def Pair Inr Cons)
    qed
  qed
qed

text \<open>A list of one or two grants: the attempts, without the loop.\<close>

lemma attempts_one: "attempts s p [g] w = attempt s p g w"
  by (simp split: prod.split sum.split)

lemma attempts_two:
  "attempts s p [g, h] w =
     (case attempt s p g w of
        (Inr res, w1) \<Rightarrow> (Inr res, w1)
      | (Inl err, w1) \<Rightarrow> if isPerClientRejection err then attempt s p h (warn_fallback s g err w1) else (Inl err, w1))"
  by (subst attempts.simps(2)) (simp add: attempts_one del: attempts.simps split: prod.split sum.split)

text \<open>
  Counters of the attempts: each interactive operation of the provider adds one to its own, and
  nothing else the source does changes them.
\<close>

definition counted :: "('p, 'w) source \<Rightarrow> ('w \<Rightarrow> nat) \<Rightarrow> ('w \<Rightarrow> nat) \<Rightarrow> bool" where
  "counted s a d \<longleftrightarrow>
     (\<forall>p sc port br pr h ex w. a (snd (gs_AuthCodeLogin (s_ops s) p sc port br pr h ex w)) = Suc (a w) \<and>
        d (snd (gs_AuthCodeLogin (s_ops s) p sc port br pr h ex w)) = d w) \<and>
     (\<forall>p sc pr ex w. a (snd (gs_DeviceLogin (s_ops s) p sc pr ex w)) = a w \<and>
        d (snd (gs_DeviceLogin (s_ops s) p sc pr ex w)) = Suc (d w)) \<and>
     (\<forall>i c w. a (snd (s_discover s i c w)) = a w \<and> d (snd (s_discover s i c w)) = d w) \<and>
     (\<forall>p w. a (s_store s p w) = a w \<and> d (s_store s p w) = d w) \<and>
     (\<forall>out l w. s_Prompt s = Some out \<longrightarrow> a (out l w) = a w \<and> d (out l w) = d w)"

lemma counted_attempt:
  assumes "counted s a d" "attempt s p g w = (r, w')"
  shows "g = grantAuthorizationCode \<Longrightarrow> a w' = Suc (a w) \<and> d w' = d w"
    "g = grantDeviceCodeURN \<Longrightarrow> a w' = a w \<and> d w' = Suc (d w)"
proof -
  have ne: "grantAuthorizationCode \<noteq> grantDeviceCodeURN"
    by (simp add: grantAuthorizationCode_def grantDeviceCodeURN_def)
  show "a w' = Suc (a w) \<and> d w' = d w" if "g = grantAuthorizationCode"
    using assms that ne unfolding counted_def attempt_def by (metis snd_conv)
  show "a w' = a w \<and> d w' = Suc (d w)" if "g = grantDeviceCodeURN"
    using assms that unfolding counted_def attempt_def by (metis snd_conv)
qed

lemma counted_discover:
  assumes "counted s a d" "discover s w = (r, w')"
  shows "a w' = a w" "d w' = d w"
proof -
  have *: "a w1 = a w \<and> d w1 = d w" if "s_discover s (s_Issuer s) (s_ClientID s) w = (x, w1)" for x w1
    using assms(1) that unfolding counted_def by (metis snd_conv)
  have "a (s_store s p v) = a v \<and> d (s_store s p v) = d v" for p v
    using assms(1) unfolding counted_def by blast
  then show "a w' = a w" "d w' = d w"
    using assms(2) * unfolding discover_def Let_def by (auto split: option.splits prod.splits sum.splits)
qed

lemma counted_warn: "counted s a d \<Longrightarrow> a (warn_fallback s g err w) = a w \<and> d (warn_fallback s g err w) = d w"
  by (auto simp: counted_def warn_fallback_def split: option.split)

lemma two_grants:
  assumes "order \<noteq> []" "length order \<le> 2" "distinct order" "set order \<subseteq> {grantAuthorizationCode, grantDeviceCodeURN}"
  obtains g where "order = [g]" "g \<in> {grantAuthorizationCode, grantDeviceCodeURN}"
    | g h where "order = [g, h]" "g \<noteq> h" "{g, h} = {grantAuthorizationCode, grantDeviceCodeURN}"
proof -
  consider g where "order = [g]" | g h where "order = [g, h]"
    using assms(1,2) by (cases order; cases "tl order"; auto)
  then show ?thesis using that assms by cases auto
qed

lemma Login_cases:
  assumes "Login s w = (r, w')"
  obtains e where "discover s w = (Inl e, w')" "r = Inl e"
    | p w1 e where "discover s w = (Inr p, w1)" "r = Inl e" "w' = w1"
        "plan (s_ops s) p (s_GrantType s) (s_Env s) (s_NonInteractive s) = Inl e"
    | p w1 order where "discover s w = (Inr p, w1)" "order \<noteq> []" "length order \<le> 2" "distinct order"
        "set order \<subseteq> {grantAuthorizationCode, grantDeviceCodeURN}" "attempts s p order w1 = (r, w')"
proof -
  from assms show ?thesis
  proof (cases "discover s w")
    case (Pair x w1)
    show ?thesis
    proof (cases x)
      case (Inl e)
      then show ?thesis using assms Pair that(1) by (simp add: Login_def)
    next
      case (Inr p)
      show ?thesis
      proof (cases "plan (s_ops s) p (s_GrantType s) (s_Env s) (s_NonInteractive s)")
        case (Inl e)
        then have "r = Inl e" "w' = w1" using assms Pair \<open>x = Inr p\<close> by (auto simp: Login_def)
        then show ?thesis using that(2) Pair \<open>x = Inr p\<close> Inl by blast
      next
        case (Inr order)
        note P = plan_short [OF Inr]
        have "attempts s p order w1 = (r, w')"
          using assms Pair \<open>x = Inr p\<close> Inr P(2) by (simp add: Login_def maxInteractiveAttempts_def)
        then show ?thesis using that(3) Pair \<open>x = Inr p\<close> P by simp
      qed
    qed
  qed
qed

text \<open>
  C18: However a login goes, it makes at most one authorization-code attempt and at most one
  device-code attempt; it never succeeds without one, and when it made both, the first one was
  rejected for this client.
\<close>

theorem login_bounded:
  assumes "counted s a d" "Login s w = (r, w')"
  shows "a w' \<le> Suc (a w) \<and> d w' \<le> Suc (d w) \<and>
    (\<forall>res. r = Inr res \<longrightarrow> a w + d w < a w' + d w') \<and>
    (a w' + d w' = a w + d w + 2 \<longrightarrow>
       (\<exists>p g w1 err w2. discover s w = (Inr p, w1) \<and> attempt s p g w1 = (Inl err, w2) \<and> isPerClientRejection err))"
  using assms(2)
proof (cases rule: Login_cases)
  case (1 e)
  then show ?thesis using counted_discover [OF assms(1)] by fastforce
next
  case (2 p w1 e)
  then show ?thesis using counted_discover [OF assms(1)] by fastforce
next
  case (3 p w1 order)
  note start = counted_discover [OF assms(1) 3(1)]
  from 3(2-5) show ?thesis
  proof (cases rule: two_grants)
    case (1 g)
    then show ?thesis
      using 3(6) counted_attempt [OF assms(1), of p g w1 r w'] start by (auto simp: attempts_one simp del: attempts.simps)
  next
    case (2 g h)
    show ?thesis
    proof (cases "attempt s p g w1")
      case (Pair r1 w2)
      note first = counted_attempt [OF assms(1) Pair]
      show ?thesis
      proof (cases "\<exists>err. r1 = Inl err \<and> isPerClientRejection err")
        case True
        then obtain err where err: "r1 = Inl err" "isPerClientRejection err" by blast
        then have "attempt s p h (warn_fallback s g err w2) = (r, w')"
          using 3(6) 2(1) Pair by (simp add: attempts_two del: attempts.simps)
        note second = counted_attempt [OF assms(1) this] counted_warn [OF assms(1), of g err w2]
        have "\<exists>p g w1 err w2. discover s w = (Inr p, w1) \<and> attempt s p g w1 = (Inl err, w2) \<and> isPerClientRejection err"
          using Pair err \<open>discover s w = (Inr p, w1)\<close> by blast
        then show ?thesis
          using 2(2,3) first second start by (auto simp: doubleton_eq_iff)
      next
        case False
        then have "r = r1" "w' = w2"
          using 3(6) 2(1) Pair by (auto simp: attempts_two simp del: attempts.simps split: sum.splits if_splits)
        then show ?thesis
          using 2(2,3) first start by (auto simp: doubleton_eq_iff)
      qed
    qed
  qed
qed

text \<open>A source whose client may not use authorization codes: the world counts the attempts.\<close>

definition counting_ops :: "(unit, nat \<times> nat) grant_source" where
  "counting_ops = \<lparr>SupportsGrant = (\<lambda>_ _. True), SupportsDeviceCode = (\<lambda>_. True), SetAudience = (\<lambda>_ p. p),
     SetClientAuth = (\<lambda>_ p. p), AdvertisedGrants = (\<lambda>_. []),
     gs_DeviceLogin = (\<lambda>_ _ _ _ w. (Inr (zero_result\<lparr>r_AccessToken := ''at''\<rparr>), (fst w, Suc (snd w)))),
     gs_AuthCodeLogin = (\<lambda>_ _ _ _ _ _ _ w. (Inl (AuthorizationError ''unauthorized_client'' []), (Suc (fst w), snd w))),
     gs_Refresh = (\<lambda>_ _ _ w. (Inl (External []), w)), gs_TokenExchange = (\<lambda>_ _ _ _ _ _ _ w. (Inl (External []), w))\<rparr>"

definition counting_source :: "(unit, nat \<times> nat) source" where
  "counting_source = \<lparr>s_Issuer = [], s_ClientID = [], s_Scope = [], s_Audience = [], s_GrantType = ''auto'', s_CallbackPort = 0,
     s_NonInteractive = False, s_Env = \<lparr>env_TTY = True, env_Display = True\<rparr>, s_OpenBrowser = None, s_Prompt = None,
     s_ExtraFields = [], s_ClientAuth = no_client_auth, s_provider = (\<lambda>_. None), s_store = (\<lambda>_ w. w),
     s_discover = (\<lambda>_ _ w. (Inr (), w)), s_ops = counting_ops\<rparr>"

lemma counting_login:
  "Login counting_source (0, 0) = (Inr (zero_result\<lparr>r_AccessToken := ''at''\<rparr>), (1, 1))"
  by code_simp

lemma login_bounded_witness:
  "counted counting_source fst snd \<and> Login counting_source (0, 0) = (Inr (zero_result\<lparr>r_AccessToken := ''at''\<rparr>), (1, 1)) \<and>
   (\<exists>p g w1 err w2. attempt counting_source p g w1 = (Inl err, w2) \<and> isPerClientRejection err)"
proof (intro conjI)
  show c: "counted counting_source fst snd"
    by (simp add: counted_def counting_source_def counting_ops_def)
  show "\<exists>p g w1 err w2. attempt counting_source p g w1 = (Inl err, w2) \<and> isPerClientRejection err"
    using login_bounded [OF c counting_login] by fastforce
qed (rule counting_login)

section \<open>The callback server\<close>

lemma first_result_split:
  "first_result expected qs = Some r \<Longrightarrow>
     \<exists>as q bs. qs = as @ q # bs \<and> (\<forall>x\<in>set as. callback_result expected x = None) \<and> callback_result expected q = Some r"
proof (induction qs)
  case (Cons q qs)
  show ?case
  proof (cases "callback_result expected q")
    case None
    with Cons obtain as x bs where "qs = as @ x # bs" "\<forall>x\<in>set as. callback_result expected x = None"
      "callback_result expected x = Some r" by auto
    with None show ?thesis by (intro exI [of _ "q # as"] exI [of _ x] exI [of _ bs]) simp
  next
    case (Some r')
    with Cons.prems show ?thesis by (intro exI [of _ "[]"] exI [of _ q] exI [of _ qs]) simp
  qed
qed simp

text \<open>
  C6: In every interleaving of requests, the receipt of a result and the end of the context: the
  code the callback server returns is the one of the first request that carried the expected state,
  and that request carried no error. Requests with another state, before or after, have no effect.
\<close>

theorem callback_first_genuine:
  assumes "callback_run expected es s" "cb_outcome s = Some (Inr code)"
  shows "\<exists>as q bs. queries es = as @ q # bs \<and> (\<forall>x\<in>set as. vals_Get (parseQuery x) ''state'' \<noteq> expected) \<and>
    vals_Get (parseQuery q) ''state'' = expected \<and> vals_Get (parseQuery q) ''error'' = [] \<and>
    code = vals_Get (parseQuery q) ''code''"
proof -
  have "first_result expected (queries es) = Some (Inr code)"
    using callback_run_invariant [OF assms(1)] assms(2) by simp
  from first_result_split [OF this] obtain as q bs where
    "queries es = as @ q # bs" "\<forall>x\<in>set as. callback_result expected x = None" "callback_result expected q = Some (Inr code)"
    by blast
  then show ?thesis
    unfolding callback_result_None callback_result_iff by (auto split: if_splits)
qed

definition forged_then_genuine :: "callback_event list" where
  "forged_then_genuine = [Request ''state=x&code=evil'', Request ''code=good&state=s%201'', Request ''state=s+1&code=late'', Receive]"

lemma forged_run:
  "callback_run ''s 1'' forged_then_genuine \<lparr>cb_channel = None, cb_outcome = Some (Inr ''good'')\<rparr>"
proof -
  have "callback_run ''s 1'' (map Request [''state=x&code=evil'', ''code=good&state=s%201'', ''state=s+1&code=late''])
      \<lparr>cb_channel = Some (Inr ''good''), cb_outcome = None\<rparr>"
  proof -
    have "first_result ''s 1'' [''state=x&code=evil'', ''code=good&state=s%201'', ''state=s+1&code=late''] = Some (Inr ''good'')"
      by code_simp
    then show ?thesis using callback_run_requests [of "''s 1''"] by metis
  qed
  from callback_run.step [OF this, of Receive] show ?thesis
    by (simp add: forged_then_genuine_def callback_step.simps)
qed

lemma callback_first_genuine_witness:
  "\<exists>as q bs. queries forged_then_genuine = as @ q # bs \<and> (\<forall>x\<in>set as. vals_Get (parseQuery x) ''state'' \<noteq> ''s 1'') \<and>
    vals_Get (parseQuery q) ''state'' = ''s 1'' \<and> vals_Get (parseQuery q) ''error'' = [] \<and>
    ''good'' = vals_Get (parseQuery q) ''code''"
  by (rule callback_first_genuine [OF forged_run]) simp

text \<open>
  C19: The server makes progress: as soon as one request with the expected state has been handled
  and the context is not done, the wait can end, and with the result of the first such request; until
  then nothing but the end of the context ends it.
\<close>

theorem callback_progress:
  assumes "callback_run expected es s" "cb_outcome s = None"
  shows "if \<exists>q\<in>set (queries es). vals_Get (parseQuery q) ''state'' = expected
    then \<exists>r s'. callback_step expected s Receive s' \<and> cb_outcome s' = Some r \<and> first_result expected (queries es) = Some r
    else \<forall>e s'. callback_step expected s e s' \<longrightarrow> cb_outcome s' \<noteq> None \<longrightarrow> e = ContextDone"
proof -
  have ch: "cb_channel s = first_result expected (queries es)"
    using callback_run_invariant [OF assms(1)] assms(2) by simp
  show ?thesis
  proof (cases "\<exists>q\<in>set (queries es). vals_Get (parseQuery q) ''state'' = expected")
    case True
    then obtain r where "first_result expected (queries es) = Some r"
      using first_result_None [of expected "queries es"] callback_result_None by (metis option.exhaust)
    then show ?thesis
      using True ch assms(2) callback_step.receive [of s r expected] by auto
  next
    case False
    then have "cb_channel s = None"
      using ch first_result_None [of expected "queries es"] callback_result_None by metis
    then show ?thesis
      using False assms(2) by (auto elim!: callback_stepE simp: offer_def split: if_splits)
  qed
qed

lemma callback_progress_witness:
  "\<exists>r s'. callback_step ''s'' \<lparr>cb_channel = first_result ''s'' [''state=s&code=c''], cb_outcome = None\<rparr> Receive s' \<and>
    cb_outcome s' = Some r \<and> first_result ''s'' [''state=s&code=c''] = Some r"
proof -
  have "vals_Get (parseQuery ''state=s&code=c'') ''state'' = ''s''" by code_simp
  then show ?thesis
    using callback_progress [OF callback_run_requests [of "''s''" "[''state=s&code=c'']"]] by simp
qed

text \<open>
  The sequential reading of \<^verbatim>\<open>awaitCallback\<close> used by the login is a behaviour of the
  concurrent server: some run handles exactly the requests that were served and ends with that outcome.
\<close>

theorem await_callback_refines:
  "\<exists>es s. callback_run expected es s \<and> queries es = fst (nt_wait nt timeout port w) \<and>
     cb_outcome s = Some (fst (awaitCallback nt timeout port expected w))"
proof -
  obtain qs w1 where q: "nt_wait nt timeout port w = (qs, w1)" by fastforce
  have qq: "queries (map Request qs) = qs" by (induction qs) simp_all
  let ?s = "\<lparr>cb_channel = first_result expected qs, cb_outcome = None\<rparr>"
  note run = callback_run_requests [of expected qs]
  show ?thesis
  proof (cases "first_result expected qs")
    case None
    have "callback_step expected ?s ContextDone (?s\<lparr>cb_outcome := Some (Inl timed_out)\<rparr>)"
      by (rule callback_step.done_step) simp
    note run' = callback_run.step [OF run this]
    show ?thesis
    proof (intro exI conjI)
      show "callback_run expected (map Request qs @ [ContextDone]) (?s\<lparr>cb_outcome := Some (Inl timed_out)\<rparr>)" by (rule run')
    qed (use None q qq in \<open>simp_all add: awaitCallback_def\<close>)
  next
    case (Some r)
    have "callback_step expected ?s Receive (?s\<lparr>cb_channel := None, cb_outcome := Some r\<rparr>)"
      by (rule callback_step.receive) (simp_all add: Some)
    note run' = callback_run.step [OF run this]
    show ?thesis
    proof (intro exI conjI)
      show "callback_run expected (map Request qs @ [Receive]) (?s\<lparr>cb_channel := None, cb_outcome := Some r\<rparr>)" by (rule run')
    qed (use Some q qq in \<open>simp_all add: awaitCallback_def\<close>)
  qed
qed

end
