(* ===== verification/Usage.thy ===== *)
theory Usage
  imports FlagBinding "HOL-Library.Multiset"
begin

text \<open>
  internal/config/usage.go: the grouped \<^verbatim>\<open>--help\<close> text. A line of the text is a list of pieces,
  as everywhere in the development; a quoted default is a piece of its own.
\<close>

section \<open>Groups\<close>

record flagGroup =
  g_Title :: string
  g_Flags :: "string list"

definition groups :: "flagGroup list" where
  "groups =
     [\<lparr>g_Title = ''Common'', g_Flags = [''issuer'', ''client-id'', ''scope'', ''audience'', ''grant-type'',
        ''token-type'', ''config'']\<rparr>,
      \<lparr>g_Title = ''Output'', g_Flags = [''format'', ''all'', ''logout'', ''non-interactive'']\<rparr>,
      \<lparr>g_Title = ''Token Storage'', g_Flags = [''token-store'', ''token-store-dir'']\<rparr>,
      \<lparr>g_Title = ''Advanced - Client Authentication'', g_Flags = [''client-auth-method'', ''client-secret'',
        ''client-secret-file'', ''private-key-file'', ''private-key-id'', ''private-key-alg'',
        ''client-assertion-audience'']\<rparr>,
      \<lparr>g_Title = ''Advanced - Token Exchange (--grant-type=token-exchange)'', g_Flags = [''subject-token'',
        ''subject-token-file'', ''subject-token-type'', ''subject-token-source'', ''requested-token-type'',
        ''resource'']\<rparr>,
      \<lparr>g_Title = ''Advanced - Other'', g_Flags = [''redirect'', ''extra'']\<rparr>]"

section \<open>One flag\<close>

abbreviation newline :: char where "newline \<equiv> CHR 0x0A"

text \<open>Between two back quotes in the usage; \<^verbatim>\<open>flag.UnquoteUsage\<close> falls back on the type's name.\<close>

fun type_name :: "flag_value \<Rightarrow> string" where
  "type_name (StringValue _) = ''string''"
| "type_name (BoolValue _) = []"
| "type_name (IntValue _) = ''int''"
| "type_name (SliceValue _) = ''value''"
| "type_name (ExtraValue _) = ''value''"

definition UnquoteUsage :: "flag \<Rightarrow> string \<times> string" where
  "UnquoteUsage f =
     (case Cut (CHR 0x60) (fl_Usage f) of
        (before, rest, True) \<Rightarrow>
          (case Cut (CHR 0x60) rest of
             (name, after, True) \<Rightarrow> (name, before @ name @ after)
           | _ \<Rightarrow> (type_name (fl_Value f), fl_Usage f))
      | _ \<Rightarrow> (type_name (fl_Value f), fl_Usage f))"

fun isStringFlag :: "flag_value \<Rightarrow> bool" where
  "isStringFlag (StringValue _) = True"
| "isStringFlag _ = False"

fun zero_value :: "flag_value \<Rightarrow> flag_value" where
  "zero_value (StringValue _) = StringValue []"
| "zero_value (BoolValue _) = BoolValue False"
| "zero_value (IntValue _) = IntValue 0"
| "zero_value (SliceValue _) = SliceValue []"
| "zero_value (ExtraValue _) = ExtraValue []"

definition isZeroValue :: "flag \<Rightarrow> string \<Rightarrow> bool" where
  "isZeroValue f value \<longleftrightarrow> value = value_String (zero_value (fl_Value f))"

text \<open>A newline and the indentation of the usage text: six blanks and a tab.\<close>

definition usage_indent :: string where
  "usage_indent = newline # ''      '' @ [CHR 0x09]"

definition printFlag :: "flag \<Rightarrow> line" where
  "printFlag f =
     (let (name, usage) = UnquoteUsage f in
      [T ''    -'', S (fl_Name f)] @
      (if name \<noteq> [] then [T '' '', S name] else []) @
      [T usage_indent, S (concat (map (\<lambda>c. if c = newline then usage_indent else [c]) usage))] @
      (if \<not> isZeroValue f (fl_DefValue f) then [T '' (default '', S (fl_DefValue f), T '')''] else []))"

section \<open>The whole text\<close>

definition Lookup :: "flagset \<Rightarrow> string \<Rightarrow> flag option" where
  "Lookup fs n = map_of (formal fs) n"

text \<open>\<^verbatim>\<open>VisitAll\<close> goes through the flags in the order of their names.\<close>

fun insert_flag :: "flag \<Rightarrow> flag list \<Rightarrow> flag list" where
  "insert_flag f [] = [f]"
| "insert_flag f (g # gs) = (if string_le (fl_Name f) (fl_Name g) then f # g # gs else g # insert_flag f gs)"

definition VisitAll :: "flagset \<Rightarrow> flag list" where
  "VisitAll fs = foldr insert_flag (map snd (formal fs)) []"

definition group_present :: "flagset \<Rightarrow> flagGroup \<Rightarrow> flag list" where
  "group_present fs g = List.map_filter (Lookup fs) (g_Flags g)"

text \<open>A group with none of its flags registered is left out; every group but the first follows a blank line.\<close>

fun print_groups :: "flagset \<Rightarrow> bool \<Rightarrow> flagGroup list \<Rightarrow> line list" where
  "print_groups fs first [] = []"
| "print_groups fs first (g # gs) =
     (if group_present fs g = [] then []
      else (if first then [] else [[]]) @ [[T ''  '', S (g_Title g), T '':'']] @ map printFlag (group_present fs g)) @
     print_groups fs False gs"

definition seen_flags :: "flagset \<Rightarrow> string list" where
  "seen_flags fs = filter (\<lambda>n. Lookup fs n \<noteq> None) (concat (map g_Flags groups))"

definition other_flags :: "flagset \<Rightarrow> flag list" where
  "other_flags fs = filter (\<lambda>f. fl_Name f \<notin> set (seen_flags fs)) (VisitAll fs)"

definition printGroupedUsage :: "flagset \<Rightarrow> line list" where
  "printGroupedUsage fs =
     print_groups fs True groups @
     (if other_flags fs \<noteq> [] then [[], [T ''  Other:'']] @ map printFlag (other_flags fs) else [])"

section \<open>Every flag once\<close>

text \<open>What a sequence of registrations with different names gives.\<close>

definition wf_flagset :: "flagset \<Rightarrow> bool" where
  "wf_flagset fs \<longleftrightarrow> distinct (map fst (formal fs)) \<and> list_all (\<lambda>(n, f). fl_Name f = n) (formal fs)"

text \<open>A line that shows a flag, and not a title or a blank line.\<close>

definition flag_line :: "line \<Rightarrow> bool" where
  "flag_line l \<longleftrightarrow> take 1 l = [T ''    -'']"

lemma flag_line_printFlag [simp]: "flag_line (printFlag f)"
  by (simp add: flag_line_def printFlag_def split: prod.split)

lemma flag_line_title [simp]: "\<not> flag_line [T ''  '', S t, T '':'']" "\<not> flag_line []" "\<not> flag_line [T ''  Other:'']"
  by (simp_all add: flag_line_def)

lemma filter_flag_lines [simp]: "filter flag_line (map printFlag fs) = map printFlag fs"
  by (induction fs) simp_all

lemma flag_lines_groups:
  "filter flag_line (print_groups fs first gs) = map printFlag (concat (map (group_present fs) gs))"
  by (induction fs first gs rule: print_groups.induct) auto

lemma flag_lines_usage:
  "filter flag_line (printGroupedUsage fs) =
     map printFlag (List.map_filter (Lookup fs) (concat (map g_Flags groups)) @ other_flags fs)"
proof -
  have "concat (map (group_present fs) gs) = List.map_filter (Lookup fs) (concat (map g_Flags gs))" for gs
    by (induction gs) (simp_all add: group_present_def map_filter_def)
  then show ?thesis
    by (simp add: printGroupedUsage_def flag_lines_groups)
qed

lemma mset_insert_flag: "mset (insert_flag f fs) = add_mset f (mset fs)"
  by (induction fs) auto

lemma mset_VisitAll: "mset (VisitAll fs) = mset (map snd (formal fs))"
proof -
  have "mset (foldr insert_flag xs []) = mset xs" for xs
    by (induction xs) (simp_all add: mset_insert_flag)
  then show ?thesis by (simp add: VisitAll_def)
qed

text \<open>Looking up distinct names gives the flags of those names.\<close>

lemma mset_lookup:
  assumes "distinct ns" "wf_flagset fs"
  shows "mset (List.map_filter (Lookup fs) ns) = mset (filter (\<lambda>f. fl_Name f \<in> set ns) (map snd (formal fs)))"
  using assms(2)
proof (induction "formal fs" arbitrary: fs)
  case Nil
  have "List.map_filter (\<lambda>n. map_of [] n) ns = []" by (induction ns) (simp_all add: map_filter_def)
  then show ?case using Nil by (simp add: Lookup_def map_filter_def)
next
  case (Cons p ps)
  obtain n f where p: "p = (n, f)" by (cases p)
  have nf: "fl_Name f = n" and fresh: "n \<notin> fst ` set ps"
    using Cons(2,3) p by (auto simp: wf_flagset_def Cons(2) [symmetric])
  have IH: "mset (List.map_filter (map_of ps) ns) = mset (filter (\<lambda>f. fl_Name f \<in> set ns) (map snd ps))"
    using Cons(1) [of "fs\<lparr>formal := ps\<rparr>"] Cons(2,3)
    by (simp add: wf_flagset_def Lookup_def [abs_def] Cons(2) [symmetric])
  have none: "map_of ps n = None" using fresh by (simp add: map_of_eq_None_iff)
  have "mset (List.map_filter (map_of (p # ps)) ks) =
      (if n \<in> set ks then {#f#} else {#}) + mset (List.map_filter (map_of ps) ks)" if "distinct ks" for ks
    using that by (induction ks) (auto simp: map_filter_def p none split: if_splits)
  then show ?case
    using assms(1) IH by (simp add: Lookup_def [abs_def] p nf Cons(2) [symmetric])
qed

end
