(* ===== verification/Config.thy ===== *)
theory Config
  imports Grants Usage CacheFile
begin

text \<open>
  internal/config/config.go: the configuration and how it is built from defaults, the environment,
  a JSON file and flags. \<open>targets\<close> is the record of everything the config fields point into: the
  \<^verbatim>\<open>Config\<close>, the intermediate strings of \<^verbatim>\<open>Parse\<close> and the grants' own state.
\<close>

section \<open>State\<close>

text \<open>A \<^verbatim>\<open>crypto.Signer\<close> is opaque: the program only hands it on.\<close>

type_synonym signer = string

record config =
  c_Issuer :: string
  c_ClientID :: string
  c_Scope :: string
  c_Audience :: string
  c_GrantType :: string
  c_TokenType :: string
  c_TokenStoreDir :: string
  c_TokenStore :: string
  c_RedirectPort :: int
  c_NonInteractive :: bool
  c_Format :: string
  c_All :: bool
  c_Logout :: bool
  c_ExtraFields :: vals
  c_ClientAuthMethod :: string
  c_ClientSecret :: string
  c_PrivateKeyPath :: string
  c_PrivateKeyID :: string
  c_PrivateKeySigningAlg :: string
  c_ClientAssertionAudience :: string
  c_PrivateKey :: "signer option"
  c_SubjectToken :: string
  c_SubjectTokenType :: string
  c_RequestedTokenType :: string
  c_Resources :: "string list"
  c_SubjectTokenSource :: string

record targets =
  t_cfg :: config
  t_grantType :: string
  t_tokenType :: string
  t_tokenStore :: string
  t_format :: string
  t_clientAuth :: string
  t_grants :: grant_state

text \<open>Constants: grant types, token types, formats, client authentication, stores.\<close>

definition GrantAuto :: string where "GrantAuto = ''auto''"
definition GrantAuthCode :: string where "GrantAuthCode = ''authcode''"
definition GrantDeviceCode :: string where "GrantDeviceCode = ''device-code''"
definition GrantTokenExchange :: string where "GrantTokenExchange = ''token-exchange''"
definition OutputFormatToken :: string where "OutputFormatToken = ''token''"
definition OutputFormatJSON :: string where "OutputFormatJSON = ''json''"
definition OutputFormatExecCredential :: string where "OutputFormatExecCredential = ''exec-credential''"
definition ClientAuthNone :: string where "ClientAuthNone = []"
definition ClientAuthSecretBasic :: string where "ClientAuthSecretBasic = ''client_secret_basic''"
definition ClientAuthSecretPost :: string where "ClientAuthSecretPost = ''client_secret_post''"
definition ClientAuthPrivateKeyJWT :: string where "ClientAuthPrivateKeyJWT = ''private_key_jwt''"
definition BackendAuto :: string where "BackendAuto = ''auto''"
definition BackendKeychain :: string where "BackendKeychain = ''keychain''"
definition BackendFile :: string where "BackendFile = ''file''"
definition BackendNone :: string where "BackendNone = ''none''"
definition DefaultScope :: string where "DefaultScope = ''openid offline_access''"
definition DefaultPrivateKeySigningAlg :: string where "DefaultPrivateKeySigningAlg = ''RS256''"

lemmas config_constants = GrantAuto_def GrantAuthCode_def GrantDeviceCode_def GrantTokenExchange_def
  OutputFormatToken_def OutputFormatJSON_def OutputFormatExecCredential_def ClientAuthNone_def
  ClientAuthSecretBasic_def ClientAuthSecretPost_def ClientAuthPrivateKeyJWT_def BackendAuto_def
  BackendKeychain_def BackendFile_def BackendNone_def DefaultScope_def DefaultPrivateKeySigningAlg_def
  TokenTypeAccessToken_def TokenTypeIDToken_def

text \<open>The algorithms of go-jose are named by the strings they are registered under.\<close>

definition validSigningAlgs :: "(string \<times> string) list" where
  "validSigningAlgs = map (\<lambda>a. (a, a))
     [''RS256'', ''RS384'', ''RS512'', ''PS256'', ''PS384'', ''PS512'', ''ES256'', ''ES384'', ''ES512'']"

definition SigningAlg :: "config \<Rightarrow> string" where
  "SigningAlg c = (case map_of validSigningAlgs (c_PrivateKeySigningAlg c) of Some a \<Rightarrow> a | None \<Rightarrow> [])"

definition Env_get :: "(string \<Rightarrow> string) option \<Rightarrow> string \<Rightarrow> string" where
  "Env_get e key = (case e of None \<Rightarrow> [] | Some getenv \<Rightarrow> getenv key)"

definition new_config :: config where
  "new_config = \<lparr>c_Issuer = [], c_ClientID = [], c_Scope = DefaultScope, c_Audience = [],
     c_GrantType = GrantAuto, c_TokenType = TokenTypeAccessToken, c_TokenStoreDir = [],
     c_TokenStore = BackendAuto, c_RedirectPort = 0, c_NonInteractive = False, c_Format = [],
     c_All = False, c_Logout = False, c_ExtraFields = [], c_ClientAuthMethod = [], c_ClientSecret = [],
     c_PrivateKeyPath = [], c_PrivateKeyID = [], c_PrivateKeySigningAlg = DefaultPrivateKeySigningAlg,
     c_ClientAssertionAudience = [], c_PrivateKey = None, c_SubjectToken = [], c_SubjectTokenType = [],
     c_RequestedTokenType = [], c_Resources = [], c_SubjectTokenSource = []\<rparr>"

definition new_targets :: "grant_state \<Rightarrow> targets" where
  "new_targets g = \<lparr>t_cfg = new_config, t_grantType = GrantAuto, t_tokenType = TokenTypeAccessToken,
     t_tokenStore = BackendAuto, t_format = OutputFormatToken, t_clientAuth = [], t_grants = g\<rparr>"

section \<open>The table\<close>

abbreviation on_cfg :: "(config \<Rightarrow> config) \<Rightarrow> targets \<Rightarrow> targets" where
  "on_cfg f t \<equiv> t\<lparr>t_cfg := f (t_cfg t)\<rparr>"

definition on_grants :: "targets on_grants" where
  "on_grants f t = t\<lparr>t_grants := f (t_grants t)\<rparr>"

definition universal_fields :: "targets field list" where
  "universal_fields =
     [StringField (\<lambda>v. on_cfg (c_Issuer_update (\<lambda>_. v))) ''issuer'' ''OIDC_TOKEN_ISSUER'' ''issuer'' ''OIDC issuer URL'' [],
      StringField (\<lambda>v. on_cfg (c_ClientID_update (\<lambda>_. v))) ''client-id'' ''OIDC_TOKEN_CLIENT_ID'' ''client_id'' ''OAuth2 client ID'' [],
      StringField (\<lambda>v. on_cfg (c_Scope_update (\<lambda>_. v))) ''scope'' ''OIDC_TOKEN_SCOPE'' ''scope'' ''space-separated OAuth2 scopes'' DefaultScope,
      StringField (\<lambda>v. on_cfg (c_Audience_update (\<lambda>_. v))) ''audience'' ''OIDC_TOKEN_AUDIENCE'' ''audience'' ''audience (aud) claim for the token request'' [],
      StringField (\<lambda>v. t_grantType_update (\<lambda>_. v)) ''grant-type'' ''OIDC_TOKEN_GRANT_TYPE'' ''grant_type'' ''auto|authcode|device-code|token-exchange'' GrantAuto,
      StringField (\<lambda>v. t_tokenType_update (\<lambda>_. v)) ''token-type'' ''OIDC_TOKEN_TOKEN_TYPE'' ''token_type'' ''access_token|id_token'' TokenTypeAccessToken,
      StringField (\<lambda>v. on_cfg (c_TokenStoreDir_update (\<lambda>_. v))) ''token-store-dir'' ''OIDC_TOKEN_STORE_DIR'' ''token_store_dir'' ''token store directory for the file backend'' [],
      StringField (\<lambda>v. t_tokenStore_update (\<lambda>_. v)) ''token-store'' ''OIDC_TOKEN_STORE'' ''token_store'' ''auto|keychain|file|none'' BackendAuto,
      BoolField (\<lambda>v. on_cfg (c_NonInteractive_update (\<lambda>_. v))) ''non-interactive'' ''OIDC_TOKEN_NON_INTERACTIVE'' ''non_interactive'' ''disable browser and device-code prompts'' False,
      StringField (\<lambda>v. t_format_update (\<lambda>_. v)) ''format'' ''OIDC_TOKEN_FORMAT'' ''format'' ''token|json|exec-credential'' OutputFormatToken,
      BoolField (\<lambda>v. on_cfg (c_All_update (\<lambda>_. v))) ''all'' [] ''all'' ''print full JSON token response (deprecated: use --format=json)'' False,
      BoolField (\<lambda>v. on_cfg (c_Logout_update (\<lambda>_. v))) ''logout'' ''OIDC_TOKEN_LOGOUT'' ''logout'' ''clear cached tokens and exit'' False,
      StringField (\<lambda>v. t_clientAuth_update (\<lambda>_. v)) ''client-auth-method'' ''OIDC_TOKEN_CLIENT_AUTH_METHOD'' ''client_auth_method'' ''client_secret_basic|client_secret_post|private_key_jwt'' [],
      StringField (\<lambda>v. on_cfg (c_ClientSecret_update (\<lambda>_. v))) ''client-secret'' ''OIDC_TOKEN_CLIENT_SECRET'' ''client_secret'' ''client secret for client_secret_basic or client_secret_post'' [],
      StringField (\<lambda>v. on_cfg (c_PrivateKeyPath_update (\<lambda>_. v))) ''private-key-file'' ''OIDC_TOKEN_PRIVATE_KEY_FILE'' ''private_key_file'' ''PEM private key file for private_key_jwt'' [],
      StringField (\<lambda>v. on_cfg (c_PrivateKeyID_update (\<lambda>_. v))) ''private-key-id'' ''OIDC_TOKEN_PRIVATE_KEY_ID'' ''private_key_id'' ''kid header for the private_key_jwt assertion'' [],
      StringField (\<lambda>v. on_cfg (c_PrivateKeySigningAlg_update (\<lambda>_. v))) ''private-key-alg'' ''OIDC_TOKEN_PRIVATE_KEY_ALG'' ''private_key_alg'' ''signing algorithm for private_key_jwt'' DefaultPrivateKeySigningAlg,
      StringField (\<lambda>v. on_cfg (c_ClientAssertionAudience_update (\<lambda>_. v))) ''client-assertion-audience'' ''OIDC_TOKEN_CLIENT_ASSERTION_AUDIENCE'' ''client_assertion_audience'' ''aud claim override for private_key_jwt'' []]"

definition all_fields :: "grant list \<Rightarrow> targets field list" where
  "all_fields grants = universal_fields @ concat (map (grant_Fields on_grants) grants)"

text \<open>The registrations, in their order: two special flags, the table, the grants' own, \<^verbatim>\<open>--extra\<close>.\<close>

definition new_flagset :: flagset where
  "new_flagset = \<lparr>formal = [], actual = []\<rparr>"

definition register_all :: "grant list \<Rightarrow> flagset" where
  "register_all grants =
     register (new_flag ''extra'' ''extra key=value pair for the token endpoint (repeatable)'' (ExtraValue []))
       (fold RegisterFlags grants
         (fold Register (all_fields grants)
           (register (new_flag ''client-secret-file'' ''file containing the client secret'' (StringValue []))
             (register (new_flag ''config'' ''path to a JSON config file'' (StringValue [])) new_flagset))))"

section \<open>Steps of Parse\<close>

text \<open>A step that fails ends the function with its error; otherwise the next continues with its result.\<close>

definition bind_w ::
  "('w \<Rightarrow> (error + 'a) \<times> 'w) \<Rightarrow> ('a \<Rightarrow> 'w \<Rightarrow> (error + 'b) \<times> 'w) \<Rightarrow> 'w \<Rightarrow> (error + 'b) \<times> 'w" where
  "bind_w m f w = (case m w of (Inl e, w') \<Rightarrow> (Inl e, w') | (Inr x, w') \<Rightarrow> f x w')"

lemma bind_w_Inr:
  "bind_w m f w = (Inr y, w') \<longleftrightarrow> (\<exists>x w1. m w = (Inr x, w1) \<and> f x w1 = (Inr y, w'))"
  by (auto simp: bind_w_def split: prod.splits sum.splits)

definition usage_text :: "flagset \<Rightarrow> line list" where
  "usage_text fs =
     [[T ''Usage: oidc-token [flags]''], [],
      [T ''Mint and print an OIDC token for a public or confidential OIDC client.''], []] @ printGroupedUsage fs"

definition parse_flags :: "grant list \<Rightarrow> string list \<Rightarrow> 'x world \<Rightarrow> (error + flagset) \<times> 'x world" where
  "parse_flags grants args w =
     (case flag_Parse usage_text args (register_all grants) of
        (Some err, _, out) \<Rightarrow> (Inl err, w\<lparr>std_err := std_err w @ out\<rparr>)
      | (None, fs, _) \<Rightarrow> (Inr fs, w))"

text \<open>Step 2: the config file as a raw map; the map is nil when there is no file, or it says null.\<close>

definition read_config_file :: "os \<Rightarrow> string \<Rightarrow> 'x world \<Rightarrow> (error + jmap option) \<times> 'x world" where
  "read_config_file os p w =
     (if p \<noteq> [] then
        (case ReadFile os p w of
           (Inl err, w') \<Rightarrow> (Inl (wrap ''config: read config file: '' err), w')
         | (Inr b, w') \<Rightarrow>
             (case unmarshal_map b of
                (m, True) \<Rightarrow> (Inr m, w')
              | _ \<Rightarrow> (Inl (wrap ''config: parse config file: '' (External ''json'')), w')))
      else (Inr None, w))"

text \<open>Step 3, the loop over the fields, is \<^const>\<open>resolve_all\<close>. Step 4: the typed copies.\<close>

definition copy_typed :: "flagset \<Rightarrow> targets \<Rightarrow> config" where
  "copy_typed fs t =
     (let c = (t_cfg t)\<lparr>c_GrantType := t_grantType t, c_TokenType := t_tokenType t,
                c_TokenStore := t_tokenStore t, c_ClientAuthMethod := t_clientAuth t, c_Format := t_format t\<rparr>
      in if \<not> explicit fs ''format'' \<and> c_All c then c\<lparr>c_Format := OutputFormatJSON\<rparr> else c)"

text \<open>Step 5: \<^verbatim>\<open>--extra\<close> and the file's \<^verbatim>\<open>extra\<close>; the latter's string members are \<^verbatim>\<open>Set\<close> one by one.\<close>

fun set_members :: "(string \<times> json) list \<Rightarrow> vals \<Rightarrow> vals" where
  "set_members [] v = v"
| "set_members ((k, JStr s) # ms) v = set_members ms (vals_Set k s v)"
| "set_members (_ # ms) v = set_members ms v"

definition flag_extras :: "flag_value option \<Rightarrow> vals" where
  "flag_extras v = (case v of Some (ExtraValue x) \<Rightarrow> x | _ \<Rightarrow> [])"

definition apply_extra :: "flagset \<Rightarrow> jmap option \<Rightarrow> config \<Rightarrow> config" where
  "apply_extra fs rawFC c =
     (let c1 = (if explicit fs ''extra'' then c\<lparr>c_ExtraFields := flag_extras (flag_of fs ''extra'')\<rparr> else c)
      in case rawFC of
           None \<Rightarrow> c1
         | Some m \<Rightarrow>
             (case map_of m ''extra'' of
                Some (JObj ms) \<Rightarrow> c1\<lparr>c_ExtraFields := set_members ms (c_ExtraFields c1)\<rparr>
              | _ \<Rightarrow> c1))"

definition apply_secret_file :: "os \<Rightarrow> flagset \<Rightarrow> config \<Rightarrow> 'x world \<Rightarrow> (error + config) \<times> 'x world" where
  "apply_secret_file os fs c w =
     (if explicit fs ''client-secret-file'' then
        (case ReadFile os (string_of_flag (flag_of fs ''client-secret-file'')) w of
           (Inl err, w') \<Rightarrow> (Inl (wrap ''config: read --client-secret-file: '' err), w')
         | (Inr secret, w') \<Rightarrow> (Inr (c\<lparr>c_ClientSecret := trim_newlines secret\<rparr>), w'))
      else (Inr c, w))"

definition apply_default_dir ::
  "(string \<Rightarrow> string) \<Rightarrow> (error + string) \<Rightarrow> config \<Rightarrow> 'x world \<Rightarrow> (error + config) \<times> 'x world" where
  "apply_default_dir getenv home c w =
     (if c_TokenStoreDir c = [] \<and> c_TokenStore c \<noteq> BackendNone then
        (case DefaultDir getenv home of
           Inl err \<Rightarrow> (Inl (wrap ''config: '' err), w)
         | Inr dir \<Rightarrow> (Inr (c\<lparr>c_TokenStoreDir := dir\<rparr>), w))
      else (Inr c, w))"

text \<open>Step 6.\<close>

fun finalize_all ::
  "os \<Rightarrow> 'x world subject_source list \<Rightarrow> flagset \<Rightarrow> grant list \<Rightarrow> grant_state \<Rightarrow> 'x world \<Rightarrow> (error + grant_state) \<times> 'x world" where
  "finalize_all os sources fs [] g w = (Inr g, w)"
| "finalize_all os sources fs (gr # grs) g w =
     bind_w (Finalize os sources fs gr g) (finalize_all os sources fs grs) w"

text \<open>Step 7: \<^verbatim>\<open>Config.validate\<close>.\<close>

definition validate_grant_type :: "grant list \<Rightarrow> string \<Rightarrow> error option" where
  "validate_grant_type grants gt =
     (if gt \<noteq> GrantAuto \<and> gt \<notin> set (map grant_Name grants) then
        Some (Errorf [T ''config: invalid --grant-type '', S gt, T '' (want '',
          S (string_Join (''auto'' # map grant_Name grants) ''|''), T '')''])
      else None)"

definition validate_client_auth :: "config \<Rightarrow> error option" where
  "validate_client_auth c =
     (if c_ClientAuthMethod c = ClientAuthSecretBasic \<or> c_ClientAuthMethod c = ClientAuthSecretPost then
        if c_ClientSecret c = [] then
          Some (Errorf [T ''config: --client-auth-method='', S (c_ClientAuthMethod c),
            T '' requires --client-secret or --client-secret-file''])
        else None
      else if c_ClientAuthMethod c = ClientAuthPrivateKeyJWT then
        if c_PrivateKeyPath c = [] then
          Some (errorf ''config: --client-auth-method=private_key_jwt requires --private-key-file'')
        else if map_of validSigningAlgs (c_PrivateKeySigningAlg c) = None then
          Some (Errorf [T ''config: invalid --private-key-alg '', S (c_PrivateKeySigningAlg c)])
        else None
      else if c_ClientAuthMethod c = ClientAuthNone then
        if c_ClientSecret c \<noteq> [] \<or> c_PrivateKeyPath c \<noteq> [] then
          Some (errorf ''config: --client-secret/--private-key-file require --client-auth-method to be set'')
        else None
      else None)"

definition validate :: "grant list \<Rightarrow> config \<Rightarrow> error option" where
  "validate grants c =
     (if c_Issuer c = [] then Some (errorf ''config: --issuer is required'')
      else if c_ClientID c = [] then Some (errorf ''config: --client-id is required'')
      else if validate_grant_type grants (c_GrantType c) \<noteq> None then validate_grant_type grants (c_GrantType c)
      else if c_TokenType c \<notin> {TokenTypeAccessToken, TokenTypeIDToken} then
        Some (Errorf [T ''config: invalid --token-type '', S (c_TokenType c), T '' (want access_token|id_token)''])
      else if c_Format c \<notin> {OutputFormatToken, OutputFormatJSON, OutputFormatExecCredential} then
        Some (Errorf [T ''config: invalid --format '', S (c_Format c), T '' (want token|json|exec-credential)''])
      else if c_TokenStore c \<notin> {BackendAuto, BackendKeychain, BackendFile, BackendNone} then
        Some (Errorf [T ''config: invalid --token-store '', S (c_TokenStore c), T '' (want auto|keychain|file|none)''])
      else if c_ClientAuthMethod c \<notin> {ClientAuthNone, ClientAuthSecretBasic, ClientAuthSecretPost, ClientAuthPrivateKeyJWT} then
        Some (Errorf [T ''config: invalid --client-auth-method '', S (c_ClientAuthMethod c),
          T '' (want \"\"|client_secret_basic|client_secret_post|private_key_jwt)''])
      else validate_client_auth c)"

text \<open>Step 8.\<close>

fun validate_grants :: "'w subject_source list \<Rightarrow> string \<Rightarrow> grant list \<Rightarrow> grant_state \<Rightarrow> error option" where
  "validate_grants sources gt [] g = None"
| "validate_grants sources gt (gr # grs) g =
     (case (if grant_Name gr = gt then Validate sources gr g else ValidateNotSelected gr g) of
        Some err \<Rightarrow> Some err
      | None \<Rightarrow> validate_grants sources gt grs g)"

text \<open>Step 9.\<close>

definition bridge_copy :: "config_bridge \<Rightarrow> config \<Rightarrow> config" where
  "bridge_copy b c =
     c\<lparr>c_SubjectToken := (if b_SubjectToken b \<noteq> [] then b_SubjectToken b else c_SubjectToken c),
       c_SubjectTokenType := (if b_SubjectTokenType b \<noteq> [] then b_SubjectTokenType b else c_SubjectTokenType c),
       c_RequestedTokenType := (if b_RequestedTokenType b \<noteq> [] then b_RequestedTokenType b else c_RequestedTokenType c),
       c_Resources := (if b_Resources b \<noteq> [] then b_Resources b else c_Resources c),
       c_SubjectTokenSource := (if b_SubjectTokenSource b \<noteq> [] then b_SubjectTokenSource b else c_SubjectTokenSource c),
       c_RedirectPort := (if b_RedirectPort b \<noteq> 0 then b_RedirectPort b else c_RedirectPort c)\<rparr>"

text \<open>
  PEM and X.509 are parameters: the bytes of the first block, and the three parsers;
  \<^verbatim>\<open>ParsePKCS8PrivateKey\<close> returns a key that may not be a signer (\<open>Inr None\<close>).
\<close>

record key_parsers =
  pem_Decode :: "string \<Rightarrow> string option"
  ParsePKCS8 :: "string \<Rightarrow> error + signer option"
  ParsePKCS1 :: "string \<Rightarrow> error + signer"
  ParseEC :: "string \<Rightarrow> error + signer"

definition resolvePrivateKey ::
  "os \<Rightarrow> key_parsers \<Rightarrow> config \<Rightarrow> 'x world \<Rightarrow> (error + config) \<times> 'x world" where
  "resolvePrivateKey os kp c w =
     (if c_ClientAuthMethod c \<noteq> ClientAuthPrivateKeyJWT then (Inr c, w)
      else (case ReadFile os (c_PrivateKeyPath c) w of
          (Inl err, w') \<Rightarrow> (Inl (wrap ''config: read --private-key-file: '' err), w')
        | (Inr b, w') \<Rightarrow>
            (case pem_Decode kp b of
               None \<Rightarrow> (Inl (Errorf [T ''config: --private-key-file '', S (c_PrivateKeyPath c), T '' contains no PEM block'']), w')
             | Some block \<Rightarrow>
                 (case ParsePKCS8 kp block of
                    Inr None \<Rightarrow> (Inl (Errorf [T ''config: --private-key-file '', S (c_PrivateKeyPath c),
                       T '' does not contain a signing key'']), w')
                  | Inr (Some key) \<Rightarrow> (Inr (c\<lparr>c_PrivateKey := Some key\<rparr>), w')
                  | Inl _ \<Rightarrow>
                      (case ParsePKCS1 kp block of
                         Inr key \<Rightarrow> (Inr (c\<lparr>c_PrivateKey := Some key\<rparr>), w')
                       | Inl _ \<Rightarrow>
                           (case ParseEC kp block of
                              Inr key \<Rightarrow> (Inr (c\<lparr>c_PrivateKey := Some key\<rparr>), w')
                            | Inl _ \<Rightarrow> (Inl (Errorf [T ''config: --private-key-file '', S (c_PrivateKeyPath c),
                                T '' is not a supported PEM-encoded private key (want PKCS#1, PKCS#8, or EC)'']), w')))))))"

section \<open>Parse\<close>

text \<open>Everything outside the arguments and the file system that a configuration depends on.\<close>

record parse_env =
  pe_Getenv :: "(string \<Rightarrow> string) option"
  pe_Home :: "error + string"
  pe_Keys :: key_parsers

text \<open>From the resolved targets on: steps 4 to 9 and the private key.\<close>

definition finish_Parse ::
  "os \<Rightarrow> parse_env \<Rightarrow> 'x world subject_source list \<Rightarrow> grant list \<Rightarrow> flagset \<Rightarrow> jmap option \<Rightarrow> targets \<Rightarrow>
   'x world \<Rightarrow> (error + config \<times> grant_state) \<times> 'x world" where
  "finish_Parse os pe sources grants fs rawFC t =
     bind_w (apply_secret_file os fs (apply_extra fs rawFC (copy_typed fs t))) (\<lambda>c0.
     bind_w (apply_default_dir (Env_get (pe_Getenv pe)) (pe_Home pe) c0) (\<lambda>c.
     bind_w (finalize_all os sources fs grants (t_grants t)) (\<lambda>g w.
       case validate grants c of
         Some err \<Rightarrow> (Inl err, w)
       | None \<Rightarrow>
           (case validate_grants sources (c_GrantType c) grants g of
              Some err \<Rightarrow> (Inl err, w)
            | None \<Rightarrow>
                bind_w (resolvePrivateKey os (pe_Keys pe) (fold (\<lambda>gr. bridge_copy (Bridge gr g)) grants c))
                  (\<lambda>c' w'. (Inr (c', g), w')) w))))"

definition Parse ::
  "os \<Rightarrow> parse_env \<Rightarrow> 'x world subject_source list \<Rightarrow> grant list \<Rightarrow> grant_state \<Rightarrow> string list \<Rightarrow>
   'x world \<Rightarrow> (error + config \<times> grant_state) \<times> 'x world" where
  "Parse os pe sources grants g0 args =
     bind_w (parse_flags grants args) (\<lambda>fs.
     bind_w (read_config_file os (string_of_flag (flag_of fs ''config''))) (\<lambda>rawFC.
       finish_Parse os pe sources grants fs rawFC
         (resolve_all (Env_get (pe_Getenv pe)) rawFC fs (all_fields grants) (new_targets g0))))"

end
