(* ===== verification/Main_Program.thy ===== *)
theory Main_Program
  imports LoginFlows Config
begin

text \<open>
  cmd/oidc-token: the wiring of the program and its exit status. \<open>run\<close> gets what the process gets
  from outside: the operating system, the keychain, the clock, the constructors of the token source
  and of the token exchanger, and how a write to standard output ends.
\<close>

section \<open>The store\<close>

type_synonym 'x result_store = "('x world, error + result) store"

definition buildStore ::
  "os \<Rightarrow> 'x keyring \<Rightarrow> config \<Rightarrow> 'x world \<Rightarrow> (error + 'x result_store) \<times> 'x world" where
  "buildStore os kr cfg w =
     (if c_TokenStore cfg = BackendFile then (Inr (file_store os (c_TokenStoreDir cfg)), w)
      else if c_TokenStore cfg = BackendKeychain then
        (case Keychain_Probe kr w of
           (Some err, w1) \<Rightarrow> (Inl (wrap ''--token-store=keychain requires a working OS keychain: '' err), w1)
         | (None, w1) \<Rightarrow> (Inr (keychain_store kr), w1))
      else if c_TokenStore cfg = BackendNone then (Inr noop_store, w)
      else (Inr (chain_store \<lparr>Backends = [OtherBackend (keychain_store kr), FileBackend (file_store os (c_TokenStoreDir cfg))],
               Logger = Some log_line\<rparr>), w))"

section \<open>Output\<close>

text \<open>A write to standard output: all bytes, or some first bytes and an error.\<close>

definition write_stdout :: "(string \<Rightarrow> nat option) \<Rightarrow> 'x world writer" where
  "write_stdout fault b w =
     (case fault b of
        None \<Rightarrow> (None, w\<lparr>std_out := std_out w @ b\<rparr>)
      | Some n \<Rightarrow> (Some (OsError EIO), w\<lparr>std_out := std_out w @ take n b\<rparr>))"

text \<open>\<^verbatim>\<open>bytes.Buffer\<close>.\<close>

definition buffer :: "string writer" where
  "buffer b buf = (None, buf @ b)"

definition report :: "error \<Rightarrow> 'x world \<Rightarrow> nat \<times> 'x world" where
  "report err w = (1, log_line [T ''error: '', W err] w)"

definition render :: "config \<Rightarrow> (string \<Rightarrow> string) \<Rightarrow> result \<Rightarrow> error option \<times> string" where
  "render cfg getenv r =
     (if c_Format cfg = OutputFormatJSON then WriteAll buffer r []
      else if c_Format cfg = OutputFormatExecCredential then
        WriteExecCredential buffer r (c_TokenType cfg) (ExecCredentialAPIVersion (Some getenv)) []
      else WriteBare buffer r (c_TokenType cfg) [])"

definition writeResult ::
  "(string \<Rightarrow> nat option) \<Rightarrow> config \<Rightarrow> (string \<Rightarrow> string) \<Rightarrow> result \<Rightarrow> 'x world \<Rightarrow> nat \<times> 'x world" where
  "writeResult fault cfg getenv r w =
     (case render cfg getenv r of
        (Some err, _) \<Rightarrow> report err w
      | (None, buf) \<Rightarrow>
          (case write_stdout fault buf w of
             (Some err, w1) \<Rightarrow> report err w1
           | (None, w1) \<Rightarrow> (0, w1)))"

section \<open>run\<close>

text \<open>\<open>me_exchange\<close> is \<^verbatim>\<open>newTokenExchange(cfg).TokenExchange\<close>; \<open>me_http\<close> the default client of the subject token source.\<close>

record 'x main_env =
  me_os :: os
  me_keyring :: "'x keyring"
  me_Getenv :: "string \<Rightarrow> string"
  me_Home :: "error + string"
  me_Keys :: key_parsers
  me_http :: "'x world http_client"
  me_now :: "'x world \<Rightarrow> gotime"
  me_fault :: "string \<Rightarrow> nat option"
  me_newSource :: "config \<Rightarrow> 'x world token_source"
  me_exchange :: "config \<Rightarrow> string \<Rightarrow> string \<Rightarrow> string \<Rightarrow> string list \<Rightarrow> 'x world \<Rightarrow> (error + result) \<times> 'x world"

definition subject_sources :: "'x main_env \<Rightarrow> 'x world subject_source list" where
  "subject_sources me = [GitHubActions (me_Getenv me) (me_http me)]"

definition parse_args :: "'x main_env \<Rightarrow> string list \<Rightarrow> 'x world \<Rightarrow> (error + config \<times> grant_state) \<times> 'x world" where
  "parse_args me args =
     Parse (me_os me) \<lparr>pe_Getenv = Some (me_Getenv me), pe_Home = me_Home me, pe_Keys = me_Keys me\<rparr>
       (subject_sources me) [AuthCode, DeviceCode, TokenExchange] new_grants args"

definition run_exchange :: "'x main_env \<Rightarrow> config \<Rightarrow> token_exchange \<Rightarrow> 'x world \<Rightarrow> nat \<times> 'x world" where
  "run_exchange me cfg te w =
     (case ResolveSubjectToken (subject_sources me) te w of
        (Inl err, w1) \<Rightarrow> report err w1
      | (Inr subjectToken, w1) \<Rightarrow>
          (case me_exchange me cfg subjectToken (c_SubjectTokenType cfg) (c_RequestedTokenType cfg) (c_Resources cfg) w1 of
             (Inl err, w2) \<Rightarrow> report err w2
           | (Inr r, w2) \<Rightarrow> writeResult (me_fault me) cfg (me_Getenv me) r w2))"

definition new_runner :: "'x main_env \<Rightarrow> config \<Rightarrow> 'x result_store \<Rightarrow> 'x world runner" where
  "new_runner me cfg store = \<lparr>rn_Cache = store, rn_Source = me_newSource me cfg, rn_Issuer = c_Issuer cfg,
     rn_ClientID = c_ClientID cfg, rn_TokenType = c_TokenType cfg, rn_now = me_now me, rn_Stderr = Some log_line\<rparr>"

definition run_cached :: "'x main_env \<Rightarrow> config \<Rightarrow> 'x world \<Rightarrow> nat \<times> 'x world" where
  "run_cached me cfg w =
     (case buildStore (me_os me) (me_keyring me) cfg w of
        (Inl err, w1) \<Rightarrow> report err w1
      | (Inr store, w1) \<Rightarrow>
          if c_Logout cfg then
            (case Logout (new_runner me cfg store) w1 of
               (Some err, w2) \<Rightarrow> report err w2
             | (None, w2) \<Rightarrow> (0, w2))
          else (case Run (new_runner me cfg store) w1 of
              (Inl err, w2) \<Rightarrow> report err w2
            | (Inr r, w2) \<Rightarrow> writeResult (me_fault me) cfg (me_Getenv me) r w2))"

definition run :: "'x main_env \<Rightarrow> string list \<Rightarrow> 'x world \<Rightarrow> nat \<times> 'x world" where
  "run me args w =
     (case parse_args me args w of
        (Inl err, w1) \<Rightarrow> if errors_Is ErrHelp err then (0, w1) else (1, log_line [W err] w1)
      | (Inr (cfg, g), w1) \<Rightarrow>
          if c_GrantType cfg = GrantTokenExchange then
            run_exchange me cfg ((gr_te g)\<lparr>te_Audience := c_Audience cfg\<rparr>) w1
          else run_cached me cfg w1)"

section \<open>The real source\<close>

text \<open>
  \<^verbatim>\<open>newRealSource\<close>, over a slot for the discovered provider: how to read and how to fill it. For a
  single process it is the first component of what the world holds outside, empty at the start.
\<close>

definition config_client_auth :: "config \<Rightarrow> client_auth" where
  "config_client_auth cfg = \<lparr>ca_method = c_ClientAuthMethod cfg, ca_secret = c_ClientSecret cfg,
     ca_signer = c_PrivateKey cfg, ca_keyID = c_PrivateKeyID cfg, ca_alg = SigningAlg cfg,
     ca_audience = c_ClientAssertionAudience cfg\<rparr>"

type_synonym 'n slot_world = "(provider option \<times> 'n) world"

definition source_over ::
  "('x world \<Rightarrow> provider option) \<Rightarrow> (provider \<Rightarrow> 'x world \<Rightarrow> 'x world) \<Rightarrow> 'x world net \<Rightarrow> environment \<Rightarrow>
    'x world opener \<Rightarrow> config \<Rightarrow> (provider, 'x world) source" where
  "source_over slot fill nt env opener cfg = \<lparr>s_Issuer = c_Issuer cfg, s_ClientID = c_ClientID cfg, s_Scope = c_Scope cfg,
     s_Audience = c_Audience cfg, s_GrantType = c_GrantType cfg, s_CallbackPort = c_RedirectPort cfg,
     s_NonInteractive = c_NonInteractive cfg, s_Env = env, s_OpenBrowser = Some opener, s_Prompt = Some log_line,
     s_ExtraFields = c_ExtraFields cfg, s_ClientAuth = config_client_auth cfg,
     s_provider = slot, s_store = fill, s_discover = Discover nt, s_ops = provider_ops nt\<rparr>"

definition newRealSource ::
  "'n slot_world net \<Rightarrow> environment \<Rightarrow> 'n slot_world opener \<Rightarrow> config \<Rightarrow> (provider, 'n slot_world) source" where
  "newRealSource =
     source_over (\<lambda>w. fst (outside w)) (\<lambda>p w. w\<lparr>outside := (Some p, snd (outside w))\<rparr>)"

definition newRealTokenExchangeSource ::
  "'n slot_world net \<Rightarrow> config \<Rightarrow> (provider, 'n slot_world) source" where
  "newRealTokenExchangeSource nt cfg = \<lparr>s_Issuer = c_Issuer cfg, s_ClientID = c_ClientID cfg, s_Scope = c_Scope cfg,
     s_Audience = c_Audience cfg, s_GrantType = [], s_CallbackPort = 0, s_NonInteractive = False,
     s_Env = \<lparr>env_TTY = False, env_Display = False\<rparr>, s_OpenBrowser = None, s_Prompt = None,
     s_ExtraFields = c_ExtraFields cfg, s_ClientAuth = config_client_auth cfg,
     s_provider = (\<lambda>w. fst (outside w)), s_store = (\<lambda>p w. w\<lparr>outside := (Some p, snd (outside w))\<rparr>),
     s_discover = Discover nt, s_ops = provider_ops nt\<rparr>"

end
