(* ===== verification/RunnerStore.thy ===== *)
theory RunnerStore
  imports Runner
begin

text \<open>
  The runner over a store that keeps its contract: every token it hands out is in the store when it
  returns, a second run is served from the store without the source, and a logout makes the next run
  log in. Proved once for every locked store; the file backend is one.
\<close>

definition same_tokens :: "entry \<Rightarrow> result \<Rightarrow> bool" where
  "same_tokens e res \<longleftrightarrow> e_AccessToken e = r_AccessToken res \<and> e_IDToken e = r_IDToken res \<and>
     e_RefreshToken e = r_RefreshToken res \<and> e_Expiry e = r_Expiry res"

lemma same_tokens_entry [simp]: "same_tokens (result_entry i c res) res" "same_tokens e (entryResult e)"
  by (simp_all add: same_tokens_def)

text \<open>
  The source returns tokens that JSON can hold, and a refresh token it accepts is one it has issued,
  so it can be held too.
\<close>

definition storable_source :: "'w runner \<Rightarrow> bool" where
  "storable_source r \<longleftrightarrow>
     (\<forall>w res w'. ts_Login (rn_Source r) w = (Inr res, w') \<longrightarrow>
        storable (result_entry (rn_Issuer r) (rn_ClientID r) res)) \<and>
     (\<forall>t w res w'. ts_Refresh (rn_Source r) t w = (Inr res, w') \<longrightarrow>
        storable (result_entry (rn_Issuer r) (rn_ClientID r) res) \<and> utf8_valid t)"

lemma storable_kept:
  "storable (result_entry i c res) \<Longrightarrow> utf8_valid t \<Longrightarrow> storable (result_entry i c (res\<lparr>r_RefreshToken := t\<rparr>))"
  by (simp add: storable_def)

definition run_key :: "'w runner \<Rightarrow> string" where
  "run_key r = profileKey (rn_Issuer r) (rn_ClientID r)"

locale runner_store = locked_store load save delete view withlock
  for load :: "string \<Rightarrow> string \<Rightarrow> 'w \<Rightarrow> (error + entry option) \<times> 'w"
    and save :: "entry \<Rightarrow> 'w \<Rightarrow> error option \<times> 'w"
    and delete :: "string \<Rightarrow> string \<Rightarrow> 'w \<Rightarrow> error option \<times> 'w"
    and view :: "'w \<Rightarrow> string \<Rightarrow> entry option"
    and withlock :: "string \<Rightarrow> string \<Rightarrow> ('w \<Rightarrow> (error + error + result) \<times> 'w) \<Rightarrow> 'w \<Rightarrow>
      (error + error + result) \<times> 'w"
begin

lemma persist_view:
  assumes "rn_Cache r = ops" "persist r (rn_Issuer r) (rn_ClientID r) res w = (None, w')"
    "storable (result_entry (rn_Issuer r) (rn_ClientID r) res)"
  shows "view w' = (view w)(run_key r \<mapsto> result_entry (rn_Issuer r) (rn_ClientID r) res)"
  using assms save_ok [OF assms(3)] by (simp add: persist_def run_key_def)

lemma tryRefresh_stored:
  assumes "rn_Cache r = ops" "storable_source r"
    "tryRefresh r (rn_Issuer r) (rn_ClientID r) e w = (Inr res, w')"
  shows "\<exists>e'. view w' (run_key r) = Some e' \<and> same_tokens e' res"
proof -
  let ?fn = "refresh_locked r (rn_Issuer r) (rn_ClientID r) e"
  have "withlock (rn_Issuer r) (rn_ClientID r) ?fn w = (Inr (Inr res), w')"
    using assms(1,3) by (auto simp: tryRefresh_def split: prod.splits sum.splits)
  then obtain v v' where v: "?fn v = (Inr (Inr res), v')" "view w' = view v'"
    by (rule lock_success)
  from v(1) show ?thesis
  proof (cases rule: refresh_locked_cases)
    case (concurrent fresh)
    then have "view v' (run_key r) = Some fresh"
      using load_view load_frame assms(1) unfolding run_key_def by (metis ops_simps(1))
    then show ?thesis using concurrent v(2) by auto
  next
    case (refreshed t u y)
    then have "refresh_with r (rn_Issuer r) (rn_ClientID r) t u = (Inr res, v')" by simp
    then show ?thesis
    proof (cases rule: refresh_with_cases)
      case (saved res0 res' u1 u2)
      have st: "storable (result_entry (rn_Issuer r) (rn_ClientID r) res')"
        using assms(2) saved(2,4) storable_kept unfolding storable_source_def by metis
      have "view v' (run_key r) = Some (result_entry (rn_Issuer r) (rn_ClientID r) res')"
        using persist_view [OF assms(1) saved(5) st] by simp
      then show ?thesis using saved(6) v(2) by auto
    qed simp
  qed
qed

lemma Run_stored:
  assumes "rn_Cache r = ops" "storable_source r" "Run r w = (Inr res, w')"
  shows "\<exists>e. view w' (run_key r) = Some e \<and> same_tokens e res"
  using assms(3)
proof (cases rule: Run_cases)
  case (hit e)
  then show ?thesis
    using load_view load_frame assms(1) same_tokens_entry(2) unfolding run_key_def
    by (metis ops_simps(1) sum.inject(2))
next
  case (refreshed e w1 res')
  then show ?thesis using tryRefresh_stored [OF assms(1,2)] by simp
next
  case (login v)
  then show ?thesis
  proof (cases rule: login_cases)
    case (saved res0 u w1 w2)
    have "storable (result_entry (rn_Issuer r) (rn_ClientID r) res0)"
      using assms(2) saved(1) unfolding storable_source_def by blast
    then show ?thesis using persist_view [OF assms(1) saved(3)] saved(4) by auto
  qed simp_all
qed simp

text \<open>The second run: whatever source it has, it answers with the tokens of the first.\<close>

lemma Run_again:
  assumes "rn_Cache r = ops" "storable_source r" "Run r w = (Inr res, w')"
    and "rn_Cache r' = ops" "rn_Issuer r' = rn_Issuer r" "rn_ClientID r' = rn_ClientID r"
    and "load (rn_Issuer r) (rn_ClientID r) w' = (Inr x, w'')"
    and "entryValid (rn_now r' w'') (result_entry (rn_Issuer r) (rn_ClientID r) res)"
  shows "\<exists>res'. Run r' w' = (Inr res', w'') \<and> r_AccessToken res' = r_AccessToken res \<and>
    r_IDToken res' = r_IDToken res \<and> r_RefreshToken res' = r_RefreshToken res \<and>
    r_Expiry res' = r_Expiry res"
proof -
  obtain e where e: "view w' (run_key r) = Some e" "same_tokens e res"
    using Run_stored [OF assms(1-3)] by blast
  then have "x = Some e" using load_view [OF assms(7)] by (simp add: run_key_def)
  moreover have "entryValid (rn_now r' w'') e"
    using assms(8) e(2) unfolding entryValid_def same_tokens_def by (auto split: if_splits)
  ultimately have "Run r' w' = (Inr (entryResult e), w'')"
    using assms(4-7) by (simp add: Run_def)
  then show ?thesis using e(2) by (simp add: same_tokens_def)
qed

text \<open>
  The loser of a race: it holds the stale entry it loaded before the lock, and finds under the lock
  what the winner stored.
\<close>

lemma tryRefresh_after:
  assumes "rn_Cache r = ops" "storable_source r"
    "tryRefresh r (rn_Issuer r) (rn_ClientID r) e w = (Inr res, w1)"
    and "rn_Cache r' = ops" "\<And>v. \<exists>x v'. load (rn_Issuer r) (rn_ClientID r) v = (Inr x, v')"
    and "\<And>v. entryValid (rn_now r' v) (result_entry (rn_Issuer r) (rn_ClientID r) res)"
    and "tryRefresh r' (rn_Issuer r) (rn_ClientID r) e' w1 = (y, w2)"
  shows "(\<exists>lockErr. withlock (rn_Issuer r) (rn_ClientID r)
      (refresh_locked r' (rn_Issuer r) (rn_ClientID r) e') w1 = (Inl lockErr, w2)) \<or>
    (\<exists>f. y = Inr (entryResult f) \<and> same_tokens f res)"
proof -
  let ?i = "rn_Issuer r" and ?c = "rn_ClientID r"
  let ?fn = "refresh_locked r' ?i ?c e'"
  obtain f where f: "view w1 (run_key r) = Some f" "same_tokens f res"
    using tryRefresh_stored [OF assms(1-3)] by blast
  have valid: "entryValid (rn_now r' v) f" for v
    using assms(6) [of v] f(2) unfolding entryValid_def same_tokens_def by (auto split: if_splits)
  obtain z where z: "withlock ?i ?c ?fn w1 = (z, w2)"
    using assms(4,7) by (auto simp: tryRefresh_def split: prod.splits sum.splits)
  show ?thesis
  proof (cases z)
    case (Inl err)
    with z show ?thesis by blast
  next
    case (Inr x)
    then obtain v v' where v: "view v = view w1" "?fn v = (Inr x, v')"
      using z lock_success by metis
    obtain g v1 where l: "load ?i ?c v = (Inr g, v1)" using assms(5) by blast
    then have "g = Some f" using load_view [OF l] v(1) f(1) by (simp add: run_key_def)
    then have "?fn v = (Inr (Inr (entryResult f)), v1)"
      using assms(4) l valid by (simp add: refresh_locked_def)
    then have "x = Inr (entryResult f)" using v(2) by simp
    then have "y = Inr (entryResult f)"
      using z Inr assms(4,7) by (simp add: tryRefresh_def)
    then show ?thesis using f(2) by blast
  qed
qed

lemma Run_after_logout:
  assumes "rn_Cache r = ops" "Logout r w = (None, w1)" "load (rn_Issuer r) (rn_ClientID r) w1 = (Inr x, w2)"
  shows "Run r w1 = login r (rn_Issuer r) (rn_ClientID r) w2"
proof -
  have "x = None" using load_after_delete assms by (simp add: Logout_def)
  then show ?thesis using assms(1,3) by (simp add: Run_def)
qed

text \<open>A run changes the entry of its own profile only.\<close>

definition quiet_source :: "'w runner \<Rightarrow> bool" where
  "quiet_source r \<longleftrightarrow> (\<forall>w. view (snd (ts_Login (rn_Source r) w)) = view w) \<and>
     (\<forall>t w. view (snd (ts_Refresh (rn_Source r) t w)) = view w) \<and>
     (\<forall>l w. view (warn r l w) = view w)"

lemma quiet_steps:
  assumes "quiet_source r"
  shows "ts_Login (rn_Source r) w = (x, w') \<Longrightarrow> view w' = view w"
    "ts_Refresh (rn_Source r) t w = (x, w') \<Longrightarrow> view w' = view w"
    "checkIDToken r res w = (y, w') \<Longrightarrow> view w' = view w"
    "view (warn r l w) = view w"
  using assms unfolding quiet_source_def checkIDToken_def
  by (auto split: option.splits if_splits) (metis snd_conv)+

lemma persist_other:
  assumes "rn_Cache r = ops" "persist r (rn_Issuer r) (rn_ClientID r) res w = (y, w')" "k \<noteq> run_key r"
  shows "view w' k = view w k"
  using save_other [of "result_entry (rn_Issuer r) (rn_ClientID r) res" w y w' k] assms
  by (simp add: persist_def run_key_def)

lemma refresh_with_isolated:
  assumes "rn_Cache r = ops" "quiet_source r" "k \<noteq> run_key r"
    "refresh_with r (rn_Issuer r) (rn_ClientID r) t w = (x, w')"
  shows "view w' k = view w k"
  using assms(4) unfolding refresh_with_def Let_def
  by (auto split: if_splits prod.splits sum.splits option.splits
      dest!: quiet_steps(2,3) [OF assms(2)] persist_other [OF assms(1) _ assms(3)])

lemma login_isolated:
  assumes "rn_Cache r = ops" "quiet_source r" "k \<noteq> run_key r"
    "login r (rn_Issuer r) (rn_ClientID r) w = (x, w')"
  shows "view w' k = view w k"
  using assms(4) unfolding login_def Let_def
  by (auto split: if_splits prod.splits sum.splits option.splits simp: quiet_steps(4) [OF assms(2)]
      dest!: quiet_steps(1,3) [OF assms(2)] persist_other [OF assms(1) _ assms(3)])

lemma refresh_locked_isolated:
  assumes "rn_Cache r = ops" "quiet_source r" "k \<noteq> run_key r"
    "refresh_locked r (rn_Issuer r) (rn_ClientID r) e w = (x, w')"
  shows "view w' k = view w k"
proof -
  obtain l w1 where l: "load (rn_Issuer r) (rn_ClientID r) w = (l, w1)"
    by (cases "load (rn_Issuer r) (rn_ClientID r) w")
  have "w' = w1 \<or> (\<exists>t y. refresh_with r (rn_Issuer r) (rn_ClientID r) t w1 = (y, w'))"
    using assms(1,4) l unfolding refresh_locked_def
    by (auto simp: apfst_def map_prod_def split: prod.splits sum.splits option.splits if_splits)
  then show ?thesis using refresh_with_isolated [OF assms(1-3)] load_frame [OF l] by auto
qed

lemma tryRefresh_isolated:
  assumes "rn_Cache r = ops" "quiet_source r" "k \<noteq> run_key r"
    "tryRefresh r (rn_Issuer r) (rn_ClientID r) e w = (x, w')"
  shows "view w' k = view w k"
proof -
  obtain y where "withlock (rn_Issuer r) (rn_ClientID r)
      (refresh_locked r (rn_Issuer r) (rn_ClientID r) e) w = (y, w')"
    using assms(1,4) by (auto simp: tryRefresh_def split: prod.splits sum.splits)
  from lock [OF this] show ?thesis
    using refresh_locked_isolated [OF assms(1-3)] by auto
qed

lemma Run_isolated:
  assumes "rn_Cache r = ops" "quiet_source r" "k \<noteq> run_key r" "Run r w = (x, w')"
  shows "view w' k = view w k"
proof -
  obtain l w1 where l: "load (rn_Issuer r) (rn_ClientID r) w = (l, w1)"
    by (cases "load (rn_Issuer r) (rn_ClientID r) w")
  have "w' = w1 \<or> (\<exists>y. login r (rn_Issuer r) (rn_ClientID r) w1 = (y, w')) \<or>
      (\<exists>e y w2. tryRefresh r (rn_Issuer r) (rn_ClientID r) e w1 = (y, w2) \<and>
         (w' = w2 \<or> (\<exists>z. login r (rn_Issuer r) (rn_ClientID r) w2 = (z, w'))))"
    using assms(1,4) l unfolding Run_def Let_def
    by (auto split: prod.splits sum.splits option.splits if_splits)
  then show ?thesis
    using login_isolated [OF assms(1-3)] tryRefresh_isolated [OF assms(1-3)] load_frame [OF l]
    by fastforce
qed

end

interpretation frun: runner_store
  "Cache_Load (strict os) dir" "Cache_Save (strict os) dir" "Cache_Delete (strict os) dir" "file_view dir"
  "Cache_WithLock os dir"
  for os dir
  by unfold_locales

end
