(* ===== verification/ConfigProps.thy ===== *)
theory ConfigProps
  imports Config
begin

text \<open>
  What \<^verbatim>\<open>config.Parse\<close> guarantees: the four layers of every table field, what a configuration that
  is returned satisfies, the flags' text, and where the file's \<^verbatim>\<open>extra\<close> stands.
\<close>

section \<open>The steps leave the other fields alone\<close>

text \<open>The fields no step after the table changes.\<close>

definition settled :: "config \<Rightarrow> string list" where
  "settled c = [c_Issuer c, c_ClientID c, c_Scope c, c_Audience c, c_GrantType c, c_TokenType c,
     c_TokenStore c, c_ClientAuthMethod c, c_PrivateKeyPath c, c_PrivateKeyID c,
     c_PrivateKeySigningAlg c, c_ClientAssertionAudience c]"

definition same_settled :: "config \<Rightarrow> config \<Rightarrow> bool" where
  "same_settled c d \<longleftrightarrow> settled c = settled d \<and> c_NonInteractive c = c_NonInteractive d \<and>
     c_Logout c = c_Logout d \<and> c_All c = c_All d \<and> c_Format c = c_Format d"

lemma same_settled_trans: "same_settled a b \<Longrightarrow> same_settled b c \<Longrightarrow> same_settled a c"
  by (simp add: same_settled_def)

lemma settled_extra: "same_settled (apply_extra fs m c) c"
  by (simp add: apply_extra_def same_settled_def settled_def Let_def split: option.split json.split)

lemma settled_secret: "apply_secret_file os fs c w = (Inr d, w') \<Longrightarrow> same_settled d c"
  by (auto simp: apply_secret_file_def same_settled_def settled_def split: if_splits prod.splits sum.splits)

lemma settled_dir: "apply_default_dir e h c w = (Inr d, w') \<Longrightarrow> same_settled d c"
  by (auto simp: apply_default_dir_def same_settled_def settled_def split: if_splits sum.splits)

lemma settled_bridge: "same_settled (bridge_copy b c) c"
  by (simp add: bridge_copy_def same_settled_def settled_def)

lemma settled_bridges: "same_settled (fold (\<lambda>gr. bridge_copy (Bridge gr g)) grants c) c"
  by (induction grants arbitrary: c)
    (auto intro: same_settled_trans settled_bridge simp: same_settled_def settled_def bridge_copy_def)

lemma settled_key: "resolvePrivateKey os kp c w = (Inr d, w') \<Longrightarrow> same_settled d c"
  by (auto simp: resolvePrivateKey_def same_settled_def settled_def
      split: if_splits prod.splits sum.splits option.splits)

text \<open>The intermediate results of a successful \<^verbatim>\<open>Parse\<close>.\<close>

lemma finish_ParseE:
  assumes "finish_Parse os pe sources grants fs rawFC t w = (Inr (c, g), w')"
  obtains c0 c1 c2 w0 w1 w2 where
    "apply_secret_file os fs (apply_extra fs rawFC (copy_typed fs t)) w = (Inr c0, w0)"
    "apply_default_dir (Env_get (pe_Getenv pe)) (pe_Home pe) c0 w0 = (Inr c1, w1)"
    "finalize_all os sources fs grants (t_grants t) w1 = (Inr g, w2)"
    "validate grants c1 = None" "validate_grants sources (c_GrantType c1) grants g = None"
    "resolvePrivateKey os (pe_Keys pe) (fold (\<lambda>gr. bridge_copy (Bridge gr g)) grants c1) w2 = (Inr c, w')"
  using assms unfolding finish_Parse_def bind_w_Inr
  by (auto split: option.splits simp: bind_w_Inr)

lemma finish_Parse_settled:
  assumes "finish_Parse os pe sources grants fs rawFC t w = (Inr (c, g), w')"
  shows "same_settled c (copy_typed fs t)"
  by (rule finish_ParseE [OF assms], drule settled_secret, drule settled_dir, drule settled_key,
     drule same_settled_trans [OF _ settled_bridges], drule same_settled_trans [OF _ settled_extra])
    (simp add: same_settled_def)

lemma ParseE:
  assumes "Parse os pe sources grants g0 args w = (Inr (c, g), w')"
  obtains fs rawFC w1 w2 where
    "parse_flags grants args w = (Inr fs, w1)"
    "read_config_file os (string_of_flag (flag_of fs ''config'')) w1 = (Inr rawFC, w2)"
    "finish_Parse os pe sources grants fs rawFC
       (resolve_all (Env_get (pe_Getenv pe)) rawFC fs (all_fields grants) (new_targets g0)) w2 = (Inr (c, g), w')"
  using assms by (auto simp: Parse_def bind_w_Inr)

section \<open>Layers\<close>

text \<open>The grants of the program.\<close>

definition shipped :: "grant list" where
  "shipped = [AuthCode, DeviceCode, TokenExchange]"

lemma grant_fields_untouched:
  assumes "\<And>f t. get (on_grants f t) = get t"
  shows "list_all (untouched get) (concat (map (grant_Fields on_grants) grants))"
proof (induction grants)
  case (Cons gr grs)
  then show ?case using assms by (cases gr) (simp_all add: ac_Fields_def te_Fields_def)
qed simp

text \<open>The layers of a field of the universal table: its names, and what is read when no layer has a value.\<close>

definition string_layers ::
  "(string \<Rightarrow> string) \<Rightarrow> jmap option \<Rightarrow> flagset \<Rightarrow> string \<Rightarrow> string \<Rightarrow> string \<Rightarrow> string \<Rightarrow> string" where
  "string_layers env fc fs n e j d = layered (flag_string fs n) (file_string fc j) (env_string env e) d"

definition bool_layers ::
  "(string \<Rightarrow> string) \<Rightarrow> jmap option \<Rightarrow> flagset \<Rightarrow> string \<Rightarrow> string \<Rightarrow> string \<Rightarrow> bool \<Rightarrow> bool" where
  "bool_layers env fc fs n e j d = layered (flag_bool fs n) (file_bool fc j) (env_bool env e) d"

text \<open>The field at a place of the table writes what \<open>get\<close> reads, and no other field does.\<close>

definition string_at :: "(targets \<Rightarrow> string) \<Rightarrow> nat \<Rightarrow> string \<Rightarrow> string \<Rightarrow> string \<Rightarrow> bool" where
  "string_at get i n e j \<longleftrightarrow> i < length universal_fields \<and>
     (case universal_fields ! i of
        StringField put n' e' j' u d \<Rightarrow> lens get put \<and> n' = n \<and> e' = e \<and> j' = j | _ \<Rightarrow> False) \<and>
     list_all (untouched get) (take i universal_fields @ drop (Suc i) universal_fields) \<and>
     (\<forall>f t. get (on_grants f t) = get t)"

definition bool_at :: "(targets \<Rightarrow> bool) \<Rightarrow> nat \<Rightarrow> string \<Rightarrow> string \<Rightarrow> string \<Rightarrow> bool" where
  "bool_at get i n e j \<longleftrightarrow> i < length universal_fields \<and>
     (case universal_fields ! i of
        BoolField put n' e' j' u d \<Rightarrow> lens get put \<and> n' = n \<and> e' = e \<and> j' = j | _ \<Rightarrow> False) \<and>
     list_all (untouched get) (take i universal_fields @ drop (Suc i) universal_fields) \<and>
     (\<forall>f t. get (on_grants f t) = get t)"

lemma others_untouched:
  assumes "list_all (untouched get) (take i universal_fields @ drop (Suc i) universal_fields)"
    "\<forall>f t. get (on_grants f t) = get t" "i < length universal_fields"
  shows "list_all (untouched get) (take i (all_fields grants) @ drop (Suc i) (all_fields grants))"
  using assms grant_fields_untouched [of get grants] by (simp add: all_fields_def)

lemma universal_one:
  assumes "\<And>s. get (resolve_field env fc fs (universal_fields ! i) s) = G (get s)" "i < length universal_fields"
    "list_all (untouched get) (take i universal_fields @ drop (Suc i) universal_fields)"
    "\<forall>f t. get (on_grants f t) = get t"
  shows "get (resolve_all env fc fs (all_fields grants) s) = G (get s)"
proof (rule resolve_nth [where G = G and get = get])
  show "i < length (all_fields grants)" "all_fields grants ! i = universal_fields ! i"
    using assms(2) by (simp_all add: all_fields_def nth_append)
qed (use assms others_untouched in \<open>auto simp only:\<close>)

lemma universal_string:
  assumes "string_at get i n e j"
  shows "get (resolve_all env fc fs (all_fields grants) s) = string_layers env fc fs n e j (get s)"
proof (rule universal_one)
  show "get (resolve_field env fc fs (universal_fields ! i) s) = string_layers env fc fs n e j (get s)" for s
    using assms by (auto simp: string_at_def string_layers_def resolve_string split: field.splits)
qed (use assms in \<open>simp_all add: string_at_def\<close>)

lemma universal_bool:
  assumes "bool_at get i n e j"
  shows "get (resolve_all env fc fs (all_fields grants) s) = bool_layers env fc fs n e j (get s)"
proof (rule universal_one)
  show "get (resolve_field env fc fs (universal_fields ! i) s) = bool_layers env fc fs n e j (get s)" for s
    using assms by (auto simp: bool_at_def bool_layers_def resolve_bool split: field.splits)
qed (use assms in \<open>simp_all add: bool_at_def\<close>)

lemmas table_simps = string_at_def bool_at_def universal_fields_def lens_def on_grants_def

lemma string_fields:
  "string_at (\<lambda>t. c_Issuer (t_cfg t)) 0 ''issuer'' ''OIDC_TOKEN_ISSUER'' ''issuer''"
  "string_at (\<lambda>t. c_ClientID (t_cfg t)) 1 ''client-id'' ''OIDC_TOKEN_CLIENT_ID'' ''client_id''"
  "string_at (\<lambda>t. c_Scope (t_cfg t)) 2 ''scope'' ''OIDC_TOKEN_SCOPE'' ''scope''"
  "string_at (\<lambda>t. c_Audience (t_cfg t)) 3 ''audience'' ''OIDC_TOKEN_AUDIENCE'' ''audience''"
  "string_at t_grantType 4 ''grant-type'' ''OIDC_TOKEN_GRANT_TYPE'' ''grant_type''"
  "string_at t_tokenType 5 ''token-type'' ''OIDC_TOKEN_TOKEN_TYPE'' ''token_type''"
  "string_at t_tokenStore 7 ''token-store'' ''OIDC_TOKEN_STORE'' ''token_store''"
  "string_at t_clientAuth 12 ''client-auth-method'' ''OIDC_TOKEN_CLIENT_AUTH_METHOD'' ''client_auth_method''"
  "string_at (\<lambda>t. c_PrivateKeyPath (t_cfg t)) 14 ''private-key-file'' ''OIDC_TOKEN_PRIVATE_KEY_FILE'' ''private_key_file''"
  "string_at (\<lambda>t. c_PrivateKeyID (t_cfg t)) 15 ''private-key-id'' ''OIDC_TOKEN_PRIVATE_KEY_ID'' ''private_key_id''"
  "string_at (\<lambda>t. c_PrivateKeySigningAlg (t_cfg t)) 16 ''private-key-alg'' ''OIDC_TOKEN_PRIVATE_KEY_ALG'' ''private_key_alg''"
  "string_at (\<lambda>t. c_ClientAssertionAudience (t_cfg t)) 17 ''client-assertion-audience''
     ''OIDC_TOKEN_CLIENT_ASSERTION_AUDIENCE'' ''client_assertion_audience''"
  "string_at t_format 9 ''format'' ''OIDC_TOKEN_FORMAT'' ''format''"
  by (simp_all add: table_simps)

lemma bool_fields:
  "bool_at (\<lambda>t. c_NonInteractive (t_cfg t)) 8 ''non-interactive'' ''OIDC_TOKEN_NON_INTERACTIVE'' ''non_interactive''"
  "bool_at (\<lambda>t. c_Logout (t_cfg t)) 11 ''logout'' ''OIDC_TOKEN_LOGOUT'' ''logout''"
  "bool_at (\<lambda>t. c_All (t_cfg t)) 10 ''all'' [] ''all''"
  by (simp_all add: table_simps)

lemmas universal_values = string_fields [THEN universal_string] bool_fields [THEN universal_bool]

text \<open>
  What the documentation says of the fields of the universal table, but the two that \<^verbatim>\<open>Parse\<close>
  overrides afterwards: the layers by name, and the defaults.
\<close>

definition layered_config :: "(string \<Rightarrow> string) \<Rightarrow> jmap option \<Rightarrow> flagset \<Rightarrow> config \<Rightarrow> bool" where
  "layered_config env fc fs c \<longleftrightarrow>
     (let str = string_layers env fc fs; flg = bool_layers env fc fs in
      c_Issuer c = str ''issuer'' ''OIDC_TOKEN_ISSUER'' ''issuer'' [] \<and>
      c_ClientID c = str ''client-id'' ''OIDC_TOKEN_CLIENT_ID'' ''client_id'' [] \<and>
      c_Scope c = str ''scope'' ''OIDC_TOKEN_SCOPE'' ''scope'' ''openid offline_access'' \<and>
      c_Audience c = str ''audience'' ''OIDC_TOKEN_AUDIENCE'' ''audience'' [] \<and>
      c_GrantType c = str ''grant-type'' ''OIDC_TOKEN_GRANT_TYPE'' ''grant_type'' ''auto'' \<and>
      c_TokenType c = str ''token-type'' ''OIDC_TOKEN_TOKEN_TYPE'' ''token_type'' ''access_token'' \<and>
      c_TokenStore c = str ''token-store'' ''OIDC_TOKEN_STORE'' ''token_store'' ''auto'' \<and>
      c_ClientAuthMethod c = str ''client-auth-method'' ''OIDC_TOKEN_CLIENT_AUTH_METHOD'' ''client_auth_method'' [] \<and>
      c_PrivateKeyPath c = str ''private-key-file'' ''OIDC_TOKEN_PRIVATE_KEY_FILE'' ''private_key_file'' [] \<and>
      c_PrivateKeyID c = str ''private-key-id'' ''OIDC_TOKEN_PRIVATE_KEY_ID'' ''private_key_id'' [] \<and>
      c_PrivateKeySigningAlg c = str ''private-key-alg'' ''OIDC_TOKEN_PRIVATE_KEY_ALG'' ''private_key_alg'' ''RS256'' \<and>
      c_ClientAssertionAudience c = str ''client-assertion-audience''
        ''OIDC_TOKEN_CLIENT_ASSERTION_AUDIENCE'' ''client_assertion_audience'' [] \<and>
      c_NonInteractive c = flg ''non-interactive'' ''OIDC_TOKEN_NON_INTERACTIVE'' ''non_interactive'' False \<and>
      c_Logout c = flg ''logout'' ''OIDC_TOKEN_LOGOUT'' ''logout'' False \<and>
      c_All c = flg ''all'' [] ''all'' False \<and>
      c_Format c = (if \<not> explicit fs ''format'' \<and> c_All c then ''json''
        else str ''format'' ''OIDC_TOKEN_FORMAT'' ''format'' ''token''))"

lemma layered_table:
  "layered_config env fc fs (copy_typed fs (resolve_all env fc fs (all_fields grants) (new_targets g0)))"
  unfolding layered_config_def Let_def copy_typed_def
  by (simp add: universal_values new_targets_def new_config_def config_constants)

lemma layered_same: "same_settled c d \<Longrightarrow> layered_config env fc fs c = layered_config env fc fs d"
  by (simp add: layered_config_def same_settled_def settled_def)

section \<open>The flags of the program\<close>

lemma flag_of_values: "flag_of fs n = map_of (map (\<lambda>(k, f). (k, fl_Value f)) (formal fs)) n"
proof -
  have "map_option fl_Value (map_of ps n) = map_of (map (\<lambda>(k, f). (k, fl_Value f)) ps) n" for ps
    by (induction ps) auto
  then show ?thesis by (simp add: flag_of_def)
qed

text \<open>
  The flags of the program and their defaults, as its documentation lists them; the specification that
  the registrations are compared with.
\<close>

definition shipped_values :: "(string \<times> flag_value) list" where
  "shipped_values = [(''config'', StringValue []), (''client-secret-file'', StringValue []),
     (''issuer'', StringValue []), (''client-id'', StringValue []),
     (''scope'', StringValue ''openid offline_access''), (''audience'', StringValue []),
     (''grant-type'', StringValue ''auto''), (''token-type'', StringValue ''access_token''),
     (''token-store-dir'', StringValue []), (''token-store'', StringValue ''auto''),
     (''non-interactive'', BoolValue False), (''format'', StringValue ''token''), (''all'', BoolValue False),
     (''logout'', BoolValue False), (''client-auth-method'', StringValue []), (''client-secret'', StringValue []),
     (''private-key-file'', StringValue []), (''private-key-id'', StringValue []),
     (''private-key-alg'', StringValue ''RS256''), (''client-assertion-audience'', StringValue []),
     (''redirect'', IntValue 0), (''subject-token'', StringValue []), (''subject-token-type'', StringValue []),
     (''requested-token-type'', StringValue []), (''subject-token-source'', StringValue []),
     (''resource'', SliceValue []), (''subject-token-file'', StringValue []), (''extra'', ExtraValue [])]"

lemma shipped_formal: "map (\<lambda>(k, f). (k, fl_Value f)) (formal (register_all shipped)) = shipped_values"
  by code_simp

lemma flag_of_shipped: "flag_of (register_all shipped) n = map_of shipped_values n"
  by (simp add: flag_of_values shipped_formal)

lemma explicit_shipped [simp]: "\<not> explicit (register_all gs) n"
proof -
  have "explicit (fold RegisterFlags gs fs) n = explicit fs n" for gs fs
  proof (induction gs arbitrary: fs)
    case (Cons g gs)
    then show ?case by (cases g) (simp_all add: te_RegisterFlags_def)
  qed simp
  moreover have "explicit (fold Register fds fs) n = explicit fs n" for fds :: "targets field list" and fs
  proof (induction fds arbitrary: fs)
    case (Cons f fds)
    then show ?case by (cases f) (simp_all add: register_defs)
  qed simp
  ultimately show ?thesis
    by (simp add: register_all_def new_flagset_def) (simp add: explicit_def)
qed

lemma shipped_flag_name:
  assumes "is_string_flag (register_all shipped) n"
  shows "flag_name n"
proof -
  have "list_all (\<lambda>(k, v). flag_name k) shipped_values" by code_simp
  moreover have "n \<in> fst ` set shipped_values"
    using assms by (force simp: is_string_flag_def flag_of_shipped split: option.splits dest: map_of_SomeD)
  ultimately show ?thesis by (auto simp: list_all_iff)
qed

lemma parse_flags_args:
  assumes "list_all (\<lambda>(n, v). is_string_flag (register_all shipped) n) ps"
  shows "parse_flags shipped (map arg_text ps) w = (Inr (set_flags ps (register_all shipped)), w)"
proof -
  have "list_all (\<lambda>(n, v). flag_name n \<and> is_string_flag (register_all shipped) n) ps"
    using assms shipped_flag_name by (auto simp: list_all_iff)
  then show ?thesis
    by (simp add: parse_flags_def flag_Parse_args)
qed

definition string_flag :: "string \<Rightarrow> bool" where
  "string_flag n = (case map_of shipped_values n of Some (StringValue _) \<Rightarrow> True | _ \<Rightarrow> False)"

text \<open>
  C23: A command line of arguments \<^verbatim>\<open>--name=value\<close>, for any of the program's 22 string flags
  in any order and with repetitions, is parsed without an error or output, and the flag set then holds
  for each flag the last value given for it; every other flag, of whatever kind, is there with its
  default, and counts as not given; and there are no flags but those of the table.
\<close>

theorem command_line_roundtrip:
  assumes "list_all (\<lambda>(n, v). string_flag n) ps"
  shows "\<exists>fs. parse_flags shipped (map arg_text ps) w = (Inr fs, w) \<and>
    (\<forall>n. flag_string fs n = map_of (rev ps) n) \<and>
    (\<forall>n. flag_of fs n = (case map_of (rev ps) n of Some v \<Rightarrow> Some (StringValue v) | None \<Rightarrow> map_of shipped_values n))"
proof (intro exI conjI allI)
  have strings: "list_all (\<lambda>(n, v). is_string_flag (register_all shipped) n) ps"
    using assms by (auto simp: list_all_iff string_flag_def is_string_flag_def flag_of_shipped split: option.splits flag_value.splits)
  show "parse_flags shipped (map arg_text ps) w = (Inr (set_flags ps (register_all shipped)), w)"
    by (rule parse_flags_args [OF strings])
  show "flag_of (set_flags ps (register_all shipped)) n =
      (case map_of (rev ps) n of Some v \<Rightarrow> Some (StringValue v) | None \<Rightarrow> map_of shipped_values n)" for n
    by (simp add: flag_of_set_flags [OF strings] flag_of_shipped split: option.split)
  show "flag_string (set_flags ps (register_all shipped)) n = map_of (rev ps) n" for n
  proof (cases "map_of (rev ps) n")
    case None
    then have "n \<notin> fst ` set ps" by (simp add: map_of_eq_None_iff)
    then show ?thesis by (simp add: flag_string_def explicit_set_flags None)
  next
    case (Some v)
    then have "n \<in> fst ` set ps" by (metis domI dom_map_of_conv_image_fst set_rev)
    then show ?thesis
      by (simp add: flag_string_def explicit_set_flags flag_of_set_flags [OF strings] Some)
  qed
qed

lemma command_line_roundtrip_witness:
  "\<exists>fs. parse_flags shipped [''--issuer=a=b'', ''--scope='', ''--issuer=c''] (blank ()) = (Inr fs, blank ()) \<and>
    flag_of fs ''issuer'' = Some (StringValue ''c'') \<and> flag_of fs ''scope'' = Some (StringValue []) \<and>
    flag_of fs ''private-key-alg'' = Some (StringValue ''RS256'') \<and> flag_string fs ''private-key-alg'' = None"
  using command_line_roundtrip [of "[(''issuer'', ''a=b''), (''scope'', []), (''issuer'', ''c'')]" "blank ()"]
  by (force simp: arg_text_def string_flag_def shipped_values_def)

section \<open>What a configuration satisfies\<close>

lemma clean_parts: "[] \<notin> set st \<Longrightarrow> [] \<notin> set (foldl (clean_step r) st xs)"
proof (induction xs arbitrary: st)
  case (Cons x xs)
  have "[] \<notin> set (clean_step r st x)"
    using Cons.prems by (auto simp: clean_step_def split: list.splits if_splits)
  then show ?case by (simp add: Cons.IH)
qed simp

lemma Clean_ne: "Clean p \<noteq> []"
proof -
  let ?st = "foldl (clean_step (rooted p)) [] (split_slash p)"
  have "join_slash xs = [] \<Longrightarrow> [] \<notin> set xs \<Longrightarrow> xs = []" for xs
    by (induction xs rule: join_slash.induct) auto
  from this [of "rev ?st"] show ?thesis
    using clean_parts [of "[]" "rooted p" "split_slash p"] by (auto simp: Clean_def Let_def)
qed

lemma DefaultDir_ne: "DefaultDir e h = Inr d \<Longrightarrow> d \<noteq> []"
  by (auto simp: DefaultDir_def Join_def Clean_ne split: if_splits sum.splits list.splits)

lemma dir_set:
  "apply_default_dir e h c w = (Inr d, w') \<Longrightarrow> c_TokenStore d \<noteq> BackendNone \<Longrightarrow> c_TokenStoreDir d \<noteq> []"
  by (auto simp: apply_default_dir_def DefaultDir_ne split: if_splits sum.splits)

text \<open>The universal checks, and that the steps after them change nothing they read.\<close>

lemma if_Some_None: "((if b then Some x else r) = None) \<longleftrightarrow> \<not> b \<and> r = None"
  by simp

lemma if_error_None: "((if y \<noteq> None then y else r) = None) \<longleftrightarrow> y = None \<and> r = None"
  by (cases y) auto

lemma validate_client_auth_ok:
  "validate_client_auth c = None \<longleftrightarrow>
     (c_ClientAuthMethod c \<in> {''client_secret_basic'', ''client_secret_post''} \<longrightarrow> c_ClientSecret c \<noteq> []) \<and>
     (c_ClientAuthMethod c = ''private_key_jwt'' \<longrightarrow> c_PrivateKeyPath c \<noteq> [] \<and> map_of validSigningAlgs (c_PrivateKeySigningAlg c) \<noteq> None) \<and>
     (c_ClientAuthMethod c = [] \<longrightarrow> c_ClientSecret c = [] \<and> c_PrivateKeyPath c = [])"
  by (auto simp: validate_client_auth_def config_constants)

lemma validate_ok:
  "validate grants c = None \<longleftrightarrow>
     c_Issuer c \<noteq> [] \<and> c_ClientID c \<noteq> [] \<and> validate_grant_type grants (c_GrantType c) = None \<and>
     c_TokenType c \<in> {''access_token'', ''id_token''} \<and>
     c_Format c \<in> {''token'', ''json'', ''exec-credential''} \<and>
     c_TokenStore c \<in> {''auto'', ''keychain'', ''file'', ''none''} \<and>
     c_ClientAuthMethod c \<in> {[], ''client_secret_basic'', ''client_secret_post'', ''private_key_jwt''} \<and>
     validate_client_auth c = None"
  unfolding validate_def if_Some_None if_error_None config_constants by (simp only: not_not)

definition checked :: "config \<Rightarrow> string list" where
  "checked c = settled c @ [c_Format c, c_TokenStoreDir c, c_ClientSecret c]"

lemma checked_validate:
  assumes "checked c = checked d"
  shows "validate grants c = validate grants d"
proof -
  have "c_Issuer c = c_Issuer d" "c_ClientID c = c_ClientID d" "c_GrantType c = c_GrantType d"
    "c_TokenType c = c_TokenType d" "c_Format c = c_Format d" "c_TokenStore c = c_TokenStore d"
    "c_ClientAuthMethod c = c_ClientAuthMethod d" "c_ClientSecret c = c_ClientSecret d"
    "c_PrivateKeyPath c = c_PrivateKeyPath d" "c_PrivateKeySigningAlg c = c_PrivateKeySigningAlg d"
    using assms by (simp_all add: checked_def settled_def)
  then show ?thesis unfolding validate_def validate_client_auth_def by (simp only:)
qed

lemma checked_bridges: "checked (fold (\<lambda>gr. bridge_copy (Bridge gr g)) grants c) = checked c"
  by (induction grants arbitrary: c) (simp_all add: checked_def settled_def bridge_copy_def)

lemma checked_key: "resolvePrivateKey os kp c w = (Inr d, w') \<Longrightarrow> checked d = checked c"
  by (auto simp: resolvePrivateKey_def checked_def settled_def split: if_splits prod.splits sum.splits option.splits)

lemma key_present:
  "resolvePrivateKey os kp c w = (Inr d, w') \<Longrightarrow> c_ClientAuthMethod c = ClientAuthPrivateKeyJWT \<Longrightarrow> c_PrivateKey d \<noteq> None"
  by (auto simp: resolvePrivateKey_def split: prod.splits sum.splits option.splits)

text \<open>The fields only the grants' bridges write.\<close>

definition bridged :: "config \<Rightarrow> config_bridge" where
  "bridged c = \<lparr>b_SubjectToken = c_SubjectToken c, b_SubjectTokenType = c_SubjectTokenType c,
     b_RequestedTokenType = c_RequestedTokenType c, b_Resources = c_Resources c,
     b_SubjectTokenSource = c_SubjectTokenSource c, b_RedirectPort = c_RedirectPort c\<rparr>"

lemma bridged_table: "bridged (copy_typed fs (resolve_all env fc fs (all_fields grants) (new_targets g0))) = zero_bridge"
proof -
  let ?get = "\<lambda>t. bridged (t_cfg t)"
  have "list_all (untouched ?get) (all_fields grants)"
    using grant_fields_untouched [of ?get grants]
    by (simp add: all_fields_def universal_fields_def on_grants_def bridged_def)
  from resolve_all_untouched [OF this] show ?thesis
    by (simp add: copy_typed_def Let_def bridged_def new_targets_def new_config_def zero_bridge_def)
qed

lemma bridged_steps:
  "bridged (apply_extra fs m c) = bridged c"
  "apply_secret_file os fs c w = (Inr d, w') \<Longrightarrow> bridged d = bridged c"
  "apply_default_dir e h c w = (Inr d, w') \<Longrightarrow> bridged d = bridged c"
  "resolvePrivateKey os kp c w = (Inr d, w') \<Longrightarrow> bridged d = bridged c"
  by (auto simp: apply_extra_def apply_secret_file_def apply_default_dir_def resolvePrivateKey_def bridged_def Let_def
      split: if_splits prod.splits sum.splits option.splits json.splits)

lemma bridged_shipped:
  assumes "bridged c = zero_bridge"
  shows "bridged (fold (\<lambda>gr. bridge_copy (Bridge gr g)) shipped c) =
    (te_Bridge (gr_te g))\<lparr>b_RedirectPort := ac_CallbackPort (gr_authcode g)\<rparr>"
  using assms by (simp add: shipped_def bridge_copy_def bridged_def zero_bridge_def te_Bridge_def ac_Bridge_def)

lemma bridged_chain:
  assumes "apply_secret_file os fs (apply_extra fs m c) w = (Inr c0, w0)" "apply_default_dir e h c0 w0 = (Inr c1, w1)"
    "resolvePrivateKey os kp (fold (\<lambda>gr. bridge_copy (Bridge gr g)) shipped c1) w2 = (Inr d, w')" "bridged c = zero_bridge"
  shows "bridged d = (te_Bridge (gr_te g))\<lparr>b_RedirectPort := ac_CallbackPort (gr_authcode g)\<rparr>"
proof -
  have "bridged c1 = zero_bridge"
    using bridged_steps(3) [OF assms(2)] bridged_steps(2) [OF assms(1)] assms(4) by (simp add: bridged_steps(1))
  then show ?thesis using bridged_steps(4) [OF assms(3)] bridged_shipped by simp
qed

text \<open>The credentials a client authentication method comes with, and the fields a grant type comes with.\<close>

definition credentials_ok :: "config \<Rightarrow> bool" where
  "credentials_ok c \<longleftrightarrow>
     (if c_ClientAuthMethod c = [] then c_ClientSecret c = [] \<and> c_PrivateKeyPath c = []
      else if c_ClientAuthMethod c = ''private_key_jwt'' then c_PrivateKey c \<noteq> None \<and> SigningAlg c \<noteq> []
      else c_ClientAuthMethod c \<in> {''client_secret_basic'', ''client_secret_post''} \<and> c_ClientSecret c \<noteq> [])"

definition subject_ok :: "config \<Rightarrow> bool" where
  "subject_ok c \<longleftrightarrow>
     (if c_GrantType c = ''token-exchange''
      then (c_SubjectToken c = []) \<noteq> (c_SubjectTokenSource c = []) \<and> c_SubjectTokenType c \<noteq> []
      else c_SubjectToken c = [] \<and> c_SubjectTokenSource c = [] \<and> c_RequestedTokenType c = [] \<and> c_Resources c = [])"

definition valid_config :: "config \<Rightarrow> bool" where
  "valid_config c \<longleftrightarrow> c_Issuer c \<noteq> [] \<and> c_ClientID c \<noteq> [] \<and>
     c_GrantType c \<in> {''auto'', ''authcode'', ''device-code'', ''token-exchange''} \<and>
     c_TokenType c \<in> {''access_token'', ''id_token''} \<and>
     c_Format c \<in> {''token'', ''json'', ''exec-credential''} \<and>
     c_TokenStore c \<in> {''auto'', ''keychain'', ''file'', ''none''} \<and>
     (c_TokenStore c \<noteq> ''none'' \<longrightarrow> c_TokenStoreDir c \<noteq> []) \<and>
     credentials_ok c \<and> subject_ok c"

lemma signing_alg_ne: "map_of validSigningAlgs (c_PrivateKeySigningAlg c) \<noteq> None \<Longrightarrow> SigningAlg c \<noteq> []"
  by (auto simp: SigningAlg_def validSigningAlgs_def split: if_splits)

lemma grant_type_ok:
  "validate_grant_type shipped gt = None \<longleftrightarrow> gt \<in> {''auto'', ''authcode'', ''device-code'', ''token-exchange''}"
  by (auto simp: validate_grant_type_def shipped_def GrantAuto_def)

lemma subject_checks:
  assumes "validate_grants sources gt shipped g = None"
  shows "if gt = ''token-exchange'' then te_Validate sources (gr_te g) = None else te_ValidateNotSelected (gr_te g) = None"
  using assms by (auto simp: shipped_def split: if_splits option.splits)

text \<open>
  C12: A configuration that \<^verbatim>\<open>Parse\<close> returns is well-formed: issuer and client are there, every
  enumeration has one of its values, a store other than \<^verbatim>\<open>none\<close> has a directory, the client
  authentication method has exactly the credentials it needs (for \<^verbatim>\<open>private_key_jwt\<close> a parsed key
  and a known algorithm), and the subject token fields fit the grant type: for a token exchange one
  of token and source and a type, otherwise none.
\<close>

theorem config_valid:
  assumes parse: "Parse os pe sources shipped g0 args w = (Inr (c, g), w')"
  shows "valid_config c"
proof -
  obtain fs rawFC w2 where
    "finish_Parse os pe sources shipped fs rawFC
       (resolve_all (Env_get (pe_Getenv pe)) rawFC fs (all_fields shipped) (new_targets g0)) w2 = (Inr (c, g), w')"
    by (rule ParseE [OF parse])
  then show ?thesis
  proof (rule finish_ParseE)
    fix c0 c1 w0 w1 w2'
    let ?t = "resolve_all (Env_get (pe_Getenv pe)) rawFC fs (all_fields shipped) (new_targets g0)"
    let ?d = "fold (\<lambda>gr. bridge_copy (Bridge gr g)) shipped c1"
    assume secret: "apply_secret_file os fs (apply_extra fs rawFC (copy_typed fs ?t)) w2 = (Inr c0, w0)"
      and dir: "apply_default_dir (Env_get (pe_Getenv pe)) (pe_Home pe) c0 w0 = (Inr c1, w1)"
      and v: "validate shipped c1 = None" "validate_grants sources (c_GrantType c1) shipped g = None"
      and key: "resolvePrivateKey os (pe_Keys pe) ?d w2' = (Inr c, w')"
    have same: "checked c = checked c1"
      using checked_key [OF key] by (simp add: checked_bridges)
    then have vc: "validate shipped c = None"
      using v(1) checked_validate [OF same] by simp
    have eqs: "c_GrantType c = c_GrantType c1" "c_TokenStore c = c_TokenStore c1"
      "c_TokenStoreDir c = c_TokenStoreDir c1" "c_ClientAuthMethod ?d = c_ClientAuthMethod c"
      using same checked_bridges [of g shipped c1] by (simp_all add: checked_def settled_def)
    have cred: "credentials_ok c"
      using vc key_present [OF key] eqs(4) signing_alg_ne [of c]
      unfolding validate_ok validate_client_auth_ok credentials_ok_def ClientAuthPrivateKeyJWT_def by auto
    have "bridged c = (te_Bridge (gr_te g))\<lparr>b_RedirectPort := ac_CallbackPort (gr_authcode g)\<rparr>"
      by (rule bridged_chain [OF secret dir key bridged_table])
    then have subj: "subject_ok c"
      using subject_checks [OF v(2)] unfolding te_Validate_ok te_ValidateNotSelected_ok
      by (auto simp: subject_ok_def bridged_def te_Bridge_def zero_bridge_def eqs(1) split: if_splits)
    from vc dir_set [OF dir] cred subj show "valid_config c"
      unfolding validate_ok valid_config_def grant_type_ok by (auto simp: eqs BackendNone_def)
  qed
qed

section \<open>Every table field\<close>

text \<open>
  The rest of the universal table: the client secret, which a file given by \<^verbatim>\<open>--client-secret-file\<close>
  replaces, and the directory of the file store, which has a computed default. \<open>texts\<close> is what the
  files hold.
\<close>

definition flag_file :: "(string \<Rightarrow> string option) \<Rightarrow> flagset \<Rightarrow> string \<Rightarrow> string option" where
  "flag_file texts fs n = map_option trim_newlines (texts (string_of_flag (flag_of fs n)))"

definition layered_overrides ::
  "(string \<Rightarrow> string) \<Rightarrow> (error + string) \<Rightarrow> (string \<Rightarrow> string option) \<Rightarrow> jmap option \<Rightarrow> flagset \<Rightarrow> config \<Rightarrow> bool" where
  "layered_overrides env home texts fc fs c \<longleftrightarrow>
     (let str = string_layers env fc fs; dir = str ''token-store-dir'' ''OIDC_TOKEN_STORE_DIR'' ''token_store_dir'' [] in
      (if explicit fs ''client-secret-file'' then flag_file texts fs ''client-secret-file'' = Some (c_ClientSecret c)
       else c_ClientSecret c = str ''client-secret'' ''OIDC_TOKEN_CLIENT_SECRET'' ''client_secret'' []) \<and>
      (if dir = [] \<and> c_TokenStore c \<noteq> ''none'' then DefaultDir env home = Inr (c_TokenStoreDir c)
       else c_TokenStoreDir c = dir))"

text \<open>
  The grants' fields. The subject token may come from a file as well, and its type has a default that
  depends on where the token comes from.
\<close>

definition layered_grants ::
  "(string \<Rightarrow> string) \<Rightarrow> 'w subject_source list \<Rightarrow> (string \<Rightarrow> string option) \<Rightarrow> jmap option \<Rightarrow> flagset \<Rightarrow> config \<Rightarrow> bool" where
  "layered_grants env sources texts fc fs c \<longleftrightarrow>
     (let str = string_layers env fc fs;
        typ = str ''subject-token-type'' ''OIDC_TOKEN_SUBJECT_TOKEN_TYPE'' ''subject_token_type'' [] in
      c_RedirectPort c = layered (flag_int fs ''redirect'') (file_int fc ''redirect_port'') None 0 \<and>
      (if explicit fs ''subject-token-file'' then flag_file texts fs ''subject-token-file'' = Some (c_SubjectToken c)
       else c_SubjectToken c = str ''subject-token'' ''OIDC_TOKEN_SUBJECT_TOKEN'' ''subject_token'' []) \<and>
      c_SubjectTokenSource c = str ''subject-token-source'' ''OIDC_TOKEN_SUBJECT_TOKEN_SOURCE'' ''subject_token_source'' [] \<and>
      c_SubjectTokenType c =
        (if typ \<noteq> [] then typ
         else (case FindSource sources (c_SubjectTokenSource c) of
             Some src \<Rightarrow> src_DefaultTokenType src
           | None \<Rightarrow> ''urn:ietf:params:oauth:token-type:access_token'')) \<and>
      c_RequestedTokenType c = str ''requested-token-type'' [] ''requested_token_type'' [] \<and>
      c_Resources c = layered (flag_slice fs ''resource'') (file_slice fc ''resource'') None [])"

lemma override_fields:
  "string_at (\<lambda>t. c_TokenStoreDir (t_cfg t)) 6 ''token-store-dir'' ''OIDC_TOKEN_STORE_DIR'' ''token_store_dir''"
  "string_at (\<lambda>t. c_ClientSecret (t_cfg t)) 13 ''client-secret'' ''OIDC_TOKEN_CLIENT_SECRET'' ''client_secret''"
  by (simp_all add: table_simps)

lemmas override_values = override_fields [THEN universal_string]

text \<open>The steps after the table, as far as these fields go.\<close>

lemma secret_step:
  assumes "apply_secret_file os fs c w = (Inr d, w')"
  shows "c_TokenStoreDir d = c_TokenStoreDir c" "contents w' = contents w"
    "if explicit fs ''client-secret-file'' then flag_file (contents w) fs ''client-secret-file'' = Some (c_ClientSecret d)
     else c_ClientSecret d = c_ClientSecret c"
  using assms
  by (auto simp: apply_secret_file_def flag_file_def dest: ReadFile_content contents_ReadFile
      split: if_splits prod.splits sum.splits)

lemma dir_step:
  assumes "apply_default_dir e h c w = (Inr d, w')"
  shows "c_ClientSecret d = c_ClientSecret c" "w' = w"
    "if c_TokenStoreDir c = [] \<and> c_TokenStore c \<noteq> ''none'' then DefaultDir e h = Inr (c_TokenStoreDir d)
     else c_TokenStoreDir d = c_TokenStoreDir c"
  using assms by (auto simp: apply_default_dir_def BackendNone_def split: if_splits sum.splits)

lemma extra_step: "c_ClientSecret (apply_extra fs m c) = c_ClientSecret c" "c_TokenStoreDir (apply_extra fs m c) = c_TokenStoreDir c"
  by (simp_all add: apply_extra_def Let_def split: option.split json.split)

lemma finalize_shipped:
  assumes "finalize_all os sources fs shipped g w = (Inr h, w')"
  shows "gr_authcode h = gr_authcode g" "te_RequestedTokenType (gr_te h) = te_RequestedTokenType (gr_te g)"
    "te_Resources (gr_te h) = te_Resources (gr_te g)" "te_SubjectTokenSource (gr_te h) = te_SubjectTokenSource (gr_te g)"
    "te_SubjectTokenType (gr_te h) =
      (if te_SubjectTokenType (gr_te g) \<noteq> [] then te_SubjectTokenType (gr_te g)
       else (case FindSource sources (te_SubjectTokenSource (gr_te g)) of
           Some src \<Rightarrow> src_DefaultTokenType src | None \<Rightarrow> defaultSubjectTokenType))"
    "if explicit fs ''subject-token-file'' then flag_file (contents w) fs ''subject-token-file'' = Some (te_SubjectToken (gr_te h))
     else te_SubjectToken (gr_te h) = te_SubjectToken (gr_te g)"
  using assms
  by (auto simp: shipped_def bind_w_def te_Finalize_def te_default_type_def flag_file_def dest: ReadFile_content
      split: prod.splits sum.splits if_splits)

text \<open>The grants' fields are the last ones of the program's table.\<close>

definition alone :: "(targets \<Rightarrow> 'v) \<Rightarrow> nat \<Rightarrow> bool" where
  "alone get i \<longleftrightarrow> i < length (all_fields shipped) \<and>
     list_all (untouched get) (take i (all_fields shipped) @ drop (Suc i) (all_fields shipped))"

definition grant_string_at :: "(targets \<Rightarrow> string) \<Rightarrow> nat \<Rightarrow> string \<Rightarrow> string \<Rightarrow> string \<Rightarrow> bool" where
  "grant_string_at get i n e j \<longleftrightarrow> alone get i \<and>
     (case all_fields shipped ! i of
        StringField put n' e' j' u d \<Rightarrow> lens get put \<and> n' = n \<and> e' = e \<and> j' = j | _ \<Rightarrow> False)"

definition grant_int_at :: "(targets \<Rightarrow> int) \<Rightarrow> nat \<Rightarrow> string \<Rightarrow> string \<Rightarrow> string \<Rightarrow> bool" where
  "grant_int_at get i n e j \<longleftrightarrow> alone get i \<and>
     (case all_fields shipped ! i of
        IntField put n' e' j' u d \<Rightarrow> lens get put \<and> n' = n \<and> e' = e \<and> j' = j | _ \<Rightarrow> False)"

definition grant_slice_at :: "(targets \<Rightarrow> string list) \<Rightarrow> nat \<Rightarrow> string \<Rightarrow> string \<Rightarrow> string \<Rightarrow> bool" where
  "grant_slice_at get i n e j \<longleftrightarrow> alone get i \<and>
     (case all_fields shipped ! i of
        StringSliceField put n' e' j' u \<Rightarrow> lens get put \<and> n' = n \<and> e' = e \<and> j' = j | _ \<Rightarrow> False)"

lemma alone_resolve:
  assumes "\<And>s. get (resolve_field env fc fs (all_fields shipped ! i) s) = G (get s)" "alone get i"
  shows "get (resolve_all env fc fs (all_fields shipped) s) = G (get s)"
  by (rule resolve_nth [where G = G and get = get and i = i, OF assms(1)]) (use assms(2) in \<open>simp_all add: alone_def\<close>)

lemma grant_string:
  assumes "grant_string_at get i n e j"
  shows "get (resolve_all env fc fs (all_fields shipped) s) = string_layers env fc fs n e j (get s)"
proof (rule alone_resolve)
  show "get (resolve_field env fc fs (all_fields shipped ! i) s) = string_layers env fc fs n e j (get s)" for s
    using assms by (auto simp: grant_string_at_def string_layers_def resolve_string split: field.splits)
qed (use assms in \<open>simp add: grant_string_at_def\<close>)

lemma grant_int:
  assumes "grant_int_at get i n e j"
  shows "get (resolve_all env fc fs (all_fields shipped) s) = layered (flag_int fs n) (file_int fc j) (env_int env e) (get s)"
proof (rule alone_resolve)
  show "get (resolve_field env fc fs (all_fields shipped ! i) s) =
      layered (flag_int fs n) (file_int fc j) (env_int env e) (get s)" for s
    using assms by (auto simp: grant_int_at_def resolve_int split: field.splits)
qed (use assms in \<open>simp add: grant_int_at_def\<close>)

lemma grant_slice:
  assumes "grant_slice_at get i n e j"
  shows "get (resolve_all env fc fs (all_fields shipped) s) =
    layered (flag_slice fs n) (file_slice fc j) (env_slice env e) (get s)"
proof (rule alone_resolve)
  show "get (resolve_field env fc fs (all_fields shipped ! i) s) =
      layered (flag_slice fs n) (file_slice fc j) (env_slice env e) (get s)" for s
    using assms by (auto simp: grant_slice_at_def resolve_slice split: field.splits)
qed (use assms in \<open>simp add: grant_slice_at_def\<close>)

lemmas grant_table_simps = alone_def grant_string_at_def grant_int_at_def grant_slice_at_def all_fields_def shipped_def
  ac_Fields_def te_Fields_def envSubjectToken_def envSubjectTokenType_def envSubjectTokenSource_def

lemma grant_fields:
  "grant_int_at (\<lambda>t. ac_CallbackPort (gr_authcode (t_grants t))) 18 ''redirect'' [] ''redirect_port''"
  "grant_string_at (\<lambda>t. te_SubjectToken (gr_te (t_grants t))) 19 ''subject-token'' ''OIDC_TOKEN_SUBJECT_TOKEN'' ''subject_token''"
  "grant_string_at (\<lambda>t. te_SubjectTokenType (gr_te (t_grants t))) 20
     ''subject-token-type'' ''OIDC_TOKEN_SUBJECT_TOKEN_TYPE'' ''subject_token_type''"
  "grant_string_at (\<lambda>t. te_RequestedTokenType (gr_te (t_grants t))) 21 ''requested-token-type'' [] ''requested_token_type''"
  "grant_string_at (\<lambda>t. te_SubjectTokenSource (gr_te (t_grants t))) 22
     ''subject-token-source'' ''OIDC_TOKEN_SUBJECT_TOKEN_SOURCE'' ''subject_token_source''"
  "grant_slice_at (\<lambda>t. te_Resources (gr_te (t_grants t))) 23 ''resource'' [] ''resource''"
  by (simp_all add: table_simps grant_table_simps)

lemmas grant_values = grant_fields(1) [THEN grant_int] grant_fields(2-5) [THEN grant_string] grant_fields(6) [THEN grant_slice]

text \<open>All of it, for the files a successful \<^verbatim>\<open>Parse\<close> has read.\<close>

lemma finish_Parse_overrides:
  assumes "finish_Parse os pe sources grants fs fc (resolve_all env fc fs (all_fields grants) (new_targets g0)) w = (Inr (c, g), w')"
    and env: "env = Env_get (pe_Getenv pe)"
  shows "layered_overrides env (pe_Home pe) (contents w) fc fs c"
  using assms(1)
proof (rule finish_ParseE)
  fix c0 c1 w0 w1 w2
  let ?t = "resolve_all env fc fs (all_fields grants) (new_targets g0)"
  assume secret: "apply_secret_file os fs (apply_extra fs fc (copy_typed fs ?t)) w = (Inr c0, w0)"
    and dir: "apply_default_dir (Env_get (pe_Getenv pe)) (pe_Home pe) c0 w0 = (Inr c1, w1)"
    and key: "resolvePrivateKey os (pe_Keys pe) (fold (\<lambda>gr. bridge_copy (Bridge gr g)) grants c1) w2 = (Inr c, w')"
  have "checked c = checked c1" using checked_key [OF key] by (simp add: checked_bridges)
  then have c: "c_ClientSecret c = c_ClientSecret c1" "c_TokenStoreDir c = c_TokenStoreDir c1" "c_TokenStore c = c_TokenStore c1"
    by (simp_all add: checked_def settled_def)
  have "c_TokenStore c1 = c_TokenStore c0" using settled_dir [OF dir] by (simp add: same_settled_def settled_def)
  moreover have "c_ClientSecret (copy_typed fs ?t) = string_layers env fc fs ''client-secret'' ''OIDC_TOKEN_CLIENT_SECRET'' ''client_secret'' []"
    "c_TokenStoreDir (copy_typed fs ?t) = string_layers env fc fs ''token-store-dir'' ''OIDC_TOKEN_STORE_DIR'' ''token_store_dir'' []"
    by (simp_all add: copy_typed_def Let_def override_values new_targets_def new_config_def)
  ultimately show ?thesis
    using secret_step [OF secret] dir_step [OF dir] c
    by (simp add: layered_overrides_def Let_def extra_step env)
qed

lemma finish_Parse_grants:
  assumes "finish_Parse os pe sources shipped fs fc (resolve_all env fc fs (all_fields shipped) (new_targets new_grants)) w =
      (Inr (c, g), w')"
  shows "layered_grants env sources (contents w) fc fs c"
  using assms
proof (rule finish_ParseE)
  fix c0 c1 w0 w1 w2
  let ?t = "resolve_all env fc fs (all_fields shipped) (new_targets new_grants)"
  assume secret: "apply_secret_file os fs (apply_extra fs fc (copy_typed fs ?t)) w = (Inr c0, w0)"
    and dir: "apply_default_dir (Env_get (pe_Getenv pe)) (pe_Home pe) c0 w0 = (Inr c1, w1)"
    and fin: "finalize_all os sources fs shipped (t_grants ?t) w1 = (Inr g, w2)"
    and key: "resolvePrivateKey os (pe_Keys pe) (fold (\<lambda>gr. bridge_copy (Bridge gr g)) shipped c1) w2 = (Inr c, w')"
  have b: "bridged c = (te_Bridge (gr_te g))\<lparr>b_RedirectPort := ac_CallbackPort (gr_authcode g)\<rparr>"
    by (rule bridged_chain [OF secret dir key bridged_table])
  have "contents w1 = contents w" using secret_step(2) [OF secret] dir_step(2) [OF dir] by simp
  then show ?thesis
    using b finalize_shipped [OF fin]
    by (simp add: layered_grants_def Let_def bridged_def te_Bridge_def zero_bridge_def grant_values new_targets_def new_grants_def
        env_int_def env_slice_def defaultSubjectTokenType_def cong: if_cong option.case_cong)
qed

text \<open>
  C11: Every table field, universal or of a grant, of a configuration that \<^verbatim>\<open>Parse\<close> returns has the
  value of the highest layer that holds one: an explicit flag, else a config-file member of the field's
  type, else a non-empty environment variable (a port must be a number there), else the default. The
  exceptions: a file given by \<^verbatim>\<open>--client-secret-file\<close> or \<^verbatim>\<open>--subject-token-file\<close> stands above all
  layers, its text without the newlines at its end; the token store's directory and the type of the
  subject token have a computed default; and without an explicit \<^verbatim>\<open>--format\<close>, \<^verbatim>\<open>all\<close> turns the format
  into JSON.
\<close>

theorem config_precedence:
  assumes "Parse os pe sources shipped new_grants args w = (Inr (c, g), w')"
  shows "\<exists>fs fc w1 w2.
    parse_flags shipped args w = (Inr fs, w1) \<and>
    read_config_file os (string_of_flag (flag_of fs ''config'')) w1 = (Inr fc, w2) \<and>
    layered_config (Env_get (pe_Getenv pe)) fc fs c \<and>
    layered_overrides (Env_get (pe_Getenv pe)) (pe_Home pe) (contents w2) fc fs c \<and>
    layered_grants (Env_get (pe_Getenv pe)) sources (contents w2) fc fs c"
  by (rule ParseE [OF assms], frule finish_Parse_settled, frule finish_Parse_overrides [OF _ refl], drule finish_Parse_grants)
    (auto simp: layered_same layered_table)

section \<open>Extra fields\<close>

lemma set_members_list:
  "distinct (map fst ms) \<Longrightarrow>
     vals_list (set_members ms v) k = (case map_of ms k of Some (JStr s) \<Rightarrow> [s] | _ \<Rightarrow> vals_list v k)"
proof (induction ms v rule: set_members.induct)
  case (2 n s ms v)
  then show ?case by (auto simp: vals_list_Set map_of_eq_None_iff [symmetric] split: option.split json.split)
qed (auto simp: map_of_eq_None_iff [symmetric] split: option.split)

lemma extra_steps:
  "apply_secret_file os fs c w = (Inr d, w') \<Longrightarrow> c_ExtraFields d = c_ExtraFields c"
  "apply_default_dir e h c w = (Inr d, w') \<Longrightarrow> c_ExtraFields d = c_ExtraFields c"
  "resolvePrivateKey os kp c w = (Inr d, w') \<Longrightarrow> c_ExtraFields d = c_ExtraFields c"
  "c_ExtraFields (fold (\<lambda>gr. bridge_copy (Bridge gr g)) grants c) = c_ExtraFields c"
proof -
  show "c_ExtraFields (fold (\<lambda>gr. bridge_copy (Bridge gr g)) grants c) = c_ExtraFields c"
    by (induction grants arbitrary: c) (simp_all add: bridge_copy_def)
qed (auto simp: apply_secret_file_def apply_default_dir_def resolvePrivateKey_def
    split: if_splits prod.splits sum.splits option.splits)

lemma finish_Parse_extra:
  assumes "finish_Parse os pe sources grants fs rawFC t w = (Inr (c, g), w')"
  shows "c_ExtraFields c = c_ExtraFields (apply_extra fs rawFC (copy_typed fs t))"
  by (rule finish_ParseE [OF assms], drule extra_steps(1), drule extra_steps(2), drule extra_steps(3))
    (simp add: extra_steps(4))

text \<open>
  The config file's \<^verbatim>\<open>extra\<close> stands above the flags: when the file has a string member for a
  key, that string is the key's only value, whatever \<^verbatim>\<open>--extra\<close> flags were given. (The comment on
  \<^verbatim>\<open>Parse\<close> says that flags always win.)
\<close>

theorem config_extra_file_wins:
  assumes "Parse os pe sources grants g0 args w = (Inr (c, g), w')"
    and "parse_flags grants args w = (Inr fs, w1)"
    and "read_config_file os (string_of_flag (flag_of fs ''config'')) w1 = (Inr (Some m), w2)"
    and "map_of m ''extra'' = Some (JObj ms)" "distinct (map fst ms)" "map_of ms k = Some (JStr s)"
  shows "vals_list (c_ExtraFields c) k = [s]"
proof -
  have "finish_Parse os pe sources grants fs (Some m)
      (resolve_all (Env_get (pe_Getenv pe)) (Some m) fs (all_fields grants) (new_targets g0)) w2 = (Inr (c, g), w')"
    using assms(1-3) by (simp add: Parse_def bind_w_def)
  from finish_Parse_extra [OF this] show ?thesis
    using assms(4-6) by (simp add: apply_extra_def set_members_list Let_def)
qed

section \<open>Examples\<close>

definition no_keys :: key_parsers where
  "no_keys = \<lparr>pem_Decode = (\<lambda>_. None), ParsePKCS8 = (\<lambda>_. Inl (External [])),
     ParsePKCS1 = (\<lambda>_. Inl (External [])), ParseEC = (\<lambda>_. Inl (External []))\<rparr>"

definition plain_env :: parse_env where
  "plain_env = \<lparr>pe_Getenv = Some (\<lambda>k. if k = ''OIDC_TOKEN_ISSUER'' then ''https://env'' else
      if k = ''OIDC_TOKEN_SCOPE'' then ''openid'' else []),
     pe_Home = Inr ''/home/u'', pe_Keys = no_keys\<rparr>"

definition with_config :: "string \<Rightarrow> unit world" where
  "with_config s = (blank ())\<lparr>files := (\<lambda>p. if p = ''c'' then Some \<lparr>content = s, mode = 0x180\<rparr> else None)\<rparr>"

definition example_file :: string where
  "example_file = ''{\"client_id\":\"file\",\"audience\":\"api\",\"extra\":{\"k\":\"from-file\"}}''"

lemma example_file_map:
  "unmarshal_map example_file =
     (Some [(''client_id'', JStr ''file''), (''audience'', JStr ''api''), (''extra'', JObj [(''k'', JStr ''from-file'')])], True)"
  by code_simp

lemma read_example:
  "read_config_file fair_os ''c'' (with_config example_file) =
     (Inr (fst (unmarshal_map example_file)), advance (with_config example_file))"
  by (simp add: read_config_file_def sys_defs fair_os_def with_config_def example_file_map advance_def)

text \<open>The table, worked through for a flag set of which only some flags are explicit.\<close>

lemmas resolve_simps = resolve_all_def all_fields_def universal_fields_def shipped_def ac_Fields_def te_Fields_def
  resolve_field_def env_defs file_defs flag_defs new_targets_def new_config_def new_grants_def
  envSubjectToken_def envSubjectTokenType_def envSubjectTokenSource_def on_grants_def

lemma example_resolved:
  assumes "\<And>n. explicit fs n \<longleftrightarrow> n \<in> {''client-id'', ''config'', ''extra''}"
    "flag_of fs ''client-id'' = Some (StringValue ''cli'')"
  shows "resolve_all (Env_get (pe_Getenv plain_env)) (fst (unmarshal_map example_file)) fs (all_fields shipped) (new_targets new_grants) =
    (new_targets new_grants)\<lparr>t_cfg := new_config\<lparr>c_Issuer := ''https://env'', c_ClientID := ''cli'',
       c_Scope := ''openid'', c_Audience := ''api''\<rparr>\<rparr>"
  by (simp add: resolve_simps assms example_file_map plain_env_def Env_get_def)

definition example_args :: "string list" where
  "example_args = [''--client-id=cli'', ''--config=c'', ''--extra=k=from-flag'']"

definition example_fs :: flagset where
  "example_fs = set_flag ''extra'' (ExtraValue [(''k'', [''from-flag''])])
     (set_flags [(''client-id'', ''cli''), (''config'', ''c'')] (register_all shipped))"

lemma example_fs_simps:
  "explicit example_fs n \<longleftrightarrow> n \<in> {''client-id'', ''config'', ''extra''}"
  "flag_of example_fs ''client-id'' = Some (StringValue ''cli'')"
  "flag_of example_fs ''config'' = Some (StringValue ''c'')"
  "flag_of example_fs ''extra'' = Some (ExtraValue [(''k'', [''from-flag''])])"
  by (auto simp: example_fs_def explicit_set_flag explicit_set_flags flag_of_set_flag set_flags_def
      flag_of_shipped shipped_values_def)

lemma example_flags: "parse_flags shipped example_args w = (Inr example_fs, w)"
proof -
  let ?fs = "set_flags [(''client-id'', ''cli''), (''config'', ''c'')] (register_all shipped)"
  have step: "flag_Parse usage [''--extra=k=from-flag''] ?fs = (None, example_fs, [])" for usage
  proof -
    have "classify ''--extra=k=from-flag'' = FlagArg ''extra'' (Some ''k=from-flag'')" by code_simp
    moreover have "flag_of ?fs ''extra'' = Some (ExtraValue [])"
      by (simp add: set_flags_def flag_of_set_flag flag_of_shipped shipped_values_def)
    moreover have "extra_Set ''k=from-flag'' [] = Inr [(''k'', [''from-flag''])]" by code_simp
    ultimately show ?thesis by (simp add: example_fs_def)
  qed
  have "is_string_flag (register_all shipped) ''client-id''" "is_string_flag (register_all shipped) ''config''"
    by (simp_all add: is_string_flag_def flag_of_shipped shipped_values_def)
  then have "flag_Parse usage (arg_text (''client-id'', ''cli'') # arg_text (''config'', ''c'') # [''--extra=k=from-flag''])
      (register_all shipped) = (None, example_fs, [])" for usage
    using step by (simp add: flag_Parse_step shipped_flag_name set_flags_def del: flag_Parse.simps)
  then show ?thesis by (simp add: parse_flags_def example_args_def arg_text_def)
qed

lemma example_dir: "DefaultDir (Env_get (pe_Getenv plain_env)) (pe_Home plain_env) = Inr ''/home/u/.cache/oidc-token''"
  by code_simp

lemma example_Parse:
  "\<exists>c g w'. Parse fair_os plain_env [] shipped new_grants example_args (with_config example_file) = (Inr (c, g), w') \<and>
     c_Issuer c = ''https://env'' \<and> c_ClientID c = ''cli'' \<and> c_ExtraFields c = [(''k'', [''from-file''])]"
proof -
  let ?w = "advance (with_config example_file)"
  let ?t = "resolve_all (Env_get (pe_Getenv plain_env)) (fst (unmarshal_map example_file)) example_fs
    (all_fields shipped) (new_targets new_grants)"
  have "\<exists>c g. finish_Parse fair_os plain_env [] shipped example_fs (fst (unmarshal_map example_file)) ?t ?w = (Inr (c, g), ?w) \<and>
     c_Issuer c = ''https://env'' \<and> c_ClientID c = ''cli'' \<and> c_ExtraFields c = [(''k'', [''from-file''])]"
    unfolding example_resolved [OF example_fs_simps(1,2)]
    by (simp add: finish_Parse_def bind_w_def apply_secret_file_def apply_default_dir_def apply_extra_def
        copy_typed_def example_fs_simps example_dir example_file_map config_constants new_targets_def new_config_def
        new_grants_def shipped_def te_Finalize_def te_default_type_def FindSource_def validate_def
        validate_grant_type_def validate_client_auth_def te_ValidateNotSelected_def resolvePrivateKey_def
        bridge_copy_def flag_extras_def vals_Set_def)
  then show ?thesis
    by (simp add: Parse_def bind_w_def example_flags example_fs_simps read_example) blast
qed


lemma config_precedence_witness:
  "\<exists>c g w' fs fc w1 w2. Parse fair_os plain_env [] shipped new_grants example_args (with_config example_file) = (Inr (c, g), w') \<and>
    parse_flags shipped example_args (with_config example_file) = (Inr fs, w1) \<and>
    read_config_file fair_os (string_of_flag (flag_of fs ''config'')) w1 = (Inr fc, w2) \<and>
    layered_config (Env_get (pe_Getenv plain_env)) fc fs c \<and>
    layered_grants (Env_get (pe_Getenv plain_env)) ([] :: unit world subject_source list) (contents w2) fc fs c \<and> c_Issuer c = ''https://env'' \<and> c_ClientID c = ''cli''"
proof -
  obtain c g w' where p: "Parse fair_os plain_env [] shipped new_grants example_args (with_config example_file) = (Inr (c, g), w')"
    "c_Issuer c = ''https://env''" "c_ClientID c = ''cli''" using example_Parse by blast
  then show ?thesis using config_precedence [OF p(1)] by blast
qed

lemma config_valid_witness:
  "\<exists>c g w'. Parse fair_os plain_env [] shipped new_grants example_args (with_config example_file) = (Inr (c, g), w') \<and>
    valid_config c \<and> c_ClientID c = ''cli''"
  using example_Parse config_valid by fast

lemma config_extra_file_wins_witness:
  "\<exists>c g w'. Parse fair_os plain_env [] shipped new_grants example_args (with_config example_file) = (Inr (c, g), w') \<and>
    flag_of example_fs ''extra'' = Some (ExtraValue [(''k'', [''from-flag''])]) \<and>
    vals_list (c_ExtraFields c) ''k'' = [''from-file'']"
proof -
  obtain c g w' where p: "Parse fair_os plain_env [] shipped new_grants example_args (with_config example_file) = (Inr (c, g), w')"
    using example_Parse by blast
  have "vals_list (c_ExtraFields c) ''k'' = [''from-file'']"
    by (rule config_extra_file_wins [OF p example_flags, where m = "the (fst (unmarshal_map example_file))" and ms = "[(''k'', JStr ''from-file'')]"])
      (simp_all add: example_fs_simps read_example example_file_map)
  with p example_fs_simps(4) show ?thesis by blast
qed

section \<open>The help text\<close>

lemma groups_distinct: "distinct (concat (map g_Flags groups))"
  by code_simp

lemma shipped_wf: "wf_flagset (register_all shipped)"
  by code_simp

lemma no_other_flags: "other_flags (register_all shipped) = []"
  by code_simp

lemma print_groups_lines: "l \<in> set (print_groups fs first gs) \<Longrightarrow> l = [] \<or> length l \<ge> 3"
  by (induction fs first gs rule: print_groups.induct)
    (auto simp: printFlag_def split: if_splits prod.splits)

lemma usage_other:
  "other_flags fs = [] \<Longrightarrow> [T ''  Other:''] \<notin> set (printGroupedUsage fs)"
  using print_groups_lines [of "[T ''  Other:'']" fs True groups] by (auto simp: printGroupedUsage_def)

lemma usage_complete:
  assumes "wf_flagset fs"
  shows "mset (filter flag_line (printGroupedUsage fs)) = mset (map printFlag (map snd (formal fs)))"
proof -
  let ?fl = "map snd (formal fs)" and ?ns = "concat (map g_Flags groups)"
  have seen: "fl_Name f \<in> set (seen_flags fs) \<longleftrightarrow> fl_Name f \<in> set ?ns" if "f \<in> set ?fl" for f
  proof -
    have "Lookup fs (fl_Name f) \<noteq> None"
      using that assms by (force simp: Lookup_def wf_flagset_def map_of_eq_None_iff list_all_iff image_iff)
    then show ?thesis by (simp add: seen_flags_def)
  qed
  have "mset (other_flags fs) = filter_mset (\<lambda>f. fl_Name f \<notin> set (seen_flags fs)) (mset ?fl)"
    by (simp only: other_flags_def mset_filter mset_VisitAll)
  also have "\<dots> = filter_mset (\<lambda>f. fl_Name f \<notin> set ?ns) (mset ?fl)"
    using seen by (intro filter_mset_cong) simp_all
  finally have other: "mset (other_flags fs) = filter_mset (\<lambda>f. fl_Name f \<notin> set ?ns) (mset ?fl)" .
  have "mset (List.map_filter (Lookup fs) ?ns @ other_flags fs) =
      filter_mset (\<lambda>f. fl_Name f \<in> set ?ns) (mset ?fl) + filter_mset (\<lambda>f. fl_Name f \<notin> set ?ns) (mset ?fl)"
    by (simp only: mset_append mset_lookup [OF groups_distinct assms] other mset_filter)
  also have "\<dots> = mset ?fl"
    by (rule multiset_partition [symmetric])
  finally show ?thesis
    unfolding flag_lines_usage by (simp only: mset_map)
qed

text \<open>
  C39: \<^verbatim>\<open>--help\<close> ends with \<^verbatim>\<open>flag.ErrHelp\<close>, and what it prints shows every registered flag exactly
  once, each under one of the titled groups: there is no \<^verbatim>\<open>Other\<close> section.
\<close>

theorem help_lists_every_flag:
  "\<exists>out. parse_flags shipped [''--help''] w = (Inl (Sentinel ErrHelp), w\<lparr>std_err := std_err w @ out\<rparr>) \<and>
     mset (filter flag_line out) = mset (map printFlag (map snd (formal (register_all shipped)))) \<and>
     [T ''  Other:''] \<notin> set out"
proof (intro exI conjI)
  have "classify ''--help'' = FlagArg ''help'' None" by code_simp
  then show "parse_flags shipped [''--help''] w =
      (Inl (Sentinel ErrHelp), w\<lparr>std_err := std_err w @ usage_text (register_all shipped)\<rparr>)"
    by (simp add: parse_flags_def flag_of_shipped shipped_values_def)
  show "mset (filter flag_line (usage_text (register_all shipped))) =
      mset (map printFlag (map snd (formal (register_all shipped))))"
    using usage_complete [OF shipped_wf] by (simp add: usage_text_def) (simp add: flag_line_def)
  show "[T ''  Other:''] \<notin> set (usage_text (register_all shipped))"
    using usage_other [OF no_other_flags] by (simp add: usage_text_def)
qed

end
