(* ===== verification/MainProps.thy ===== *)
theory MainProps
  imports Main_Program RunnerStore ConfigProps
begin

text \<open>
  The contract of the command: its exit status and what it leaves on standard output. The first part
  shows that no operation of the program but \<open>writeResult\<close> writes there, the second composes them.
\<close>

section \<open>Operations that leave a part of the world alone\<close>

definition keeps :: "('w \<Rightarrow> 'b) \<Rightarrow> ('w \<Rightarrow> 'a \<times> 'w) \<Rightarrow> bool" where
  "keeps f m \<longleftrightarrow> (\<forall>w. f (snd (m w)) = f w)"

lemma keepsI: "(\<And>w x w'. m w = (x, w') \<Longrightarrow> f w' = f w) \<Longrightarrow> keeps f m"
  unfolding keeps_def by (metis prod.collapse)

lemma keepsD: "keeps f m \<Longrightarrow> m w = (x, w') \<Longrightarrow> f w' = f w"
  unfolding keeps_def by (metis snd_conv)

lemma keeps_bind_w:
  assumes "keeps f m" "\<And>x. keeps f (g x)"
  shows "keeps f (bind_w m g)"
  by (rule keepsI) (auto simp: bind_w_def split: prod.splits sum.splits dest!: assms [THEN keepsD])

text \<open>What neither the clock nor a line on standard error changes; reading a file keeps it too.\<close>

definition steady :: "('x world \<Rightarrow> 'b) \<Rightarrow> bool" where
  "steady f \<longleftrightarrow> (\<forall>w. f (advance w) = f w) \<and> (\<forall>w ls. f (w\<lparr>std_err := ls\<rparr>) = f w)"

lemma steady_std_out [simp]: "steady std_out" and steady_files [simp]: "steady files"
  by (simp_all add: steady_def advance_def)

lemma steady_log_line: "steady f \<Longrightarrow> f (log_line l w) = f w"
  by (simp add: steady_def log_line_def)

lemma keeps_ReadFile: "steady f \<Longrightarrow> keeps f (ReadFile os p)"
  by (rule keepsI) (auto simp: steady_def ReadFile_def sys_def split: option.splits sum.splits)

section \<open>Reading the configuration\<close>

lemma keeps_parse_flags:
  assumes st: "steady f"
  shows "keeps f (parse_flags grants args)"
  by (rule keepsI) (use st in \<open>auto simp: parse_flags_def steady_def split: prod.splits option.splits\<close>)

lemma keeps_read_config_file:
  assumes st: "steady f"
  shows "keeps f (read_config_file os p)"
  by (rule keepsI) (auto simp: read_config_file_def split: if_splits prod.splits sum.splits bool.splits
      dest!: keeps_ReadFile [OF st, THEN keepsD])

lemma keeps_Finalize:
  assumes st: "steady f"
  shows "keeps f (Finalize os sources fs gr g)"
  by (cases gr; rule keepsI) (auto simp: te_Finalize_def split: if_splits prod.splits sum.splits
      dest!: keeps_ReadFile [OF st, THEN keepsD])

lemma keeps_finalize_all:
  assumes st: "steady f"
  shows "keeps f (finalize_all os sources fs grs g)"
  by (induction grs arbitrary: g) (auto simp: keeps_def [of _ "finalize_all os sources fs [] _"]
      finalize_all.simps(2) [abs_def] intro: keeps_bind_w keeps_Finalize [OF st])

lemma keeps_apply_secret_file:
  assumes st: "steady f"
  shows "keeps f (apply_secret_file os fs c)"
  by (rule keepsI) (auto simp: apply_secret_file_def split: if_splits prod.splits sum.splits
      dest!: keeps_ReadFile [OF st, THEN keepsD])

lemma keeps_resolvePrivateKey:
  assumes st: "steady f"
  shows "keeps f (resolvePrivateKey os kp c)"
  by (rule keepsI) (auto simp: resolvePrivateKey_def split: if_splits prod.splits sum.splits option.splits
      dest!: keeps_ReadFile [OF st, THEN keepsD])

lemma keeps_finish_Parse:
  assumes st: "steady f"
  shows "keeps f (finish_Parse os pe sources grants fs fc t)"
  unfolding finish_Parse_def
  by (intro keeps_bind_w keeps_apply_secret_file [OF st] keeps_finalize_all [OF st]; rule keepsI)
    (auto simp: apply_default_dir_def bind_w_def split: if_splits prod.splits sum.splits option.splits
      dest!: keeps_resolvePrivateKey [OF st, THEN keepsD])

lemma keeps_Parse:
  assumes st: "steady f"
  shows "keeps f (Parse os pe sources grants g0 args)"
  unfolding Parse_def
  by (intro keeps_bind_w keeps_parse_flags [OF st] keeps_read_config_file [OF st] keeps_finish_Parse [OF st])

section \<open>Operations that leave standard output alone\<close>

abbreviation quiet :: "('x world \<Rightarrow> 'a \<times> 'x world) \<Rightarrow> bool" where
  "quiet \<equiv> keeps std_out"

named_theorems quiet

lemmas quietI = keepsI [of _ std_out]
lemmas quietD = keepsD [of std_out]

lemma quiet_snd: "quiet m \<Longrightarrow> std_out (snd (m w)) = std_out w"
  by (simp add: keeps_def)

lemma std_out_simps [simp]:
  "std_out (advance w) = std_out w" "std_out (log_line l w) = std_out w"
  "std_out (logFallback (Some log_line) err w) = std_out w"
  by (simp_all add: advance_def log_line_def logFallback_def)

lemma quiet_return [quiet]: "quiet (\<lambda>w. (x, w))" "quiet (Pair x)"
  by (simp_all add: keeps_def)

lemma quiet_sys: "quiet act \<Longrightarrow> quiet (sys os c act)"
  unfolding keeps_def sys_def by (auto split: option.splits prod.splits sum.splits) (metis snd_conv)+

lemma quiet_calls [quiet]:
  "quiet (ReadFile os p)" "quiet (MkdirAll os p n)" "quiet (Chmod os p n)" "quiet (CreateTemp os p)"
  "quiet (Close os p)" "quiet (Rename os p q)" "quiet (Remove os p)"
  unfolding ReadFile_def MkdirAll_def Chmod_def CreateTemp_def Close_def Rename_def Remove_def
  by (rule quiet_sys, simp add: keeps_def Let_def split: option.splits)+

lemma quiet_Write [quiet]: "quiet (Write os p b)"
  by (auto simp: keeps_def Write_def append_bytes_def split: option.splits)

lemma quiet_try_sys:
  assumes "quiet m" "\<And>x. quiet (f x)"
  shows "quiet (try_sys m s f)"
  by (rule quietI) (auto simp: try_sys_def split: prod.splits sum.splits dest!: assms [THEN quietD])

section \<open>Stores\<close>

definition quiet_store :: "('x world, 'r) store \<Rightarrow> bool" where
  "quiet_store s \<longleftrightarrow> (\<forall>i c. quiet (Load s i c)) \<and> (\<forall>e. quiet (Save s e)) \<and> (\<forall>i c. quiet (Delete s i c)) \<and>
     (\<forall>i c fn. quiet fn \<longrightarrow> quiet (WithLock s i c fn))"

lemma quiet_storeD:
  assumes "quiet_store s"
  shows "quiet (Load s i c)" "quiet (Save s e)" "quiet (Delete s i c)" "quiet fn \<Longrightarrow> quiet (WithLock s i c fn)"
  using assms by (simp_all add: quiet_store_def)

lemma quiet_ensureDir: "quiet (ensureDir os dir)"
  unfolding ensureDir_def by (intro quiet_try_sys quiet)

lemma quiet_Cache_Load: "quiet (Cache_Load os dir i c)"
  by (rule quietI) (auto simp: Cache_Load_def split: prod.splits sum.splits dest!: quietD [OF quiet_calls(1)])

lemma quiet_fill_and_rename: "quiet (fill_and_rename os t d b)"
proof -
  have q: "quiet (try_sys (Close os t) s (\<lambda>_. try_sys (Chmod os t n) s' (\<lambda>_. try_sys (Rename os t d) s'' (\<lambda>_ w. (None, w)))))"
    for s s' s'' n by (intro quiet_try_sys quiet)
  show ?thesis
    by (intro quietI) (auto simp: fill_and_rename_def quiet_snd [OF quiet_calls(5)]
        split: prod.splits sum.splits dest!: q [THEN quietD] quiet_Write [THEN quietD])
qed

lemma quiet_Cache_Save: "quiet (Cache_Save os dir e)"
proof -
  have q: "quiet (\<lambda>w2. case fill_and_rename os t d b w2 of
      (None, w3) \<Rightarrow> (None, w3) | (Some err, w3) \<Rightarrow> (Some err, snd (Remove os t w3)))" for t d b
    by (rule quietI) (auto simp: quiet_snd [OF quiet_calls(7)] split: prod.splits option.splits
        dest!: quietD [OF quiet_fill_and_rename])
  have q': "quiet (try_sys (CreateTemp os dir) s (\<lambda>t w2. case fill_and_rename os t d b w2 of
      (None, w3) \<Rightarrow> (None, w3) | (Some err, w3) \<Rightarrow> (Some err, snd (Remove os t w3))))" for s d b
    by (intro quiet_try_sys quiet q)
  show ?thesis
    by (intro quietI) (auto simp: Cache_Save_def Let_def split: prod.splits option.splits sum.splits
        dest!: quiet_ensureDir [THEN quietD] q' [THEN quietD])
qed

lemma quiet_Cache_WithLock: "quiet fn \<Longrightarrow> quiet (Cache_WithLock os dir i c fn)"
  by (rule quietI) (auto simp: Cache_WithLock_def Let_def split: prod.splits option.splits bool.splits
      dest!: quietD [OF quiet_ensureDir] dest: quietD)

lemma quiet_Cache_Delete: "quiet (Cache_Delete os dir i c)"
  by (rule quietI) (auto simp: Cache_Delete_def split: prod.splits sum.splits dest!: quietD [OF quiet_calls(7)])

lemma quiet_file_store [quiet]: "quiet_store (file_store os dir)"
  by (simp add: quiet_store_def file_store_def quiet_Cache_Load quiet_Cache_Save quiet_Cache_Delete quiet_Cache_WithLock)

lemma quiet_runKeyringOp: "quiet (runKeyringOp op)"
  by (rule quietI) (auto simp: runKeyringOp_def split: prod.splits selected.splits)

lemma quiet_Keychain_Probe: "quiet (Keychain_Probe kr)"
  by (rule quietI) (auto simp: Keychain_Probe_def split: prod.splits sum.splits dest!: quietD [OF quiet_runKeyringOp])

lemma quiet_keychain_store [quiet]: "quiet_store (keychain_store kr)"
proof -
  have "quiet (Keychain_Load kr i c)" "quiet (Keychain_Save kr e)" "quiet (Keychain_Delete kr i c)" for i c e
    by (rule quietI; auto simp: Keychain_Load_def Keychain_Save_def Keychain_Delete_def
        split: prod.splits sum.splits dest!: quietD [OF quiet_runKeyringOp])+
  then show ?thesis by (simp add: quiet_store_def keychain_store_def keeps_def Keychain_WithLock_def)
qed

lemma quiet_noop_store [quiet]: "quiet_store noop_store"
  by (simp add: quiet_store_def noop_store_def keeps_def Noop_Load_def Noop_Save_def Noop_Delete_def Noop_WithLock_def)

lemma quiet_pair_chain [quiet]:
  assumes "quiet_store s1" "quiet_store s2"
  shows "quiet_store (chain_store (pair_chain s1 s2))"
proof -
  note q = quiet_storeD [OF assms(1)] quiet_storeD [OF assms(2)]
  have "quiet (Chain_Load (pair_chain s1 s2) i c)" for i c
    by (rule quietI) (auto simp: pair_Load split: prod.splits sum.splits if_splits
        dest!: quietD [OF q(1)] quietD [OF q(5)])
  moreover have "quiet (Chain_Save (pair_chain s1 s2) e)" for e
    by (rule quietI) (auto simp: pair_Save split: prod.splits option.splits if_splits
        dest!: quietD [OF q(2)] quietD [OF q(6)])
  moreover have "quiet (Chain_Delete (pair_chain s1 s2) i c)" for i c
    by (rule quietI) (auto simp: pair_Delete split: prod.splits dest!: quietD [OF q(3)] quietD [OF q(7)])
  ultimately show ?thesis
    by (simp add: quiet_store_def chain_store_def pair_WithLock [abs_def] q)
qed

section \<open>The runner\<close>

definition quiet_source :: "'x world token_source \<Rightarrow> bool" where
  "quiet_source src \<longleftrightarrow> (\<forall>t. quiet (ts_Refresh src t)) \<and> quiet (ts_Login src)"

definition quiet_runner :: "'x world runner \<Rightarrow> bool" where
  "quiet_runner r \<longleftrightarrow> quiet_store (rn_Cache r) \<and> quiet_source (rn_Source r) \<and> rn_Stderr r = Some log_line"

lemma quiet_runnerD:
  assumes "quiet_runner r"
  shows "quiet (Load (rn_Cache r) i c)" "quiet (persist r i c res)" "quiet (Delete (rn_Cache r) i c)"
    "quiet fn \<Longrightarrow> quiet (WithLock (rn_Cache r) i c fn)" "quiet (ts_Refresh (rn_Source r) t)"
    "quiet (ts_Login (rn_Source r))" "quiet (checkIDToken r res)" "std_out (warn r l w) = std_out w"
proof -
  have w: "std_out (warn r l w) = std_out w" for l w using assms by (simp add: quiet_runner_def warn_def)
  then show "std_out (warn r l w) = std_out w" .
  show "quiet (checkIDToken r res)"
    by (rule keepsI) (auto simp: checkIDToken_def w split: option.splits if_splits)
  show "quiet (persist r i c res)"
    using assms by (simp add: persist_def [abs_def] quiet_runner_def quiet_store_def)
qed (use assms in \<open>simp_all add: quiet_runner_def quiet_source_def quiet_store_def\<close>)

lemma quiet_refresh_with:
  assumes "quiet_runner r"
  shows "quiet (refresh_with r i c t)"
  by (rule keepsI) (auto simp: refresh_with_def Let_def split: if_splits prod.splits sum.splits option.splits
      dest!: quiet_runnerD(2,5,7) [OF assms, THEN keepsD])

lemma quiet_refresh_locked:
  assumes "quiet_runner r"
  shows "quiet (refresh_locked r i c e)"
  by (rule keepsI) (auto simp: refresh_locked_def apfst_def map_prod_def split: if_splits prod.splits sum.splits option.splits
      dest!: quiet_runnerD(1) [OF assms, THEN keepsD] quiet_refresh_with [OF assms, THEN keepsD])

lemma quiet_tryRefresh:
  assumes "quiet_runner r"
  shows "quiet (tryRefresh r i c e)"
  by (rule keepsI) (auto simp: tryRefresh_def split: prod.splits sum.splits
      dest!: quiet_runnerD(4) [OF assms quiet_refresh_locked [OF assms], THEN keepsD])

lemma quiet_login:
  assumes "quiet_runner r"
  shows "quiet (login r i c)"
  by (rule keepsI) (auto simp: login_def Let_def quiet_runnerD(8) [OF assms] split: if_splits prod.splits sum.splits option.splits
      dest!: quiet_runnerD(2,6,7) [OF assms, THEN keepsD])

lemma quiet_Run:
  assumes "quiet_runner r"
  shows "quiet (Run r)"
  by (rule keepsI) (auto simp: Run_def Let_def split: if_splits prod.splits sum.splits option.splits
      dest!: quiet_runnerD(1) [OF assms, THEN keepsD] quiet_tryRefresh [OF assms, THEN keepsD]
        quiet_login [OF assms, THEN keepsD])

section \<open>The command\<close>

text \<open>What is given to \<^verbatim>\<open>run\<close> from outside writes nothing to the standard output of the process.\<close>

definition quiet_env :: "'x main_env \<Rightarrow> bool" where
  "quiet_env me \<longleftrightarrow> (\<forall>cfg. quiet_source (me_newSource me cfg)) \<and> (\<forall>rq. quiet (me_http me rq)) \<and>
     (\<forall>cfg t tt rt rs. quiet (me_exchange me cfg t tt rt rs))"

lemma keeps_FetchGitHubActions:
  assumes "\<And>rq. keeps f (client rq)"
  shows "keeps f (FetchGitHubActions getenv audience client)"
  by (rule keepsI) (auto simp: FetchGitHubActions_def Let_def split: if_splits prod.splits sum.splits option.splits
      dest!: assms [THEN keepsD])

lemma keeps_ResolveSubjectToken:
  assumes "\<And>rq. keeps f (me_http me rq)"
  shows "keeps f (ResolveSubjectToken (subject_sources me) te)"
  by (rule keepsI) (auto simp: ResolveSubjectToken_def subject_sources_def FindSource_def GitHubActions_def
      split: if_splits option.splits dest!: keeps_FetchGitHubActions [OF assms, THEN keepsD])

lemma quiet_buildStore: "quiet (buildStore os kr cfg)"
  by (rule keepsI) (auto simp: buildStore_def split: if_splits prod.splits option.splits
      dest!: quiet_Keychain_Probe [THEN keepsD])

lemma buildStore_quiet:
  assumes "buildStore os kr cfg w = (Inr s, w')"
  shows "quiet_store s"
proof -
  have "quiet_store (chain_store \<lparr>Backends = [OtherBackend (keychain_store kr), FileBackend (file_store os d)],
      Logger = Some log_line\<rparr>)" for d
    using quiet_pair_chain [OF quiet_keychain_store quiet_file_store] by (simp add: pair_chain_def)
  then show ?thesis
    using assms by (auto simp: buildStore_def quiet split: if_splits prod.splits option.splits)
qed

lemma quiet_new_runner:
  "quiet_env me \<Longrightarrow> quiet_store s \<Longrightarrow> quiet_runner (new_runner me cfg s)"
  by (simp add: quiet_runner_def new_runner_def quiet_env_def)

lemma report_code [simp]: "report err w = (code, w') \<Longrightarrow> code = 1 \<and> std_out w' = std_out w"
  by (auto simp: report_def)

text \<open>A document is never empty: it begins with a brace, or it is a token that is there.\<close>

lemma json_obj_ne: "json_text (JObj ms) \<noteq> []"
  by (cases ms) auto

lemma render_ne: "render cfg getenv r = (None, doc) \<Longrightarrow> doc \<noteq> []"
  by (auto simp: render_def WriteAll_def WriteExecCredential_def WriteBare_def buffer_def Select_def exec_doc_def Let_def
      json_obj_ne split: if_splits)

lemma writeResult_cases:
  assumes "writeResult fault cfg getenv r w = (code, w')"
  obtains (printed) doc where "code = 0" "render cfg getenv r = (None, doc)" "std_out w' = std_out w @ doc"
  | (broken) doc n where "code = 1" "render cfg getenv r = (None, doc)" "fault doc = Some n"
      "std_out w' = std_out w @ take n doc"
  | (nothing) "code = 1" "std_out w' = std_out w"
  using assms unfolding writeResult_def write_stdout_def
  by (auto split: prod.splits option.splits dest!: report_code)

text \<open>
  Where the printed credentials come from: a run of the runner over the store that was built, or an
  exchange of the subject token that was resolved.
\<close>

definition obtained :: "'x main_env \<Rightarrow> config \<Rightarrow> result \<Rightarrow> bool" where
  "obtained me cfg r \<longleftrightarrow>
     (\<exists>store v u u'. buildStore (me_os me) (me_keyring me) cfg v = (Inr store, u) \<and>
        Run (new_runner me cfg store) u = (Inr r, u')) \<or>
     (\<exists>te t v u u'. ResolveSubjectToken (subject_sources me) te v = (Inr t, u) \<and>
        me_exchange me cfg t (c_SubjectTokenType cfg) (c_RequestedTokenType cfg) (c_Resources cfg) u = (Inr r, u'))"

text \<open>The three ways a run of the command can end, as far as standard output is concerned.\<close>

definition printed :: "'x main_env \<Rightarrow> config \<Rightarrow> string \<Rightarrow> string \<Rightarrow> bool" where
  "printed me cfg before after \<longleftrightarrow>
     (\<exists>r doc. obtained me cfg r \<and> render cfg (me_Getenv me) r = (None, doc) \<and> doc \<noteq> [] \<and> after = before @ doc)"

definition nothing_or_broken :: "'x main_env \<Rightarrow> string \<Rightarrow> string \<Rightarrow> bool" where
  "nothing_or_broken me before after \<longleftrightarrow>
     after = before \<or> (\<exists>doc n. me_fault me doc = Some n \<and> after = before @ take n doc)"

definition ends_well :: "'x main_env \<Rightarrow> config \<Rightarrow> string \<Rightarrow> nat \<times> 'x world \<Rightarrow> bool" where
  "ends_well me cfg before = (\<lambda>(code, w').
     code = 0 \<and> printed me cfg before (std_out w') \<or>
     code = 0 \<and> c_Logout cfg \<and> c_GrantType cfg \<noteq> GrantTokenExchange \<and> std_out w' = before \<or>
     code = 1 \<and> nothing_or_broken me before (std_out w'))"

lemma ends_well_report: "std_out w = before \<Longrightarrow> ends_well me cfg before (report err w)"
  by (simp add: ends_well_def report_def nothing_or_broken_def)

lemma ends_well_writeResult:
  assumes "obtained me cfg r" "std_out w = before"
  shows "ends_well me cfg before (writeResult (me_fault me) cfg (me_Getenv me) r w)"
proof (cases "writeResult (me_fault me) cfg (me_Getenv me) r w")
  case (Pair code w')
  then show ?thesis
    by (cases rule: writeResult_cases)
      (use assms render_ne in \<open>auto simp: Pair ends_well_def printed_def nothing_or_broken_def\<close>)
qed

lemma ends_well_exchange:
  assumes "quiet_env me" "std_out w = before"
  shows "ends_well me cfg before (run_exchange me cfg te w)"
proof -
  have q: "quiet (ResolveSubjectToken (subject_sources me) te)" "quiet (me_exchange me cfg t tt rt rs)" for t tt rt rs
    using assms(1) keeps_ResolveSubjectToken [of std_out me te] by (simp_all add: quiet_env_def)
  let ?x = "\<lambda>t. me_exchange me cfg t (c_SubjectTokenType cfg) (c_RequestedTokenType cfg) (c_Resources cfg)"
  show ?thesis
  proof (cases "ResolveSubjectToken (subject_sources me) te w")
    case resolved: (Pair x w1)
    then have w1: "std_out w1 = before" using assms(2) q(1) [THEN keepsD] by metis
    show ?thesis
    proof (cases x)
      case (Inl err)
      then show ?thesis using resolved w1 by (simp add: run_exchange_def ends_well_report)
    next
      case (Inr t)
      obtain y w2 where y: "?x t w1 = (y, w2)" by (cases "?x t w1")
      then have "std_out w2 = before" using w1 q(2) [THEN keepsD] by metis
      moreover have "obtained me cfg r" if "y = Inr r" for r
        using resolved y Inr that unfolding obtained_def by blast
      ultimately show ?thesis
        using resolved y Inr by (cases y) (simp_all add: run_exchange_def ends_well_report ends_well_writeResult)
    qed
  qed
qed

lemma ends_well_cached:
  assumes "quiet_env me" "std_out w = before" "c_GrantType cfg \<noteq> GrantTokenExchange"
  shows "ends_well me cfg before (run_cached me cfg w)"
proof (cases "buildStore (me_os me) (me_keyring me) cfg w")
  case (Pair x w1)
  then have w1: "std_out w1 = before" using assms(2) quiet_buildStore [THEN keepsD] by metis
  show ?thesis
  proof (cases x)
    case (Inl err)
    then show ?thesis using Pair w1 by (simp add: run_cached_def ends_well_report)
  next
    case (Inr store)
    let ?r = "new_runner me cfg store"
    have q: "quiet_runner ?r"
      using Pair Inr by (auto intro: quiet_new_runner assms(1) buildStore_quiet)
    have l: "quiet (Logout ?r)"
      using quiet_runnerD(3) [OF q] by (simp add: Logout_def [abs_def])
    have "obtained me cfg r" if "Run ?r w1 = (Inr r, v')" for r v'
      using Pair Inr that unfolding obtained_def by blast
    then show ?thesis
      using assms(3) w1 Pair Inr quiet_snd [OF quiet_Run [OF q], of w1] unfolding run_cached_def
      by (auto intro!: ends_well_report ends_well_writeResult split: prod.splits sum.splits option.splits
          dest!: l [THEN keepsD]) (auto simp: ends_well_def)
  qed
qed

text \<open>
  C7: The contract of the command towards a script. It exits with 0 or 1. Exit status 0 means that
  exactly one non-empty document went to standard output, rendered from credentials a run or an
  exchange returned, unless help or a logout was asked for, which print nothing there. Exit status 1
  means that nothing was printed, except for the first bytes of a document whose write itself failed.
\<close>

theorem run_stdout_contract:
  assumes "quiet_env me" "run me args w = (code, w')"
  shows "case parse_args me args w of
      (Inl err, _) \<Rightarrow> code = (if errors_Is ErrHelp err then 0 else 1) \<and> std_out w' = std_out w
    | (Inr (cfg, _), _) \<Rightarrow>
        code = 0 \<and> printed me cfg (std_out w) (std_out w') \<or>
        code = 0 \<and> c_Logout cfg \<and> c_GrantType cfg \<noteq> GrantTokenExchange \<and> std_out w' = std_out w \<or>
        code = 1 \<and> nothing_or_broken me (std_out w) (std_out w')"
proof (cases "parse_args me args w")
  case (Pair x w1)
  then have w1: "std_out w1 = std_out w"
    unfolding parse_args_def by (rule keepsD [OF keeps_Parse [OF steady_std_out]])
  show ?thesis
  proof (cases x)
    case (Inl err)
    then show ?thesis using assms(2) Pair w1 by (auto simp: run_def split: if_splits)
  next
    case (Inr y)
    then obtain cfg g where "x = Inr (cfg, g)" by (cases y) auto
    moreover from this have "ends_well me cfg (std_out w) (run me args w)"
      using Pair w1 ends_well_exchange [OF assms(1)] ends_well_cached [OF assms(1)] by (simp add: run_def)
    ultimately show ?thesis using Pair by (simp add: assms(2) ends_well_def)
  qed
qed

section \<open>Token exchange and the cache\<close>

definition disk :: "'x world \<Rightarrow> fs \<times> (string \<Rightarrow> nat option)" where
  "disk w = (files w, dirs w)"

lemma disk_simps [simp]: "disk (advance w) = disk w" "disk (log_line l w) = disk w"
  "disk (w\<lparr>std_err := ls\<rparr>) = disk w" "disk (w\<lparr>std_out := b\<rparr>) = disk w"
  by (simp_all add: disk_def advance_def log_line_def)

lemma steady_disk: "steady disk"
  by (simp add: steady_def)

lemma disk_report [simp]: "disk (snd (report err w)) = disk w"
  by (simp add: report_def)

lemma disk_writeResult: "disk (snd (writeResult fault cfg getenv r w)) = disk w"
  by (auto simp: writeResult_def write_stdout_def split: prod.split option.split)

lemma disk_run_exchange:
  assumes "\<And>rq. keeps disk (me_http me rq)" "\<And>cfg t tt rt rs. keeps disk (me_exchange me cfg t tt rt rs)"
  shows "disk (snd (run_exchange me cfg te w)) = disk w"
  unfolding run_exchange_def
  by (auto simp: disk_writeResult split: prod.split sum.split
      dest!: keeps_ResolveSubjectToken [OF assms(1), THEN keepsD] assms(2) [THEN keepsD])

lemma run_exchange_only:
  assumes "parse_args me args w = (Inr (cfg, g), w1)" "c_GrantType cfg = GrantTokenExchange"
    "\<And>rq. keeps disk (me_http me rq)" "\<And>cfg t tt rt rs. keeps disk (me_exchange me cfg t tt rt rs)"
  shows "disk (snd (run me args w)) = disk w" "run (me\<lparr>me_keyring := kr, me_newSource := src\<rparr>) args w = run me args w"
proof -
  have "disk w1 = disk w"
    using assms(1) unfolding parse_args_def by (rule keepsD [OF keeps_Parse [OF steady_disk]])
  then show "disk (snd (run me args w)) = disk w"
    using assms(1,2) by (simp add: run_def disk_run_exchange [OF assms(3,4)])
  have "parse_args (me\<lparr>me_keyring := kr, me_newSource := src\<rparr>) = parse_args me"
    "run_exchange (me\<lparr>me_keyring := kr, me_newSource := src\<rparr>) = run_exchange me"
    by (simp_all add: fun_eq_iff parse_args_def run_exchange_def subject_sources_def split: prod.split sum.split)
  then show "run (me\<lparr>me_keyring := kr, me_newSource := src\<rparr>) args w = run me args w"
    using assms(1,2) by (simp add: run_def)
qed

text \<open>
  C40: A token exchange that was not asked to log out works without the cache: it changes no file and
  no directory, and neither the keychain nor the source of logins has any influence on it.
\<close>

theorem exchange_without_cache:
  assumes "parse_args me args w = (Inr (cfg, g), w1)" "c_GrantType cfg = GrantTokenExchange" "\<not> c_Logout cfg"
    "\<And>rq. keeps disk (me_http me rq)" "\<And>cfg t tt rt rs. keeps disk (me_exchange me cfg t tt rt rs)"
  shows "disk (snd (run me args w)) = disk w \<and>
    run (me\<lparr>me_keyring := kr, me_newSource := src\<rparr>) args w = run me args w"
  using run_exchange_only [OF assms(1,2,4,5)] by blast

section \<open>Examples\<close>

definition script_env :: "(string \<Rightarrow> string) \<Rightarrow> unit main_env" where
  "script_env getenv = \<lparr>me_os = fair_os,
     me_keyring = \<lparr>kr_Get = (\<lambda>_ _ x. (CtxDone, x)), kr_Set = (\<lambda>_ _ _ x. (CtxDone, x)), kr_Delete = (\<lambda>_ _ x. (CtxDone, x))\<rparr>,
     me_Getenv = getenv, me_Home = Inr ''/home/u'', me_Keys = no_keys, me_http = (\<lambda>_ w. (Inl (External []), w)),
     me_now = (\<lambda>_. zero_time), me_fault = (\<lambda>_. None),
     me_newSource = (\<lambda>_. \<lparr>ts_Refresh = (\<lambda>_ w. (Inl (External []), w)),
       ts_Login = (\<lambda>w. (Inr (zero_result\<lparr>r_AccessToken := ''tok''\<rparr>), w))\<rparr>),
     me_exchange = (\<lambda>_ _ _ _ _ w. (Inr (zero_result\<lparr>r_AccessToken := ''new''\<rparr>), w))\<rparr>"

lemma quiet_script_env: "quiet_env (script_env getenv)"
  by (simp add: quiet_env_def quiet_source_def script_env_def keeps_def)

lemma script_env_simps:
  "me_fault (script_env e) b = None" "me_Getenv (script_env e) = e"
  "ts_Login (me_newSource (script_env e) cfg) w = (Inr (zero_result\<lparr>r_AccessToken := ''tok''\<rparr>), w)"
  "me_exchange (script_env e) cfg t tt rt rs w = (Inr (zero_result\<lparr>r_AccessToken := ''new''\<rparr>), w)"
  by (simp_all add: script_env_def)

definition login_flags :: "(string \<times> string) list" where
  "login_flags = [(''issuer'', ''i''), (''client-id'', ''c''), (''token-store'', ''none'')]"

definition logout_env :: "bool \<Rightarrow> string \<Rightarrow> string" where
  "logout_env lo k = (if k = ''OIDC_TOKEN_LOGOUT'' \<and> lo then ''true'' else [])"

definition exchange_flags :: "(string \<times> string) list" where
  "exchange_flags = [(''issuer'', ''i''), (''client-id'', ''c''), (''token-store-dir'', ''d''),
     (''grant-type'', ''token-exchange''), (''subject-token'', ''s'')]"

lemma example_string_flags:
  "list_all (\<lambda>(n, v). is_string_flag (register_all shipped) n) login_flags"
  "list_all (\<lambda>(n, v). is_string_flag (register_all shipped) n) exchange_flags"
  by (simp_all add: login_flags_def exchange_flags_def is_string_flag_def flag_of_shipped shipped_values_def)

lemma login_resolved:
  assumes "\<And>n. explicit fs n \<longleftrightarrow> n \<in> fst ` set login_flags"
    "\<And>n v. map_of login_flags n = Some v \<Longrightarrow> flag_of fs n = Some (StringValue v)"
  shows "resolve_all (\<lambda>_. []) None fs (all_fields shipped) (new_targets new_grants) =
    (new_targets new_grants)\<lparr>t_cfg := new_config\<lparr>c_Issuer := ''i'', c_ClientID := ''c''\<rparr>, t_tokenStore := ''none''\<rparr>"
  using assms(2) [of "''issuer''"] assms(2) [of "''client-id''"] assms(2) [of "''token-store''"]
  by (simp add: resolve_simps assms(1) login_flags_def)

lemma exchange_resolved:
  assumes "\<And>n. explicit fs n \<longleftrightarrow> n \<in> fst ` set exchange_flags"
    "\<And>n v. map_of exchange_flags n = Some v \<Longrightarrow> flag_of fs n = Some (StringValue v)"
  shows "resolve_all (logout_env lo) None fs (all_fields shipped) (new_targets new_grants) =
    (new_targets new_grants)\<lparr>t_cfg := new_config\<lparr>c_Issuer := ''i'', c_ClientID := ''c'', c_TokenStoreDir := ''d'', c_Logout := lo\<rparr>,
       t_grantType := ''token-exchange'', t_grants := new_grants\<lparr>gr_te := (gr_te new_grants)\<lparr>te_SubjectToken := ''s''\<rparr>\<rparr>\<rparr>"
  using assms(2) [of "''issuer''"] assms(2) [of "''client-id''"] assms(2) [of "''token-store-dir''"]
    assms(2) [of "''grant-type''"] assms(2) [of "''subject-token''"]
  by (cases lo) (simp_all add: resolve_simps assms(1) exchange_flags_def logout_env_def)

lemma set_flags_given:
  assumes "list_all (\<lambda>(n, v). is_string_flag (register_all shipped) n) ps" "distinct (map fst ps)"
  shows "explicit (set_flags ps (register_all shipped)) n \<longleftrightarrow> n \<in> fst ` set ps"
    "map_of ps n = Some v \<Longrightarrow> flag_of (set_flags ps (register_all shipped)) n = Some (StringValue v)"
proof -
  show "explicit (set_flags ps (register_all shipped)) n \<longleftrightarrow> n \<in> fst ` set ps"
    by (simp add: explicit_set_flags)
  assume v: "map_of ps n = Some v"
  have "distinct (map fst (rev ps))" using assms(2) by (simp add: rev_map [symmetric])
  then have "map_of (rev ps) n = Some v" using v by (auto dest: map_of_SomeD intro: map_of_is_SomeI)
  moreover have "n \<in> fst ` set ps" using v by (force dest: map_of_SomeD)
  ultimately show "flag_of (set_flags ps (register_all shipped)) n = Some (StringValue v)"
    by (simp add: flag_of_set_flags [OF assms(1)])
qed

lemma example_distinct: "distinct (map fst login_flags)" "distinct (map fst exchange_flags)"
  by (simp_all add: login_flags_def exchange_flags_def)

lemmas login_given = set_flags_given [OF example_string_flags(1) example_distinct(1)]
lemmas exchange_given = set_flags_given [OF example_string_flags(2) example_distinct(2)]

lemma no_config_flag:
  assumes "list_all (\<lambda>(n, v). is_string_flag (register_all shipped) n) ps" "''config'' \<notin> fst ` set ps"
  shows "string_of_flag (flag_of (set_flags ps (register_all shipped)) ''config'') = []"
proof -
  have "map_of (rev ps) ''config'' = None" using assms(2) by (simp add: map_of_eq_None_iff)
  then show ?thesis by (simp add: flag_of_set_flags [OF assms(1)] flag_of_shipped shipped_values_def)
qed

text \<open>Parsing string flags without a config file is resolving the table.\<close>

definition script_parse_env :: "(string \<Rightarrow> string) \<Rightarrow> parse_env" where
  "script_parse_env getenv = \<lparr>pe_Getenv = Some getenv, pe_Home = Inr ''/home/u'', pe_Keys = no_keys\<rparr>"

lemma parse_script:
  assumes "list_all (\<lambda>(n, v). is_string_flag (register_all shipped) n) ps" "''config'' \<notin> fst ` set ps"
  shows "parse_args (script_env getenv) (map arg_text ps) w =
    finish_Parse fair_os (script_parse_env getenv) (subject_sources (script_env getenv)) shipped
      (set_flags ps (register_all shipped)) None
      (resolve_all getenv None (set_flags ps (register_all shipped)) (all_fields shipped) (new_targets new_grants)) w"
proof -
  have "parse_args (script_env getenv) (map arg_text ps) w =
      Parse fair_os (script_parse_env getenv) (subject_sources (script_env getenv)) shipped new_grants (map arg_text ps) w"
    by (simp add: parse_args_def script_parse_env_def shipped_def) (simp add: script_env_def)
  then show ?thesis
    by (simp add: Parse_def bind_w_def parse_flags_args [OF assms(1)] no_config_flag [OF assms] read_config_file_def)
      (simp add: script_parse_env_def Env_get_def [abs_def])
qed

lemmas finish_simps = finish_Parse_def bind_w_def apply_secret_file_def apply_default_dir_def apply_extra_def
  copy_typed_def config_constants new_targets_def new_config_def new_grants_def shipped_def
  te_Finalize_def te_default_type_def te_Validate_def FindSource_def validate_def validate_grant_type_def
  validate_client_auth_def te_ValidateNotSelected_def resolvePrivateKey_def bridge_copy_def

lemmas login_table = login_resolved [of "set_flags login_flags (register_all shipped)",
  OF login_given(1) login_given(2), simplified]

lemma login_finish:
  assumes "\<And>n. explicit fs n \<longleftrightarrow> n \<in> fst ` set login_flags"
  shows "\<exists>cfg g. finish_Parse os pe sources shipped fs None ((new_targets new_grants)\<lparr>
      t_cfg := new_config\<lparr>c_Issuer := ''i'', c_ClientID := ''c''\<rparr>, t_tokenStore := ''none''\<rparr>) w = (Inr (cfg, g), w) \<and>
     c_GrantType cfg = ''auto'' \<and> c_TokenStore cfg = ''none'' \<and> \<not> c_Logout cfg \<and> c_Format cfg = ''token'' \<and>
     c_TokenType cfg = ''access_token''"
  by (simp add: finish_simps assms login_flags_def)

lemma login_parse:
  "\<exists>cfg g. parse_args (script_env (\<lambda>_. [])) (map arg_text login_flags) w = (Inr (cfg, g), w) \<and>
     c_GrantType cfg = ''auto'' \<and> c_TokenStore cfg = ''none'' \<and> \<not> c_Logout cfg \<and> c_Format cfg = ''token'' \<and>
     c_TokenType cfg = ''access_token''"
proof -
  have c: "''config'' \<notin> fst ` set login_flags" by (simp add: login_flags_def)
  show ?thesis
    unfolding parse_script [OF example_string_flags(1) c] login_table
    by (rule login_finish [OF login_given(1)])
qed

lemmas exchange_table = exchange_resolved [of "set_flags exchange_flags (register_all shipped)",
  OF exchange_given(1) exchange_given(2), simplified]

lemma exchange_finish:
  assumes "\<And>n. explicit fs n \<longleftrightarrow> n \<in> fst ` set exchange_flags"
  shows "\<exists>cfg g. finish_Parse os pe (subject_sources me) shipped fs None ((new_targets new_grants)\<lparr>
      t_cfg := new_config\<lparr>c_Issuer := ''i'', c_ClientID := ''c'', c_TokenStoreDir := ''d'', c_Logout := lo\<rparr>,
      t_grantType := ''token-exchange'', t_grants := new_grants\<lparr>gr_te := (gr_te new_grants)\<lparr>te_SubjectToken := ''s''\<rparr>\<rparr>\<rparr>) w =
      (Inr (cfg, g), w) \<and>
     c_GrantType cfg = ''token-exchange'' \<and> c_Logout cfg = lo \<and> c_Format cfg = ''token'' \<and> c_TokenType cfg = ''access_token'' \<and>
     te_SubjectTokenSource (gr_te g) = []"
  by (simp add: finish_simps defaultSubjectTokenType_def subject_sources_def GitHubActions_def assms exchange_flags_def)

lemma exchange_parse:
  "\<exists>cfg g. parse_args (script_env (logout_env lo)) (map arg_text exchange_flags) w =
       (Inr (cfg, g), w) \<and>
     c_GrantType cfg = ''token-exchange'' \<and> c_Logout cfg = lo \<and> c_Format cfg = ''token'' \<and> c_TokenType cfg = ''access_token'' \<and>
     te_SubjectTokenSource (gr_te g) = []"
proof -
  have c: "''config'' \<notin> fst ` set exchange_flags" by (simp add: exchange_flags_def)
  show ?thesis
    unfolding parse_script [OF example_string_flags(2) c] exchange_table
    by (rule exchange_finish [OF exchange_given(1)])
qed

lemma blank_out: "std_out (blank x) = []" "std_out (with_config s) = []"
  by (simp_all add: with_config_def blank_def)

lemma run_stdout_contract_witness:
  "\<exists>cfg w'. run (script_env (\<lambda>_. [])) (map arg_text login_flags) (blank ()) = (0, w') \<and> std_out w' = ''tok'' \<and>
     printed (script_env (\<lambda>_. [])) cfg [] (std_out w')"
proof -
  let ?me = "script_env (\<lambda>_. [])"
  obtain cfg g where p: "parse_args ?me (map arg_text login_flags) (blank ()) = (Inr (cfg, g), blank ())"
    and c: "c_GrantType cfg = ''auto''" "c_TokenStore cfg = ''none''" "\<not> c_Logout cfg" "c_Format cfg = ''token''"
      "c_TokenType cfg = ''access_token''"
    using login_parse by blast
  have "\<exists>w'. run ?me (map arg_text login_flags) (blank ()) = (0, w') \<and> std_out w' = ''tok''"
    using c by (simp add: run_def p run_cached_def buildStore_def config_constants Run_def new_runner_def noop_store_def
        Noop_Load_def login_def script_env_simps checkIDToken_def zero_result_def warn_def persist_def Noop_Save_def
        writeResult_def render_def WriteBare_def Select_def buffer_def write_stdout_def log_line_def blank_out)
  then obtain w' where w': "run ?me (map arg_text login_flags) (blank ()) = (0, w')" "std_out w' = ''tok''" by blast
  with run_stdout_contract [OF quiet_script_env w'(1)] p c(3)
  have "printed ?me cfg (std_out (blank ())) (std_out w')" by auto
  with w' show ?thesis by (auto simp: blank_out)
qed

lemma exchange_run:
  "\<exists>cfg g w'. parse_args (script_env (logout_env lo)) (map arg_text exchange_flags) (with_config ''entry'') =
       (Inr (cfg, g), with_config ''entry'') \<and> c_GrantType cfg = GrantTokenExchange \<and> c_Logout cfg = lo \<and>
     run (script_env (logout_env lo)) (map arg_text exchange_flags) (with_config ''entry'') = (0, w') \<and> std_out w' = ''new''"
proof -
  let ?me = "script_env (logout_env lo)" and ?w = "with_config ''entry''"
  obtain cfg g where p: "parse_args ?me (map arg_text exchange_flags) ?w = (Inr (cfg, g), ?w)"
    and c: "c_GrantType cfg = ''token-exchange''" "c_Logout cfg = lo" "c_Format cfg = ''token''"
      "c_TokenType cfg = ''access_token''" "te_SubjectTokenSource (gr_te g) = []"
    using exchange_parse by blast
  have "\<exists>w'. run ?me (map arg_text exchange_flags) ?w = (0, w') \<and> std_out w' = ''new''"
    using c by (simp add: run_def p run_exchange_def ResolveSubjectToken_def config_constants script_env_simps zero_result_def
        writeResult_def render_def WriteBare_def Select_def buffer_def write_stdout_def blank_out)
  then show ?thesis using p c(1,2) by (auto simp: GrantTokenExchange_def)
qed

lemma script_env_disk: "keeps disk (me_http (script_env e) rq)" "keeps disk (me_exchange (script_env e) cf t tt rt rs)"
  by (simp_all add: script_env_def keeps_def)

lemma exchange_without_cache_witness:
  "\<exists>cfg g w'. parse_args (script_env (logout_env False)) (map arg_text exchange_flags)
       (with_config ''entry'') = (Inr (cfg, g), with_config ''entry'') \<and> \<not> c_Logout cfg \<and>
     run (script_env (logout_env False)) (map arg_text exchange_flags) (with_config ''entry'') = (0, w') \<and>
     std_out w' = ''new'' \<and> files w' ''c'' = Some \<lparr>content = ''entry'', mode = 0x180\<rparr>"
proof -
  let ?me = "script_env (logout_env False)" and ?w = "with_config ''entry''"
  obtain cfg g w' where p: "parse_args ?me (map arg_text exchange_flags) ?w = (Inr (cfg, g), ?w)"
    and c: "c_GrantType cfg = GrantTokenExchange" "\<not> c_Logout cfg"
    and w': "run ?me (map arg_text exchange_flags) ?w = (0, w')" "std_out w' = ''new''"
    using exchange_run [of False] by blast
  from exchange_without_cache [OF p c script_env_disk] w'
  have "files w' = files ?w" by (simp add: disk_def)
  then show ?thesis using p c(2) w' by (simp add: with_config_def)
qed

text \<open>
  With \<^verbatim>\<open>--logout\<close> as well, the exchange goes ahead and the cached entry stays, although the flag's
  documentation says that the entry is cleared and nothing else is attempted.
\<close>

lemma exchange_ignores_logout:
  "\<exists>cfg g w'. parse_args (script_env (logout_env True)) (map arg_text exchange_flags)
       (with_config ''entry'') = (Inr (cfg, g), with_config ''entry'') \<and> c_Logout cfg \<and>
     run (script_env (logout_env True)) (map arg_text exchange_flags) (with_config ''entry'') = (0, w') \<and>
     std_out w' = ''new'' \<and> files w' ''c'' = Some \<lparr>content = ''entry'', mode = 0x180\<rparr>"
proof -
  let ?me = "script_env (logout_env True)" and ?w = "with_config ''entry''"
  obtain cfg g w' where p: "parse_args ?me (map arg_text exchange_flags) ?w = (Inr (cfg, g), ?w)"
    and c: "c_GrantType cfg = GrantTokenExchange" "c_Logout cfg"
    and w': "run ?me (map arg_text exchange_flags) ?w = (0, w')" "std_out w' = ''new''"
    using exchange_run [of True] by blast
  from run_exchange_only(1) [OF p c(1) script_env_disk] w'
  have "files w' = files ?w" by (simp add: disk_def)
  then show ?thesis using p c(2) w' by (simp add: with_config_def)
qed

end
