(* ===== verification/SourceProps.thy ===== *)
theory SourceProps
  imports FlowProps OidcProps MainProps
begin

text \<open>
  The token source of authflow over the provider of internal/oidc. What authflow relies on is a locale
  of the provider interface; its lemmas lift a promise of the four grants to the operations of the
  source, and its interpretation on the provider shows what the real source promises: its id_tokens
  are verified, and it writes nothing to standard output.
\<close>

section \<open>The contract of the provider interface\<close>

locale grant_contract =
  fixes ops :: "('p, 'w) grant_source"
    and identity :: "'p \<Rightarrow> 'i"
    and good :: "'i \<Rightarrow> result \<Rightarrow> bool"
  assumes identity_SetAudience: "identity (SetAudience ops a p) = identity p"
    and identity_SetClientAuth: "identity (SetClientAuth ops ca p) = identity p"
    and good_DeviceLogin: "gs_DeviceLogin ops p sc pr ex w = (Inr res, w') \<Longrightarrow> good (identity p) res"
    and good_AuthCodeLogin: "gs_AuthCodeLogin ops p sc port br pr h ex w = (Inr res, w') \<Longrightarrow> good (identity p) res"
    and good_Refresh: "gs_Refresh ops p sc t w = (Inr res, w') \<Longrightarrow> good (identity p) res"
    and good_TokenExchange: "gs_TokenExchange ops p sc st stt rtt rs ex w = (Inr res, w') \<Longrightarrow> good (identity p) res"
begin

lemma attempt_good:
  assumes "s_ops s = ops" "attempt s p g w = (Inr res, w')"
  shows "good (identity p) res"
  using assms(2) unfolding attempt_def assms(1) by (auto split: if_splits dest: good_DeviceLogin good_AuthCodeLogin)

lemma attempts_good:
  assumes "s_ops s = ops" "order \<noteq> []" "attempts s p order w = (Inr res, w')"
  shows "good (identity p) res"
  using assms(2,3)
proof (induction order arbitrary: w)
  case (Cons g order)
  show ?case
  proof (cases "attempt s p g w")
    case (Pair x w1)
    then show ?thesis using Cons attempt_good [OF assms(1), of p g w]
      by (cases x) (auto split: if_splits)
  qed
qed simp

lemma Login_good:
  assumes "s_ops s = ops" "Login s w = (Inr res, w')"
  shows "\<exists>p w1. discover s w = (Inr p, w1) \<and> good (identity p) res"
  using assms(2) by (cases rule: Login_cases) (use attempts_good [OF assms(1)] in blast)+

lemma Refresh_good:
  assumes "s_ops s = ops" "Source_Refresh s t w = (Inr res, w')"
  shows "\<exists>p w1. discover s w = (Inr p, w1) \<and> good (identity p) res"
  using assms(2) unfolding Source_Refresh_def assms(1)
  by (auto split: prod.splits sum.splits dest: good_Refresh)

lemma TokenExchange_good:
  assumes "s_ops s = ops" "Source_TokenExchange s st stt rtt rs w = (Inr res, w')"
  shows "\<exists>p w1. discover s w = (Inr p, w1) \<and> good (identity p) res"
  using assms(2) unfolding Source_TokenExchange_def assms(1)
  by (auto split: prod.splits sum.splits dest: good_TokenExchange)

text \<open>What is discovered has the identity the discovery function gave it, or the stored one.\<close>

lemma discover_identity:
  assumes "s_ops s = ops" "discover s w = (Inr p, w1)"
  shows "s_provider s w = Some p \<or>
    (\<exists>p0 w0. s_discover s (s_Issuer s) (s_ClientID s) w = (Inr p0, w0) \<and> identity p = identity p0)"
  using assms(2) unfolding discover_def Let_def assms(1)
  by (auto simp: identity_SetAudience identity_SetClientAuth
      split: option.splits prod.splits sum.splits)

end

section \<open>The provider keeps it\<close>

text \<open>An id_token in a result was verified against the issuer's keys, for the client.\<close>

definition provider_identity :: "provider \<Rightarrow> upstream \<times> string" where
  "provider_identity p = (p_upstream p, p_ClientID p)"

definition verified :: "'w net \<Rightarrow> upstream \<times> string \<Rightarrow> result \<Rightarrow> bool" where
  "verified nt i res \<longleftrightarrow> (r_IDToken res \<noteq> [] \<longrightarrow>
     (\<exists>n v v'. nt_Verify nt (fst i) (snd i) (r_IDToken res) v = (Inr n, v')) \<and> r_IDTokenError res = None)"

lemma toResult_verified:
  assumes "toResult nt p tok nonce w = (Inr res, w')"
  shows "verified nt (provider_identity p) res"
proof -
  have "r_IDToken res \<noteq> [] \<longrightarrow> r_IDTokenError res = None"
    using assms unfolding toResult_def by (auto split: option.splits if_splits prod.splits sum.splits)
  then show ?thesis
    using toResult_IDToken [OF assms] by (auto simp: verified_def provider_identity_def)
qed

lemma DeviceLogin_toResult:
  assumes "DeviceLogin nt p sc pr ex w = (Inr res, w')"
  obtains tok v where "toResult nt p tok [] v = (Inr res, w')"
  using assms unfolding DeviceLogin_def poll_device_def Let_def
  by (auto split: if_splits prod.splits sum.splits option.splits)

lemma Refresh_toResult:
  assumes "Provider_Refresh nt p sc t w = (Inr res, w')"
  obtains tok v where "toResult nt p tok [] v = (Inr res, w')"
  using assms unfolding Provider_Refresh_def refreshWithAssertion_def Let_def
  by (auto split: if_splits prod.splits sum.splits)

lemma TokenExchange_toResult:
  assumes "Provider_TokenExchange nt p sc st stt rtt rs ex w = (Inr res, w')"
  obtains tok v where "toResult nt p tok [] v = (Inr res, w')"
  using assms unfolding Provider_TokenExchange_def by (auto split: prod.splits sum.splits)

interpretation oidc: grant_contract "provider_ops nt" provider_identity "verified nt" for nt :: "'w net"
proof (unfold_locales, goal_cases)
  case (1 a p)
  then show ?case by (simp add: provider_ops_def Provider_SetAudience_def provider_identity_def)
next
  case (2 ca p)
  then show ?case by (simp add: provider_ops_def Provider_SetClientAuth_def provider_identity_def)
next
  case (3 p sc pr ex w res w')
  then show ?case by (auto simp: provider_ops_def elim!: DeviceLogin_toResult intro: toResult_verified)
next
  case (4 p sc port br pr h ex w res w')
  then have "AuthCodeLogin nt p sc port br pr h ex w = (Inr res, w')" by (simp add: provider_ops_def)
  then show ?case by (rule AuthCodeLoginE) (erule exchange_codeE, erule toResult_verified)
next
  case (5 p sc t w res w')
  then show ?case by (auto simp: provider_ops_def elim!: Refresh_toResult intro: toResult_verified)
next
  case (6 p sc st stt rtt rs ex w res w')
  then show ?case by (auto simp: provider_ops_def elim!: TokenExchange_toResult intro: toResult_verified)
qed

section \<open>The real source\<close>

text \<open>
  A provider found for a configuration: discovered at its issuer, for its client. The slot of the
  world is empty when the process starts, or holds such a provider.
\<close>

definition found_for :: "'n slot_world net \<Rightarrow> config \<Rightarrow> upstream \<times> string \<Rightarrow> bool" where
  "found_for nt cfg i \<longleftrightarrow> (\<exists>u u'. nt_NewProvider nt (c_Issuer cfg) u = (Inr (fst i), u')) \<and> snd i = c_ClientID cfg"

definition slot_ok :: "'n slot_world net \<Rightarrow> config \<Rightarrow> 'n slot_world \<Rightarrow> bool" where
  "slot_ok nt cfg w \<longleftrightarrow> (\<forall>p. fst (outside w) = Some p \<longrightarrow> found_for nt cfg (provider_identity p))"

lemma Discover_found:
  "Discover nt (c_Issuer cfg) (c_ClientID cfg) w = (Inr p, w') \<Longrightarrow> found_for nt cfg (provider_identity p)"
  by (auto simp: Discover_def found_for_def provider_identity_def split: option.splits prod.splits sum.splits) blast

text \<open>Both real sources: what they discover, and so what they return, is for the configuration.\<close>

definition real_source :: "'n slot_world net \<Rightarrow> config \<Rightarrow> (provider, 'n slot_world) source \<Rightarrow> bool" where
  "real_source nt cfg s \<longleftrightarrow> (\<exists>env op. s = newRealSource nt env op cfg) \<or> s = newRealTokenExchangeSource nt cfg"

lemma real_source_simps:
  assumes "real_source nt cfg s"
  shows "s_ops s = provider_ops nt" "s_discover s = Discover nt" "s_Issuer s = c_Issuer cfg"
    "s_ClientID s = c_ClientID cfg" "s_provider s w = fst (outside w)"
  using assms by (auto simp: real_source_def newRealSource_def source_over_def newRealTokenExchangeSource_def)

lemma real_discover:
  assumes "real_source nt cfg s" "slot_ok nt cfg w" "discover s w = (Inr p, w1)"
  shows "found_for nt cfg (provider_identity p)"
  using oidc.discover_identity [OF real_source_simps(1) [OF assms(1)] assms(3)] assms(2)
  by (auto simp: real_source_simps [OF assms(1)] slot_ok_def dest: Discover_found)

text \<open>
  C8: Whatever operation of the real source hands out a result, login, refresh or token exchange: an
  id_token in it was verified with the keys of an issuer discovered at the configured URL, for the
  configured client, and no verification error is recorded beside it.
\<close>

theorem real_source_verified:
  assumes "real_source nt cfg s" "slot_ok nt cfg w"
    and "Login s w = (Inr res, w') \<or> Source_Refresh s t w = (Inr res, w') \<or>
      Source_TokenExchange s st stt rtt rs w = (Inr res, w')"
    and "r_IDToken res \<noteq> []"
  shows "\<exists>up u u' n v v'. nt_NewProvider nt (c_Issuer cfg) u = (Inr up, u') \<and>
    nt_Verify nt up (c_ClientID cfg) (r_IDToken res) v = (Inr n, v') \<and> r_IDTokenError res = None"
proof -
  note ops = real_source_simps(1) [OF assms(1)]
  obtain p w1 where p: "discover s w = (Inr p, w1)" "verified nt (provider_identity p) res"
    using assms(3) oidc.Login_good [OF ops] oidc.Refresh_good [OF ops] oidc.TokenExchange_good [OF ops] by metis
  have "found_for nt cfg (provider_identity p)" by (rule real_discover [OF assms(1,2) p(1)])
  then show ?thesis using p(2) assms(4) unfolding found_for_def verified_def by metis
qed

section \<open>What the real source leaves alone\<close>

text \<open>The libraries and the network keep a part of the world: each operation of the record does.\<close>

definition net_keeps :: "('w \<Rightarrow> 'b) \<Rightarrow> 'w net \<Rightarrow> bool" where
  "net_keeps f nt \<longleftrightarrow> (\<forall>rq. keeps f (nt_http nt rq)) \<and> (\<forall>n. keeps f (nt_rand nt n)) \<and> (\<forall>i. keeps f (nt_NewProvider nt i)) \<and>
     (\<forall>up c raw. keeps f (nt_Verify nt up c raw)) \<and> (\<forall>cfg t. keeps f (nt_Token nt cfg t)) \<and>
     keeps f (nt_GenerateVerifier nt) \<and> (\<forall>cfg c os. keeps f (nt_Exchange nt cfg c os)) \<and>
     (\<forall>cfg os. keeps f (nt_DeviceAuth nt cfg os)) \<and> (\<forall>cfg t da os. keeps f (nt_DeviceAccessToken nt cfg t da os)) \<and>
     (\<forall>port. keeps f (nt_Listen nt port)) \<and> (\<forall>w. f (nt_Close nt w) = f w) \<and> (\<forall>t port. keeps f (nt_wait nt t port))"

lemma net_keepsD:
  assumes "net_keeps f nt"
  shows "keeps f (nt_http nt rq)" "keeps f (nt_rand nt n)" "keeps f (nt_NewProvider nt i)" "keeps f (nt_Verify nt up c raw)"
    "keeps f (nt_Token nt cfg t)" "keeps f (nt_GenerateVerifier nt)" "keeps f (nt_Exchange nt cfg code os)"
    "keeps f (nt_DeviceAuth nt cfg os)" "keeps f (nt_DeviceAccessToken nt cfg timeout da os)" "keeps f (nt_Listen nt port)"
    "f (nt_Close nt w) = f w" "keeps f (nt_wait nt timeout bound)"
  using assms by (simp_all add: net_keeps_def)

lemma keeps_toResult:
  assumes "net_keeps f nt"
  shows "keeps f (toResult nt p tok nonce)"
  by (rule keepsI) (auto simp: toResult_def split: option.splits if_splits prod.splits sum.splits
      dest!: net_keepsD(4) [OF assms, THEN keepsD])

lemma keeps_randomState:
  assumes "net_keeps f nt"
  shows "keeps f (randomState nt)"
  by (rule keepsI) (auto simp: randomState_def split: prod.splits sum.splits dest!: net_keepsD(2) [OF assms, THEN keepsD])

lemma keeps_signClientAssertion:
  assumes "net_keeps f nt"
  shows "keeps f (signClientAssertion nt p lifetime)"
  by (rule keepsI) (auto simp: signClientAssertion_def Let_def split: option.splits prod.splits sum.splits
      dest!: keeps_randomState [OF assms, THEN keepsD])

lemma keeps_clientAssertionOptions:
  assumes "net_keeps f nt"
  shows "keeps f (clientAssertionOptions nt p lifetime)"
  by (rule keepsI) (auto simp: clientAssertionOptions_def split: if_splits prod.splits sum.splits
      dest!: keeps_signClientAssertion [OF assms, THEN keepsD])

lemma keeps_authenticate:
  assumes "net_keeps f nt"
  shows "keeps f (authenticate nt p v)"
  by (rule keepsI) (auto simp: authenticate_def Let_def split: if_splits prod.splits sum.splits
      dest!: keeps_signClientAssertion [OF assms, THEN keepsD])

lemma keeps_postTokenRequest:
  assumes "net_keeps f nt"
  shows "keeps f (postTokenRequest nt p url v)"
  by (rule keepsI) (auto simp: postTokenRequest_def split: prod.splits sum.splits
      dest!: keeps_authenticate [OF assms, THEN keepsD] net_keepsD(1) [OF assms, THEN keepsD])

lemma keeps_Provider_Refresh:
  assumes "net_keeps f nt"
  shows "keeps f (Provider_Refresh nt p sc t)"
  by (rule keepsI) (auto simp: Provider_Refresh_def refreshWithAssertion_def Let_def split: if_splits prod.splits sum.splits
      dest!: keeps_postTokenRequest [OF assms, THEN keepsD] net_keepsD(5) [OF assms, THEN keepsD]
        keeps_toResult [OF assms, THEN keepsD])

lemma keeps_Provider_TokenExchange:
  assumes "net_keeps f nt"
  shows "keeps f (Provider_TokenExchange nt p sc st stt rtt rs ex)"
  by (rule keepsI) (auto simp: Provider_TokenExchange_def split: prod.splits sum.splits
      dest!: keeps_postTokenRequest [OF assms, THEN keepsD] keeps_toResult [OF assms, THEN keepsD])

definition prompt_keeps :: "('w \<Rightarrow> 'b) \<Rightarrow> 'w prompt \<Rightarrow> bool" where
  "prompt_keeps f pr \<longleftrightarrow> (\<forall>out l w. pr = Some out \<longrightarrow> f (out l w) = f w)"

definition opener_keeps :: "('w \<Rightarrow> 'b) \<Rightarrow> 'w opener option \<Rightarrow> bool" where
  "opener_keeps f br \<longleftrightarrow> (\<forall>op u. br = Some op \<longrightarrow> keeps f (op u))"

lemma prompt_keepsD: "prompt_keeps f pr \<Longrightarrow> pr = Some out \<Longrightarrow> f (out l w) = f w"
  by (simp add: prompt_keeps_def)

lemma opener_keepsD: "opener_keeps f br \<Longrightarrow> br = Some op \<Longrightarrow> op u w = (x, w') \<Longrightarrow> f w' = f w"
  by (auto simp: opener_keeps_def dest: keepsD)

lemma keeps_DeviceLogin:
  assumes "net_keeps f nt" "prompt_keeps f pr"
  shows "keeps f (DeviceLogin nt p sc pr ex)"
proof -
  have "keeps f (poll_device nt p cfg pr ex da)" for cfg da
    by (rule keepsI) (auto simp: poll_device_def Let_def prompt_keepsD [OF assms(2)] split: option.splits prod.splits sum.splits
        dest!: keeps_clientAssertionOptions [OF assms(1), THEN keepsD] net_keepsD(9) [OF assms(1), THEN keepsD]
          keeps_toResult [OF assms(1), THEN keepsD])
  from this [THEN keepsD] show ?thesis
    by (intro keepsI) (auto simp: DeviceLogin_def Let_def split: if_splits prod.splits sum.splits
        dest!: net_keepsD(8) [OF assms(1), THEN keepsD])
qed

lemma keeps_open_url:
  assumes "prompt_keeps f pr" "opener_keeps f br"
  shows "f (open_url br pr u w) = f w"
proof (cases br)
  case (Some op)
  then show ?thesis
    by (cases "op u w") (auto simp: open_url_def prompt_keepsD [OF assms(1)] opener_keepsD [OF assms(2) Some] split: option.split)
qed (simp add: open_url_def)

lemma keeps_authorize:
  assumes "net_keeps f nt" "prompt_keeps f pr" "prompt_keeps f h" "opener_keeps f br"
  shows "keeps f (authorize nt p cfg port ver st nonce br pr h)"
proof -
  have "f (show_hint h u w) = f w" for u w
    by (auto simp: show_hint_def prompt_keepsD [OF assms(3)] split: option.splits)
  then show ?thesis
    by (intro keepsI) (auto simp: authorize_def awaitCallback_def Let_def keeps_open_url [OF assms(2,4)]
        split: prod.splits option.splits dest!: net_keepsD(12) [OF assms(1), THEN keepsD])
qed

lemma keeps_exchange_code:
  assumes "net_keeps f nt"
  shows "keeps f (exchange_code nt p cfg ver nonce ex code)"
  by (rule keepsI) (auto simp: exchange_code_def split: prod.splits sum.splits
      dest!: keeps_clientAssertionOptions [OF assms, THEN keepsD] net_keepsD(7) [OF assms, THEN keepsD]
        keeps_toResult [OF assms, THEN keepsD])

lemma keeps_AuthCodeLogin:
  assumes "net_keeps f nt" "prompt_keeps f pr" "prompt_keeps f h" "opener_keeps f br"
  shows "keeps f (AuthCodeLogin nt p sc port br pr h ex)"
  by (rule keepsI) (auto simp: AuthCodeLogin_def Let_def net_keepsD(11) [OF assms(1)]
      split: if_splits prod.splits sum.splits option.splits
      dest!: net_keepsD(6,10) [OF assms(1), THEN keepsD] keeps_randomState [OF assms(1), THEN keepsD]
        keeps_authorize [OF assms, THEN keepsD] keeps_exchange_code [OF assms(1), THEN keepsD])

lemma keeps_Discover:
  assumes "net_keeps f nt"
  shows "keeps f (Discover nt issuer clientID)"
  by (rule keepsI) (auto simp: Discover_def split: option.splits prod.splits sum.splits
      dest!: net_keepsD(3) [OF assms, THEN keepsD])

text \<open>A source over the provider whose slot, prompt and opener keep it too.\<close>

definition source_keeps :: "('w \<Rightarrow> 'b) \<Rightarrow> 'w net \<Rightarrow> (provider, 'w) source \<Rightarrow> bool" where
  "source_keeps f nt s \<longleftrightarrow> net_keeps f nt \<and> s_ops s = provider_ops nt \<and> s_discover s = Discover nt \<and>
     (\<forall>p w. f (s_store s p w) = f w) \<and> prompt_keeps f (s_Prompt s) \<and> opener_keeps f (s_OpenBrowser s)"

lemma source_keepsD:
  assumes "source_keeps f nt s"
  shows "net_keeps f nt" "s_ops s = provider_ops nt" "s_discover s = Discover nt" "f (s_store s p w) = f w"
    "prompt_keeps f (s_Prompt s)" "opener_keeps f (s_OpenBrowser s)" "prompt_keeps f (hintWriter s)"
  using assms by (auto simp: source_keeps_def hintWriter_def prompt_keeps_def)

lemma keeps_discover:
  assumes "source_keeps f nt s"
  shows "keeps f (discover s)"
  by (rule keepsI) (auto simp: discover_def Let_def source_keepsD(3,4) [OF assms] split: option.splits prod.splits sum.splits
      dest!: keeps_Discover [OF source_keepsD(1) [OF assms], THEN keepsD])

lemma keeps_Source_Refresh:
  assumes "source_keeps f nt s"
  shows "keeps f (Source_Refresh s t)"
  by (rule keepsI) (auto simp: Source_Refresh_def source_keepsD(2) [OF assms] provider_ops_def split: prod.splits sum.splits
      dest!: keeps_discover [OF assms, THEN keepsD] keeps_Provider_Refresh [OF source_keepsD(1) [OF assms], THEN keepsD])

lemma keeps_Source_TokenExchange:
  assumes "source_keeps f nt s"
  shows "keeps f (Source_TokenExchange s st stt rtt rs)"
  by (rule keepsI) (auto simp: Source_TokenExchange_def source_keepsD(2) [OF assms] provider_ops_def split: prod.splits sum.splits
      dest!: keeps_discover [OF assms, THEN keepsD] keeps_Provider_TokenExchange [OF source_keepsD(1) [OF assms], THEN keepsD])

lemma keeps_attempt:
  assumes "source_keeps f nt s"
  shows "keeps f (attempt s p g)"
  using keeps_DeviceLogin [OF source_keepsD(1,5) [OF assms]] keeps_AuthCodeLogin [OF source_keepsD(1,5,7,6) [OF assms]]
  by (simp add: keeps_def attempt_def source_keepsD(2) [OF assms] provider_ops_def)

lemma keeps_attempts:
  assumes "source_keeps f nt s"
  shows "keeps f (attempts s p order)"
proof (induction order)
  case (Cons g order)
  have "f (warn_fallback s g err w) = f w" for err w
    by (auto simp: warn_fallback_def prompt_keepsD [OF source_keepsD(5) [OF assms]] split: option.split)
  then show ?case
    by (intro keepsI) (auto split: prod.splits sum.splits if_splits dest!: keeps_attempt [OF assms, THEN keepsD] Cons [THEN keepsD])
qed (simp add: keeps_def)

lemma keeps_Login:
  assumes "source_keeps f nt s"
  shows "keeps f (Login s)"
  by (rule keepsI) (auto simp: Login_def split: prod.splits sum.splits
      dest!: keeps_discover [OF assms, THEN keepsD] keeps_attempts [OF assms, THEN keepsD])

section \<open>The real program\<close>

definition real_env :: "'n slot_world net \<Rightarrow> environment \<Rightarrow> 'n slot_world opener \<Rightarrow> (provider option \<times> 'n) main_env \<Rightarrow>
    (provider option \<times> 'n) main_env" where
  "real_env nt env op me = me\<lparr>me_newSource := (\<lambda>cfg. token_source_of (newRealSource nt env op cfg)),
     me_exchange := (\<lambda>cfg. Source_TokenExchange (newRealTokenExchangeSource nt cfg))\<rparr>"

text \<open>So the contract of the command holds for the program with its real sources.\<close>

theorem quiet_real_env:
  assumes "net_keeps std_out nt" "\<And>rq. quiet (me_http me rq)" "\<And>u. quiet (op u)"
  shows "quiet_env (real_env nt env op me)"
proof -
  have "source_keeps std_out nt (newRealSource nt env op cfg)" "source_keeps std_out nt (newRealTokenExchangeSource nt cfg)" for cfg
    using assms(1,3) by (simp_all add: source_keeps_def newRealSource_def source_over_def newRealTokenExchangeSource_def prompt_keeps_def opener_keeps_def)
  note this [THEN keeps_Login] this [THEN keeps_Source_Refresh] this [THEN keeps_Source_TokenExchange]
  then show ?thesis
    using assms(2) by (simp add: quiet_env_def real_env_def quiet_source_def token_source_of_def)
qed

section \<open>Example\<close>

definition slot_net :: "unit slot_world net" where
  "slot_net = \<lparr>nt_http = (\<lambda>_ w. (Inl (External []), w)), nt_now = (\<lambda>_. Time 1000 0),
     nt_rand = (\<lambda>n w. (Inr (replicate n (char_of n)), w)),
     nt_NewProvider = (\<lambda>_ w. (Inr \<lparr>up_Endpoint = demo_endpoint, up_rawClaims = ''{}''\<rparr>, w)),
     nt_Verify = (\<lambda>_ _ _ w. (Inr [], w)), nt_NewSigner = (\<lambda>_ _ _. None), nt_Serialize = (\<lambda>_ _ _ _. Inr ''jws''),
     nt_Token = (\<lambda>_ _ w. (Inr demo_token, w)), nt_GenerateVerifier = (\<lambda>w. (''verifier'', w)),
     nt_S256Challenge = (\<lambda>v. v), nt_AuthCodeURL = (\<lambda>_ s _. s), nt_Exchange = (\<lambda>_ _ _ w. (Inr demo_token, w)),
     nt_DeviceAuth = (\<lambda>_ _ w. (Inl (External []), w)), nt_DeviceAccessToken = (\<lambda>_ _ _ _ w. (Inr demo_token, w)),
     nt_hasDeadline = False, nt_Listen = (\<lambda>_ w. (Inr (Some 4711), w)), nt_Close = (\<lambda>w. w), nt_wait = (\<lambda>_ _ w. ([], w))\<rparr>"

definition slot_config :: config where
  "slot_config = new_config\<lparr>c_Issuer := ''https://i'', c_ClientID := ''cli''\<rparr>"

definition slot_source :: "(provider, unit slot_world) source" where
  "slot_source = newRealSource slot_net \<lparr>env_TTY = True, env_Display = True\<rparr> (\<lambda>_ w. (None, w)) slot_config"

lemma slot_refresh:
  "\<exists>res w'. Source_Refresh slot_source ''rt'' (blank (None, ())) = (Inr res, w') \<and> r_IDToken res = ''jwt'' \<and>
     r_AccessToken res = ''at''"
proof -
  have "validateIssuerURL ''https://i'' = None" "Unmarshal_discoveryClaims ''{}'' = Some no_claims" by code_simp+
  then show ?thesis
    by (simp add: Source_Refresh_def discover_def slot_source_def newRealSource_def source_over_def slot_config_def blank_def Discover_def
        slot_net_def Let_def provider_ops_def Provider_SetAudience_def Provider_SetClientAuth_def Provider_Refresh_def
        config_client_auth_def new_config_def toResult_def json_string_def demo_token_def)
qed

lemma real_source_verified_witness:
  "\<exists>res w' up u u' n v v'. Source_Refresh slot_source ''rt'' (blank (None, ())) = (Inr res, w') \<and> r_IDToken res = ''jwt'' \<and>
     nt_NewProvider slot_net ''https://i'' u = (Inr up, u') \<and> nt_Verify slot_net up ''cli'' ''jwt'' v = (Inr n, v') \<and>
     r_IDTokenError res = None"
proof -
  obtain res w' where r: "Source_Refresh slot_source ''rt'' (blank (None, ())) = (Inr res, w')" "r_IDToken res = ''jwt''"
    using slot_refresh by blast
  have "real_source slot_net slot_config slot_source" "slot_ok slot_net slot_config (blank (None, ()))"
    by (auto simp: real_source_def slot_source_def slot_ok_def blank_def)
  from real_source_verified [OF this disjI2 [OF disjI1 [OF r(1)]]] r show ?thesis
    by (simp add: slot_config_def)
qed

end
