(* ===== verification/CacheProps.thy ===== *)
theory CacheProps
  imports CacheSafety Chain
begin

text \<open>
  The properties of internal/cache: the file backend, the keychain backend and the chain of the
  two, each with an example run.
\<close>

section \<open>An example entry\<close>

definition sample :: entry where
  "sample = \<lparr>e_Issuer = ''https://issuer'', e_ClientID = ''cli'', e_AccessToken = ''at'',
     e_IDToken = ''it'', e_RefreshToken = ''rt'', e_Expiry = Time (86400 * second) 0\<rparr>"

lemma sample_marshalable: "marshalable (Time (86400 * second) 0)"
  by code_simp

lemma sample_storable: "storable sample"
  unfolding storable_def sample_def using sample_marshalable
  by (simp add: ascii_utf8_valid)

lemma honest_fair: "honest fair_os" "honest full_os"
  by (auto simp: honest_def fair_os_def full_os_def)

lemma sample_bytes: "\<exists>b. Marshal_Entry sample = Inr b"
  by (rule storable_marshals [OF sample_storable])

text \<open>On the machine where nothing fails every operation succeeds.\<close>

lemma fair_ensureDir:
  assumes "files w dir = None" "history w = hs"
  shows "\<exists>w1. ensureDir fair_os dir w = (None, w1) \<and> files w1 = files w \<and> tick w1 = tick w + 2"
  using assms
  by (auto simp: ensureDir_def try_sys_def sys_defs fair_os_def advance_def split: option.splits)

lemma fair_save:
  assumes "files w = Map.empty" "Marshal_Entry e = Inr b"
  shows "fst (Cache_Save fair_os dir e w) = None"
proof -
  have d: "files w dir = None" using assms(1) by simp
  obtain w1 where w1: "ensureDir fair_os dir w = (None, w1)" "files w1 = Map.empty"
    using fair_ensureDir [OF d refl] assms(1) by auto
  have "tmp_path fair_os dir (tick w1) \<noteq> path dir (e_Issuer e) (e_ClientID e)"
    by (simp add: path_key tmp_path_not_key)
  then show ?thesis
    using w1 assms(2)
    by (simp add: Cache_Save_def try_sys_def Let_def fill_and_rename_def sys_defs advance_def
        append_bytes_def fair_os_def)
qed

lemma fair_load:
  "\<exists>r w'. Cache_Load fair_os dir i c w = (Inr r, w')"
  by (cases "files w (path dir i c)")
     (auto simp: Cache_Load_def ReadFile_def sys_def fair_os_def)

lemma fair_delete: "fst (Cache_Delete fair_os dir i c w) = None"
  by (cases "files w (path dir i c)")
     (auto simp: Cache_Delete_def Remove_def sys_def fair_os_def)

section \<open>The file backend\<close>

text \<open>
  C10: what was saved is what is loaded: a \<^verbatim>\<open>Load\<close> after a \<^verbatim>\<open>Save\<close> that succeeded either
  fails or returns exactly the saved entry, expiry and zone included.
\<close>

theorem cache_save_load:
  assumes "honest os" "storable e" "Cache_Save os dir e w = (None, w1)"
    "Cache_Load os dir (e_Issuer e) (e_ClientID e) w1 = (Inr r, w2)"
  shows "r = Some e"
  by (rule fstore.load_after_save [where os = os, unfolded strict_honest [OF assms(1)], OF assms(2-4)])

theorem cache_save_load_witness:
  "fst (Cache_Load fair_os ''/cache'' ''https://issuer'' ''cli''
     (snd (Cache_Save fair_os ''/cache'' sample (blank ())))) = Inr (Some sample)"
proof -
  let ?s = "Cache_Save fair_os ''/cache'' sample (blank ())"
  obtain b where "Marshal_Entry sample = Inr b" using sample_bytes by blast
  then have "?s = (None, snd ?s)"
    using fair_save [of "blank ()" sample b] by (simp add: blank_def prod_eq_iff)
  moreover obtain r w2 where l: "Cache_Load fair_os ''/cache'' (e_Issuer sample) (e_ClientID sample) (snd ?s) = (Inr r, w2)"
    using fair_load by blast
  ultimately have "r = Some sample"
    by (rule cache_save_load [OF honest_fair(1) sample_storable])
  with l show ?thesis by (simp add: sample_def)
qed

text \<open>On the machine with a full disk no \<^verbatim>\<open>Save\<close> succeeds.\<close>

lemma full_save:
  assumes "files w = Map.empty" "Marshal_Entry e = Inr b"
  shows "\<exists>err. fst (Cache_Save full_os dir e w) = Some err"
  using assms
  by (auto simp: Cache_Save_def ensureDir_def try_sys_def Let_def fill_and_rename_def sys_defs advance_def
      append_bytes_def full_os_def fair_os_def split: option.splits)

lemma full_load: "\<exists>r w'. Cache_Load full_os dir i c w = (Inr r, w')"
  by (cases "files w (path dir i c)")
     (auto simp: Cache_Load_def ReadFile_def sys_def full_os_def fair_os_def)

text \<open>
  A \<^verbatim>\<open>Save\<close> that fails, at whichever system call, changes no entry: every profile loads
  as it did before.
\<close>

theorem cache_failed_save:
  assumes "honest os" "Cache_Load os dir i c w = (Inr r, v)"
    "Cache_Save os dir e w = (Some err, w1)" "Cache_Load os dir i c w1 = (Inr r', w2)"
  shows "r' = r"
  using fstore.load_after_failed_save [where os = os, unfolded strict_honest [OF assms(1)], OF assms(3,4)]
    Cache_Load_view [OF assms(1,2)] by simp

theorem cache_failed_save_witness:
  "fst (Cache_Save full_os ''/cache'' sample (blank ())) \<noteq> None \<and>
   fst (Cache_Load full_os ''/cache'' ''https://issuer'' ''cli''
     (snd (Cache_Save full_os ''/cache'' sample (blank ())))) = Inr None"
proof -
  let ?s = "Cache_Save full_os ''/cache'' sample (blank ())"
  obtain b where "Marshal_Entry sample = Inr b" using sample_bytes by blast
  then obtain err where s: "?s = (Some err, snd ?s)"
    using full_save [of "blank ()" sample b "''/cache''"] by (auto simp: blank_def prod_eq_iff)
  obtain v where l: "Cache_Load full_os ''/cache'' ''https://issuer'' ''cli'' (blank ()) = (Inr None, v)"
    by (simp add: Cache_Load_def ReadFile_def sys_def full_os_def fair_os_def blank_def)
  obtain r w2 where l2: "Cache_Load full_os ''/cache'' ''https://issuer'' ''cli'' (snd ?s) = (Inr r, w2)"
    using full_load by blast
  have "r = None" by (rule cache_failed_save [OF honest_fair(2) l s l2])
  with l2 s show ?thesis by (metis fst_conv option.distinct(1))
qed

text \<open>
  C1: crash safety: whatever fails and wherever the process dies during a \<^verbatim>\<open>Save\<close>, each token
  file of the directory is untouched or, for the saved profile only, holds the complete new entry.
\<close>

theorem cache_save_crash_safe:
  assumes "Cache_Save os dir e w = (r, w')" "Marshal_Entry e = Inr b"
  shows "\<exists>hs. history w' = hs @ history w \<and>
    (\<forall>f \<in> set hs. \<forall>k. map_option content (f (key_file dir k)) = contents w (key_file dir k) \<or>
       key_file dir k = path dir (e_Issuer e) (e_ClientID e) \<and>
       map_option content (f (key_file dir k)) = Some b)"
  using Cache_Save_trail [OF assms] by (simp add: trail_def intact_def)

theorem cache_save_crash_safe_witness:
  "\<exists>b hs. Marshal_Entry sample = Inr b \<and>
     history (snd (Cache_Save full_os ''/cache'' sample (blank ()))) = hs @ history (blank ()) \<and>
     (\<forall>f \<in> set hs. \<forall>k. f (key_file ''/cache'' k) = None \<or>
        map_option content (f (key_file ''/cache'' k)) = Some b)"
proof -
  obtain b where b: "Marshal_Entry sample = Inr b" using sample_bytes by blast
  have n: "contents (blank ()) p = None" for p by (simp add: contents_def blank_def)
  show ?thesis
    using cache_save_crash_safe [OF prod.collapse [symmetric] b, of full_os "''/cache''" "blank ()"] b
    unfolding n by auto
qed

text \<open>
  C30: permissions: during a \<^verbatim>\<open>Save\<close> every file is one that was there before, untouched, or
  readable by its owner only; after a \<^verbatim>\<open>Save\<close> that succeeded the token file has mode 0600 and
  its directory mode 0700, whatever they had before.
\<close>

theorem cache_save_permissions:
  assumes "Cache_Save os dir e w = (r, w')" "files w dir = None"
  shows "(\<exists>hs. history w' = hs @ history w \<and>
      (\<forall>f \<in> set hs. \<forall>p x. f p = Some x \<longrightarrow> files w p = Some x \<or> mode x = mode_0600)) \<and>
    (r = None \<longrightarrow> dirs w' dir = Some mode_0700 \<and>
      (\<exists>x. files w' (path dir (e_Issuer e) (e_ClientID e)) = Some x \<and> mode x = mode_0600))"
  using Cache_Save_private [OF assms] by (simp add: trail_def private_fs_def)

theorem cache_save_permissions_witness:
  "dirs (snd (Cache_Save fair_os ''/cache'' sample (blank ()))) ''/cache'' = Some 448"
proof -
  let ?s = "Cache_Save fair_os ''/cache'' sample (blank ())"
  obtain b where "Marshal_Entry sample = Inr b" using sample_bytes by blast
  then have s: "?s = (None, snd ?s)"
    using fair_save [of "blank ()" sample b] by (simp add: blank_def prod_eq_iff)
  have "files (blank ()) ''/cache'' = None" by (simp add: blank_def)
  from cache_save_permissions [OF s this] show ?thesis by simp
qed

text \<open>
  Deletion and isolation: after saving and then deleting a profile, that profile loads as absent
  and every other profile loads as it did before the two operations.
\<close>

theorem cache_delete_isolated:
  assumes "honest os" "Cache_Load os dir i c w = (Inr r, v)"
    "Cache_Save os dir e w = (q, w1)" "Cache_Delete os dir (e_Issuer e) (e_ClientID e) w1 = (None, w2)"
    "Cache_Load os dir i c w2 = (Inr r', w3)"
  shows "r' = (if profileKey i c = profileKey (e_Issuer e) (e_ClientID e) then None else r)"
proof -
  note h = strict_honest [OF assms(1)]
  have "file_view dir w2 (profileKey i c) =
    (if profileKey i c = profileKey (e_Issuer e) (e_ClientID e) then None else file_view dir w (profileKey i c))"
    using fstore.save_other [where os = os, unfolded h, OF assms(3)]
      fstore.delete_ok [where os = os, unfolded h, OF assms(4)] by simp
  then show ?thesis using Cache_Load_view [OF assms(1,2)] Cache_Load_view [OF assms(1,5)] by simp
qed

theorem cache_delete_isolated_witness:
  "fst (Cache_Load fair_os ''/cache'' ''https://issuer'' ''cli''
     (snd (Cache_Delete fair_os ''/cache'' ''https://issuer'' ''cli''
       (snd (Cache_Save fair_os ''/cache'' sample (blank ())))))) = Inr None"
proof -
  let ?s = "Cache_Save fair_os ''/cache'' sample (blank ())"
  let ?d = "Cache_Delete fair_os ''/cache'' (e_Issuer sample) (e_ClientID sample) (snd ?s)"
  obtain r v where l: "Cache_Load fair_os ''/cache'' ''https://issuer'' ''cli'' (blank ()) = (Inr r, v)"
    using fair_load by blast
  have d: "?d = (None, snd ?d)" using fair_delete by (simp add: prod_eq_iff)
  obtain r' w3 where l': "Cache_Load fair_os ''/cache'' ''https://issuer'' ''cli'' (snd ?d) = (Inr r', w3)"
    using fair_load by blast
  have "r' = None"
    using cache_delete_isolated [OF honest_fair(1) l prod.collapse [symmetric] d l'] by (simp add: sample_def)
  with l' show ?thesis by (simp add: sample_def)
qed

section \<open>The lock\<close>

lemma ensureDir_locks: "ensureDir os dir w = (r, w') \<Longrightarrow> locks w' = locks w"
  by (auto simp: ensureDir_def try_sys_def sys_defs advance_def
      split: prod.splits sum.splits option.splits)

text \<open>
  C28: the closure given to \<^verbatim>\<open>WithLock\<close> runs once and with the profile's lock held, or not at
  all; it is not run when the lock was not obtained, and then the error is \<^verbatim>\<open>ErrLockTimeout\<close>
  or the failure to create the directory; the lock is released on every path.
\<close>

theorem cache_lock:
  assumes "Cache_WithLock os dir i c fn w = (y, w')" "\<And>v. locks (snd (fn v)) = locks v"
  shows "locks w' = locks w \<and>
    ((\<exists>err. y = Inl err \<and> contents w' = contents w \<and>
        (errors_Is ErrLockTimeout err \<or> (\<exists>v. ensureDir os dir w = (Some err, v)))) \<or>
     (\<exists>v v'. lockPath dir i c \<in> set (locks v) \<and> contents v = contents w \<and>
        os_flock os (tick v - 1) (lockPath dir i c) = (True, None) \<and>
        fn v = (y, v') \<and> contents w' = contents v'))"
proof -
  obtain r1 w1 where ed: "ensureDir os dir w = (r1, w1)" by (cases "ensureDir os dir w")
  let ?l = "lockPath dir i c"
  let ?v = "(advance w1)\<lparr>locks := ?l # locks (advance w1)\<rparr>"
  obtain y2 v2 where fn: "fn ?v = (y2, v2)" by (cases "fn ?v")
  have l1: "locks (advance w1) = locks w" "tick (advance w1) = Suc (tick w1)"
    using ensureDir_locks [OF ed] by (simp_all add: advance_def)
  have l2: "locks v2 = ?l # locks w" using assms(2) [of ?v] fn l1 by simp
  note c = contents_ensureDir [OF ed]
  show ?thesis
  proof (cases "r1 = None \<and> os_flock os (tick w1) ?l = (True, None)")
    case True
    then have "y = y2" "w' = v2\<lparr>locks := remove1 ?l (locks v2)\<rparr>"
      using assms(1) ed fn by (simp_all add: Cache_WithLock_def Let_def)
    moreover have "contents ?v = contents w" "?l \<in> set (locks ?v)" "tick ?v - 1 = tick w1"
      using c l1 by simp_all
    ultimately have "locks w' = locks w" "contents w' = contents v2" "fn ?v = (y, v2)"
      "contents ?v = contents w" "?l \<in> set (locks ?v)" "os_flock os (tick ?v - 1) ?l = (True, None)"
      using fn l2 True by simp_all
    then show ?thesis by blast
  next
    case False
    then show ?thesis using assms(1) ed c l1 ensureDir_locks [OF ed]
      by (auto simp: Cache_WithLock_def Let_def split: option.splits prod.splits bool.splits)
  qed
qed

theorem cache_lock_witness:
  "locks (snd (Cache_WithLock fair_os ''/cache'' ''https://issuer'' ''cli''
     (\<lambda>v. (Inr (length (locks v)), v)) (blank ()))) = []"
proof -
  let ?fn = "\<lambda>v :: unit world. (Inr (length (locks v)) :: error + nat, v)"
  have "locks (snd (?fn v)) = locks v" for v by simp
  from cache_lock [OF prod.collapse [symmetric] this, of fair_os "''/cache''" "''https://issuer''" "''cli''" "blank ()"]
  show ?thesis by (simp add: blank_def)
qed

end
