(* ===== verification/RunnerProps.thy ===== *)
theory RunnerProps
  imports RunnerStore CacheProps
begin

text \<open>
  The properties of the runner, most of them over the file cache. The example source is a server
  that answers every login with fixed tokens, and a refresh with their refresh token with others.
\<close>

section \<open>An example runner\<close>

definition fixed_source :: "result \<Rightarrow> result \<Rightarrow> 'w token_source" where
  "fixed_source refreshed logged_in =
     \<lparr>ts_Refresh = (\<lambda>t w. (if t = r_RefreshToken logged_in then Inr refreshed
        else Inl (RetrieveError ''invalid_grant'' [] []), w)),
      ts_Login = (\<lambda>w. (Inr logged_in, w))\<rparr>"

definition failing_source :: "'w token_source" where
  "failing_source = \<lparr>ts_Refresh = (\<lambda>t w. (Inl (RetrieveError ''invalid_grant'' [] []), w)),
     ts_Login = (\<lambda>w. (Inl (External ''no terminal''), w))\<rparr>"

definition tokens :: "string \<Rightarrow> string \<Rightarrow> result" where
  "tokens at rt = zero_result\<lparr>r_AccessToken := at, r_RefreshToken := rt, r_Expiry := Time (86400 * second) 0\<rparr>"

definition file_runner :: "unit world token_source \<Rightarrow> gotime \<Rightarrow> unit world runner" where
  "file_runner src now = \<lparr>rn_Cache = file_store fair_os ''/cache'', rn_Source = src,
     rn_Issuer = ''https://issuer'', rn_ClientID = ''cli'', rn_TokenType = TokenTypeAccessToken,
     rn_now = (\<lambda>_. now), rn_Stderr = Some log_line\<rparr>"

lemma tokens_storable: "utf8_valid i \<Longrightarrow> utf8_valid c \<Longrightarrow> utf8_valid at \<Longrightarrow> utf8_valid rt \<Longrightarrow>
    storable (result_entry i c (tokens at rt))"
  using sample_marshalable by (simp add: storable_def tokens_def zero_result_def)

text \<open>The file cache as the store of the locale's interpretation.\<close>

definition strict_ops :: "os \<Rightarrow> string \<Rightarrow> ('x world, 'r) store" where
  "strict_ops os dir = locked_store.ops (Cache_Load (strict os) dir) (Cache_Save (strict os) dir)
     (Cache_Delete (strict os) dir) (Cache_WithLock os dir)"

lemma frun_ops: "honest os \<Longrightarrow> file_store os dir = strict_ops os dir"
  unfolding strict_ops_def flock.ops_def by (simp add: strict_honest file_store_def)

lemmas file_Run_again = frun.Run_again [folded strict_ops_def]
  and file_Run_after_logout = frun.Run_after_logout [folded strict_ops_def]
  and file_Run_isolated = frun.Run_isolated [folded strict_ops_def]
  and file_tryRefresh_after = frun.tryRefresh_after [folded strict_ops_def]

section \<open>Cache hit\<close>

text \<open>
  C31: a valid entry is answered from the cache, whatever the source would do; an entry that has an
  expiry counts as valid only when it has more than 30 seconds left.
\<close>

theorem run_cache_hit:
  assumes "Load (rn_Cache r) (rn_Issuer r) (rn_ClientID r) w = (Inr (Some e), w')"
    "entryValid (rn_now r w') e"
  shows "Run r w = (Inr (entryResult e), w') \<and>
    (IsZero (e_Expiry e) \<or> ns (rn_now r w') + 30 * second < ns (e_Expiry e))"
  using assms entryValid_expiry [OF assms(2)] by (auto simp: Run_def Skew_def)

definition one_entry_store :: "entry \<Rightarrow> (unit, 'r) store" where
  "one_entry_store e = \<lparr>Load = (\<lambda>i c w. (Inr (Some e), w)), Save = (\<lambda>e w. (None, w)),
     Delete = (\<lambda>i c w. (None, w)), WithLock = (\<lambda>i c fn w. fn w)\<rparr>"

definition entry_runner :: "entry \<Rightarrow> string \<Rightarrow> gotime \<Rightarrow> unit token_source \<Rightarrow> unit runner" where
  "entry_runner e tt now src = \<lparr>rn_Cache = one_entry_store e, rn_Source = src,
     rn_Issuer = ''https://issuer'', rn_ClientID = ''cli'', rn_TokenType = tt,
     rn_now = (\<lambda>_. now), rn_Stderr = None\<rparr>"

lemmas entry_runner_defs = entry_runner_def one_entry_store_def sample_def

theorem run_cache_hit_witness:
  "fst (Run (entry_runner sample TokenTypeAccessToken (Time 0 0) failing_source) ()) = Inr (entryResult sample)"
proof -
  let ?r = "entry_runner sample TokenTypeAccessToken (Time 0 0) failing_source"
  have l: "Load (rn_Cache ?r) (rn_Issuer ?r) (rn_ClientID ?r) () = (Inr (Some sample), ())"
    by (simp add: entry_runner_defs)
  have v: "entryValid (rn_now ?r ()) sample"
    by (simp add: entry_runner_defs entryValid_def IsZero_def Before_def Add_def Skew_def)
  show ?thesis using run_cache_hit [OF l v] by simp
qed

section \<open>What a run leaves in the cache\<close>

text \<open>
  C16: a run's tokens are in the file cache when it returns: the next run of the same profile, with
  whatever source and as long as the tokens are valid, answers with the same tokens without asking
  its source.
\<close>

theorem run_then_cached:
  assumes "honest os" "rn_Cache r = file_store os dir" "storable_source r" "Run r w = (Inr res, w')"
    "r' = r\<lparr>rn_Source := src\<rparr>" "Cache_Load os dir (rn_Issuer r) (rn_ClientID r) w' = (Inr x, w'')"
    "entryValid (rn_now r' w'') (result_entry (rn_Issuer r) (rn_ClientID r) res)"
  shows "\<exists>res'. Run r' w' = (Inr res', w'') \<and> r_AccessToken res' = r_AccessToken res \<and>
    r_IDToken res' = r_IDToken res \<and> r_RefreshToken res' = r_RefreshToken res \<and>
    r_Expiry res' = r_Expiry res"
proof -
  have c: "rn_Cache r = strict_ops os dir" using assms(1,2) frun_ops by simp
  show ?thesis
    by (rule file_Run_again [OF c assms(3,4)])
       (use assms c in \<open>simp_all add: strict_honest\<close>)
qed

lemma blank_load:
  "\<exists>v. Cache_Load fair_os ''/cache'' i c (blank ()) = (Inr None, v) \<and> files v = Map.empty"
  by (simp add: Cache_Load_def ReadFile_def sys_def fair_os_def blank_def advance_def)

lemma first_run:
  assumes "tokens at rt = res" "utf8_valid at" "utf8_valid rt" "rt \<noteq> []"
  shows "\<exists>w'. Run (file_runner (fixed_source refreshed res) now) (blank ()) = (Inr res, w')"
proof -
  let ?e = "result_entry ''https://issuer'' ''cli'' res"
  obtain v where v: "Cache_Load fair_os ''/cache'' ''https://issuer'' ''cli'' (blank ()) = (Inr None, v)"
    "files v = Map.empty" using blank_load by blast
  have "storable ?e" using tokens_storable assms by (metis sample_storable sample_def storable_def entry.simps(1,2))
  then obtain b where "Marshal_Entry ?e = Inr b" using storable_marshals by blast
  then obtain w' where "Cache_Save fair_os ''/cache'' ?e v = (None, w')"
    using fair_save [OF v(2)] by (metis prod.collapse)
  then have "Run (file_runner (fixed_source refreshed res) now) (blank ()) = (Inr res, w')"
    using v(1) assms(1,4)
    by (auto simp: Run_def login_def file_runner_def file_store_def fixed_source_def checkIDToken_def
        persist_def tokens_def zero_result_def)
  then show ?thesis by blast
qed

theorem run_then_cached_witness:
  "\<exists>w' w'' res'. Run (file_runner (fixed_source (tokens ''a2'' ''r2'') (tokens ''a1'' ''r1'')) (Time 0 0)) (blank ())
       = (Inr (tokens ''a1'' ''r1''), w') \<and>
     Run (file_runner failing_source (Time 0 0)) w' = (Inr res', w'') \<and> r_AccessToken res' = ''a1''"
proof -
  let ?r = "file_runner (fixed_source (tokens ''a2'' ''r2'') (tokens ''a1'' ''r1'')) (Time 0 0)"
  obtain w' where run: "Run ?r (blank ()) = (Inr (tokens ''a1'' ''r1''), w')"
    using first_run [OF refl] by (force simp: ascii_utf8_valid)
  obtain x w'' where l: "Cache_Load fair_os ''/cache'' (rn_Issuer ?r) (rn_ClientID ?r) w' = (Inr x, w'')"
    using fair_load by blast
  have src: "storable_source ?r"
    by (auto simp: storable_source_def file_runner_def fixed_source_def ascii_utf8_valid
        intro!: tokens_storable split: if_splits) (simp add: ascii_utf8_valid tokens_def)
  have valid: "entryValid (rn_now (?r\<lparr>rn_Source := failing_source\<rparr>) w'')
      (result_entry (rn_Issuer ?r) (rn_ClientID ?r) (tokens ''a1'' ''r1''))"
    by (simp add: file_runner_def tokens_def entryValid_def IsZero_def Before_def Add_def Skew_def)
  have "rn_Cache ?r = file_store fair_os ''/cache''" by (simp add: file_runner_def)
  from run_then_cached [OF honest_fair(1) this src run refl l valid] run
  show ?thesis by (auto simp: file_runner_def tokens_def)
qed

text \<open>
  After a logout that succeeded a run cannot be answered from the cache: it is a login.
\<close>

theorem run_after_logout:
  assumes "honest os" "rn_Cache r = file_store os dir" "Logout r w = (None, w1)"
    "Cache_Load os dir (rn_Issuer r) (rn_ClientID r) w1 = (Inr x, w2)"
  shows "Run r w1 = login r (rn_Issuer r) (rn_ClientID r) w2"
proof -
  have "rn_Cache r = strict_ops os dir" using assms(1,2) frun_ops by simp
  then show ?thesis
    by (rule file_Run_after_logout) (use assms in \<open>simp_all add: strict_honest\<close>)
qed

theorem run_after_logout_witness:
  "\<exists>w1 w2. Logout (file_runner failing_source (Time 0 0))
       (snd (Cache_Save fair_os ''/cache'' sample (blank ()))) = (None, w1) \<and>
     Run (file_runner failing_source (Time 0 0)) w1 =
       (Inl (wrap2 ErrLoginFailed (External ''no terminal'')), w2)"
proof -
  let ?r = "file_runner failing_source (Time 0 0)"
  let ?w = "snd (Cache_Save fair_os ''/cache'' sample (blank ()))"
  have c: "rn_Cache ?r = file_store fair_os ''/cache''" by (simp add: file_runner_def)
  have o: "Logout ?r ?w = (None, snd (Logout ?r ?w))"
    using fair_delete by (simp add: Logout_def file_runner_def file_store_def prod_eq_iff)
  obtain x w2 where l: "Cache_Load fair_os ''/cache'' (rn_Issuer ?r) (rn_ClientID ?r) (snd (Logout ?r ?w)) = (Inr x, w2)"
    using fair_load by blast
  have "Run ?r (snd (Logout ?r ?w)) = (Inl (wrap2 ErrLoginFailed (External ''no terminal'')), w2)"
    unfolding run_after_logout [OF honest_fair(1) c o l]
    by (simp add: login_def file_runner_def failing_source_def)
  with o show ?thesis by blast
qed

section \<open>Outcomes\<close>

text \<open>
  C26: the errors of a run: it could not read the cache, the login failed, the id_token is invalid,
  or the new tokens could not be stored. A refresh that fails, for whatever reason, is never
  the error of a run: it goes on to the login.
\<close>

theorem run_errors:
  "case Run r w of (Inr res, w') \<Rightarrow> True
   | (Inl err, w') \<Rightarrow> \<exists>s \<in> {ErrCacheRead, ErrLoginFailed, ErrIDTokenInvalid, ErrCacheWrite}. \<exists>e. err = wrap2 s e"
proof -
  obtain x w' where run: "Run r w = (x, w')" by (cases "Run r w")
  then show ?thesis
  proof (cases rule: Run_cases)
    case (login v)
    then show ?thesis
      using run by (cases rule: login_cases) (auto dest: checkIDToken_err)
  qed (use run in auto)
qed

text \<open>
  C15: with \<^verbatim>\<open>--token-type=id_token\<close> no run hands out a result whose id_token failed
  verification, whether it comes from the cache, from a refresh or from a login.
\<close>

theorem run_id_token_verified:
  assumes "rn_TokenType r = TokenTypeIDToken" "lock_runs (rn_Cache r)" "Run r w = (Inr res, w')"
  shows "r_IDTokenError res = None"
  using assms(3)
proof (cases rule: Run_cases)
  case (refreshed e w1 res')
  then have "tryRefresh r (rn_Issuer r) (rn_ClientID r) e w1 = (Inr res, w')" by simp
  from this assms(2) show ?thesis
  proof (cases rule: tryRefresh_cases)
    case (refreshed t r0 v v1 v2 v3)
    then have "r_IDTokenError r0 = None" using assms(1) checkIDToken_ok by fast
    then show ?thesis using refreshed(5) by simp
  qed simp
next
  case (login v)
  then show ?thesis
    by (cases rule: login_cases) (auto dest: checkIDToken_ok [OF _ assms(1)])
qed auto

theorem run_id_token_verified_witness:
  "r_IDTokenError (entryResult sample) = None \<and>
   Run (entry_runner sample TokenTypeIDToken (Time 0 0) failing_source) () = (Inr (entryResult sample), ())"
proof -
  let ?r = "entry_runner sample TokenTypeIDToken (Time 0 0) failing_source"
  have run: "Run ?r () = (Inr (entryResult sample), ())"
    by (simp add: Run_def entry_runner_defs entryValid_def IsZero_def Before_def Add_def Skew_def)
  have "lock_runs (rn_Cache ?r)" by (auto simp: lock_runs_def entry_runner_defs)
  with run_id_token_verified [OF _ this run] run show ?thesis by (simp add: entry_runner_def)
qed

text \<open>
  C14: A refresh that succeeds keeps a refresh token: it returns the valid entry another process has
  stored meanwhile, or the server's verified answer, in which a missing refresh token is replaced by
  the one that was used; and what it has stored before it returned is what it returns, with that refresh
  token. (A refresh that fails, as by an answer that does not verify, stores nothing, and a refresh
  token in the answer is lost.)
\<close>

theorem refresh_keeps_token:
  assumes "lock_runs (rn_Cache r)" "tryRefresh r i c stale w = (Inr res, w')"
  shows "(\<exists>fresh v v1. Load (rn_Cache r) i c v = (Inr (Some fresh), v1) \<and>
        entryValid (rn_now r v1) fresh \<and> res = entryResult fresh) \<or>
    (\<exists>t r0 v v1 v2 v3. ts_Refresh (rn_Source r) t v = (Inr r0, v1) \<and> t \<noteq> [] \<and> r_RefreshToken res \<noteq> [] \<and>
        r_AccessToken res = r_AccessToken r0 \<and> r_IDToken res = r_IDToken r0 \<and>
        (r_RefreshToken res = r_RefreshToken r0 \<or> r_RefreshToken r0 = [] \<and> r_RefreshToken res = t) \<and>
        checkIDToken r r0 v1 = (None, v2) \<and> Save (rn_Cache r) (result_entry i c res) v2 = (None, v3))"
  using assms(2,1)
proof (cases rule: tryRefresh_cases)
  case (concurrent fresh v v1)
  then show ?thesis by blast
next
  case (refreshed t r0 v v1 v2 v3)
  have "r_RefreshToken res \<noteq> []" "r_AccessToken res = r_AccessToken r0" "r_IDToken res = r_IDToken r0"
    "r_RefreshToken res = r_RefreshToken r0 \<or> r_RefreshToken r0 = [] \<and> r_RefreshToken res = t"
    using refreshed(1,5) by auto
  with refreshed(1-4) show ?thesis unfolding persist_def by blast
qed

theorem refresh_keeps_token_witness:
  "\<exists>res w'. tryRefresh (entry_runner sample TokenTypeAccessToken (Time (86400 * second) 0)
       (fixed_source (tokens ''a2'' []) (tokens ''a1'' ''rt''))) ''i'' ''c'' sample () = (Inr res, w') \<and>
     r_RefreshToken res = ''rt''"
proof -
  let ?r = "entry_runner sample TokenTypeAccessToken (Time (86400 * second) 0)
       (fixed_source (tokens ''a2'' []) (tokens ''a1'' ''rt''))"
  obtain res where run: "tryRefresh ?r ''i'' ''c'' sample () = (Inr res, ())"
    by (simp add: tryRefresh_def refresh_locked_def refresh_with_def entry_runner_defs entryValid_def
        IsZero_def Before_def Add_def Skew_def fixed_source_def tokens_def zero_result_def checkIDToken_def
        persist_def)
  have lr: "lock_runs (rn_Cache ?r)" by (auto simp: lock_runs_def entry_runner_defs)
  have "r_RefreshToken res = ''rt''"
    using refresh_keeps_token [OF lr run]
    by (auto simp: entry_runner_defs entryValid_def IsZero_def Before_def Add_def Skew_def
        fixed_source_def tokens_def zero_result_def split: if_splits)
  with run show ?thesis by blast
qed

text \<open>
  C3: two processes that find the same stale entry: the one that gets the lock second does not use
  up a refresh token: whatever stale entry and source it has, it returns the tokens the first one
  has just stored, as long as they are valid and the file can be read.
\<close>

theorem refresh_race:
  assumes "honest os" "\<And>t p. os_fault os t (SysReadFile p) = None"
    "rn_Cache r = file_store os dir" "storable_source r"
    "tryRefresh r (rn_Issuer r) (rn_ClientID r) e w = (Inr res, w1)"
    "rn_Cache r' = file_store os dir"
    "\<And>v. entryValid (rn_now r' v) (result_entry (rn_Issuer r) (rn_ClientID r) res)"
    "tryRefresh r' (rn_Issuer r) (rn_ClientID r) e' w1 = (Inr res', w2)"
  shows "r_AccessToken res' = r_AccessToken res \<and> r_IDToken res' = r_IDToken res \<and>
    r_RefreshToken res' = r_RefreshToken res \<and> r_Expiry res' = r_Expiry res"
proof -
  have c: "rn_Cache r = strict_ops os dir" "rn_Cache r' = strict_ops os dir"
    using assms(1,3,6) frun_ops by simp_all
  have load: "\<exists>x v'. Cache_Load (strict os) dir (rn_Issuer r) (rn_ClientID r) v = (Inr x, v')" for v
    using assms(1,2) by (cases "files v (path dir (rn_Issuer r) (rn_ClientID r))")
      (auto simp: Cache_Load_def ReadFile_def sys_def strict_honest)
  have "\<exists>f. res' = entryResult f \<and> same_tokens f res"
    using file_tryRefresh_after [OF c(1) assms(4,5) c(2) load assms(7,8)] assms(1,6,8)
    by (auto simp: tryRefresh_def file_store_def)
  then show ?thesis by (auto simp: same_tokens_def)
qed

lemma fair_lock:
  "\<exists>v v'. Cache_WithLock fair_os dir i c fn w = (fst (fn v), v') \<and> contents v = contents w"
proof -
  obtain r w1 where ed: "ensureDir fair_os dir w = (r, w1)" by (cases "ensureDir fair_os dir w")
  then have "r = None"
    by (auto simp: ensureDir_def try_sys_def sys_defs fair_os_def advance_def split: option.splits)
  let ?v = "(advance w1)\<lparr>locks := lockPath dir i c # locks (advance w1)\<rparr>"
  obtain y v' where fn: "fn ?v = (y, v')" by (cases "fn ?v")
  have "os_flock fair_os t p = (True, None)" for t p by (simp add: fair_os_def)
  then have "Cache_WithLock fair_os dir i c fn w = (y, v'\<lparr>locks := remove1 (lockPath dir i c) (locks v')\<rparr>)"
    using ed \<open>r = None\<close> fn by (simp add: Cache_WithLock_def Let_def)
  moreover have "contents ?v = contents w" using contents_ensureDir [OF ed] by simp
  ultimately show ?thesis using fn by (metis fst_conv)
qed

lemma no_contents: "contents v = contents (blank ()) \<Longrightarrow> files v = Map.empty"
  by (rule ext) (metis blank_def contents_def option.map_disc_iff world.select_convs(1))

lemma refresh_locked_ok: "\<exists>x. fst (refresh_locked r i c e w) = Inr x"
  by (auto simp: refresh_locked_def apfst_def map_prod_def split: prod.split sum.split option.split)

theorem refresh_race_witness:
  "\<exists>w1 res' w2. tryRefresh (file_runner (fixed_source (tokens ''a2'' ''r2'') (tokens ''a1'' ''rt'')) (Time 0 0))
       ''https://issuer'' ''cli'' sample (blank ()) = (Inr (tokens ''a2'' ''r2''), w1) \<and>
     tryRefresh (file_runner failing_source (Time 0 0)) ''https://issuer'' ''cli'' sample w1 = (Inr res', w2) \<and>
     r_AccessToken res' = ''a2''"
proof -
  let ?r = "file_runner (fixed_source (tokens ''a2'' ''r2'') (tokens ''a1'' ''rt'')) (Time 0 0)"
  let ?r' = "file_runner failing_source (Time 0 0)"
  let ?fn = "refresh_locked ?r (rn_Issuer ?r) (rn_ClientID ?r) sample"
  have r: "rn_Issuer ?r = ''https://issuer''" "rn_ClientID ?r = ''cli''"
    "rn_Cache ?r = file_store fair_os ''/cache''" "rn_Cache ?r' = file_store fair_os ''/cache''"
    by (simp_all add: file_runner_def)
  obtain v v' where lock: "Cache_WithLock fair_os ''/cache'' (rn_Issuer ?r) (rn_ClientID ?r) ?fn (blank ()) = (fst (?fn v), v')"
    and v: "files v = Map.empty" using fair_lock no_contents by metis
  obtain u where u: "Cache_Load fair_os ''/cache'' (rn_Issuer ?r) (rn_ClientID ?r) v = (Inr None, u)" "files u = Map.empty"
    using v by (simp add: Cache_Load_def ReadFile_def sys_def fair_os_def advance_def)
  let ?e = "result_entry (rn_Issuer ?r) (rn_ClientID ?r) (tokens ''a2'' ''r2'')"
  have "storable ?e" unfolding r by (rule tokens_storable) (simp_all add: ascii_utf8_valid)
  then obtain b where "Marshal_Entry ?e = Inr b" using storable_marshals by blast
  then obtain u' where "Cache_Save fair_os ''/cache'' ?e u = (None, u')"
    using fair_save [OF u(2)] by (metis prod.collapse)
  then have "?fn v = (Inr (Inr (tokens ''a2'' ''r2'')), u')"
    using u(1) by (simp add: refresh_locked_def refresh_with_def file_runner_def file_store_def fixed_source_def
        checkIDToken_def persist_def tokens_def zero_result_def sample_def)
  then have one: "tryRefresh ?r (rn_Issuer ?r) (rn_ClientID ?r) sample (blank ()) = (Inr (tokens ''a2'' ''r2''), v')"
    using lock by (simp add: tryRefresh_def r(3) file_store_def)
  have src: "storable_source ?r"
    by (auto simp: storable_source_def file_runner_def fixed_source_def ascii_utf8_valid
        intro!: tokens_storable split: if_splits) (simp add: ascii_utf8_valid tokens_def)
  have valid: "entryValid (rn_now ?r' x) ?e" for x
    by (simp add: file_runner_def tokens_def entryValid_def IsZero_def Before_def Add_def Skew_def)
  have nf: "os_fault fair_os t (SysReadFile p) = None" for t p by (simp add: fair_os_def)
  obtain y w2 where two: "tryRefresh ?r' (rn_Issuer ?r) (rn_ClientID ?r) sample v' = (y, w2)"
    by (cases "tryRefresh ?r' (rn_Issuer ?r) (rn_ClientID ?r) sample v'")
  have nl: "\<nexists>err. Cache_WithLock fair_os ''/cache'' (rn_Issuer ?r) (rn_ClientID ?r)
      (refresh_locked ?r' (rn_Issuer ?r) (rn_ClientID ?r) sample) v' = (Inl err, w2)"
    using fair_lock [of "''/cache''" _ _ "refresh_locked ?r' (rn_Issuer ?r) (rn_ClientID ?r) sample" v']
      refresh_locked_ok by (metis Pair_inject sum.distinct(1))
  have c: "rn_Cache ?r = strict_ops fair_os ''/cache''" "rn_Cache ?r' = strict_ops fair_os ''/cache''"
    using r(3,4) frun_ops [OF honest_fair(1)] by simp_all
  have load: "\<exists>x u. Cache_Load (strict fair_os) ''/cache'' (rn_Issuer ?r) (rn_ClientID ?r) v = (Inr x, u)" for v
    unfolding strict_honest [OF honest_fair(1)] using fair_load by blast
  have "\<exists>res'. y = Inr res'"
    using file_tryRefresh_after [OF c(1) src one c(2) load valid two] nl by blast
  then obtain res' where "y = Inr res'" ..
  with refresh_race [OF honest_fair(1) nf r(3) src one r(4) valid, of sample res' w2] two one
  show ?thesis unfolding r by (auto simp: tokens_def)
qed

text \<open>
  C29: isolation: a run of one profile changes no other profile's entry, as long as the source and
  the warnings leave the files alone.
\<close>

theorem run_isolated:
  assumes "honest os" "rn_Cache r = file_store os dir" "Run r w = (x, w')" "k \<noteq> run_key r"
    "\<And>v. file_view dir (snd (ts_Login (rn_Source r) v)) = file_view dir v"
    "\<And>t v. file_view dir (snd (ts_Refresh (rn_Source r) t v)) = file_view dir v"
    "\<And>l v. file_view dir (warn r l v) = file_view dir v"
  shows "file_view dir w' k = file_view dir w k"
proof -
  have "rn_Cache r = strict_ops os dir" using assms(1,2) frun_ops by simp
  moreover have "frun.quiet_source dir r" using assms(5-7) unfolding frun.quiet_source_def by blast
  ultimately show ?thesis using assms(3,4) file_Run_isolated by blast
qed

theorem run_isolated_witness:
  "\<exists>x w'. Run (file_runner failing_source (Time 0 0)) (blank ()) = (x, w') \<and>
     file_view ''/cache'' w' ''ab'' = None"
proof -
  let ?r = "file_runner failing_source (Time 0 0)"
  obtain x w' where run: "Run ?r (blank ()) = (x, w')" by (cases "Run ?r (blank ())")
  have c: "rn_Cache ?r = file_store fair_os ''/cache''" by (simp add: file_runner_def)
  have "length (run_key ?r) = 64" by (simp add: run_key_def profileKey_length)
  moreover have "length ''ab'' \<noteq> 64" by simp
  ultimately have k: "''ab'' \<noteq> run_key ?r" by metis
  have q: "\<And>v. file_view ''/cache'' (snd (ts_Login (rn_Source ?r) v)) = file_view ''/cache'' v"
    "\<And>t v. file_view ''/cache'' (snd (ts_Refresh (rn_Source ?r) t v)) = file_view ''/cache'' v"
    "\<And>l v. file_view ''/cache'' (warn ?r l v) = file_view ''/cache'' v"
    by (simp_all add: file_runner_def failing_source_def warn_def log_line_def file_view_def contents_def fun_eq_iff)
  have "file_view ''/cache'' w' ''ab'' = file_view ''/cache'' (blank ()) ''ab''"
    by (rule run_isolated [OF honest_fair(1) c run k q])
  then show ?thesis using run by (simp add: file_view_def contents_def blank_def)
qed

text \<open>
  An entry without an id_token is a cache hit even when the id_token was asked for: the run
  succeeds without asking its source, and there is no token of that type to print. The run that
  follows does the same, until the entry expires.
\<close>

theorem run_hit_without_id_token:
  assumes "rn_TokenType r = TokenTypeIDToken"
    "Load (rn_Cache r) (rn_Issuer r) (rn_ClientID r) w = (Inr (Some e), w')"
    "e_IDToken e = []" "e_AccessToken e \<noteq> []" "ns (rn_now r w') + 30 * second < ns (e_Expiry e)"
    "ns (e_Expiry e) \<noteq> 0"
  shows "\<exists>res. Run r w = (Inr res, w') \<and> Select res (rn_TokenType r) = ([], False)"
proof -
  have "entryValid (rn_now r w') e"
    using assms(3-6) by (simp add: entryValid_def IsZero_def Before_def Add_def Skew_def)
  then have "Run r w = (Inr (entryResult e), w')" using assms(2) by (simp add: Run_def)
  then show ?thesis using assms(1,3) by (simp add: Select_def token_types)
qed

theorem run_hit_without_id_token_witness:
  "\<exists>res. Run (entry_runner (sample\<lparr>e_IDToken := []\<rparr>) TokenTypeIDToken (Time 0 0)
       (fixed_source (tokens ''a2'' ''r2'') (tokens ''a1'' ''r1''))) () = (Inr res, ()) \<and>
     Select res TokenTypeIDToken = ([], False)"
proof -
  let ?r = "entry_runner (sample\<lparr>e_IDToken := []\<rparr>) TokenTypeIDToken (Time 0 0)
       (fixed_source (tokens ''a2'' ''r2'') (tokens ''a1'' ''r1''))"
  have tt: "rn_TokenType ?r = TokenTypeIDToken" by (simp add: entry_runner_def)
  show ?thesis
    using run_hit_without_id_token [OF tt, of "()" "sample\<lparr>e_IDToken := []\<rparr>" "()"]
    by (simp add: entry_runner_defs)
qed

end
