(* ===== verification/Processes.thy ===== *)
theory Processes
  imports RunnerProps
begin

text \<open>
  Several processes with the same profile: \<^const>\<open>Run\<close> cut where another process may get in between
  (the load, the wait for the lock, the second load, the refresh, the save, the login), and the
  interleavings of these steps over one file system and one issuer, with logouts. The lock is the one
  of the file store: who takes it is in \<^const>\<open>locks\<close>, and nobody takes it twice.
\<close>

section \<open>A run, step by step\<close>

datatype run_pc =
    Start
  | Waiting entry
  | Queued entry
  | Locked entry
  | Refreshing string
  | Persisting result
  | LoggingIn
  | Storing result
  | Finished "error + result"
  | Killed

text \<open>
  What happens to refresh tokens: one is redeemed, that is, the issuer has answered with new tokens; or
  its refresh fails, and whether the issuer has seen the request is unknown, as its answer may be lost;
  or a run under the lock loses track: it cannot read the entry again and goes on with its stale one,
  or it does not store what it has redeemed.
\<close>

datatype event = Redeemed string | Failed string | Astray

fun critical :: "run_pc \<Rightarrow> bool" where
  "critical (Locked _) = True" | "critical (Refreshing _) = True" | "critical (Persisting _) = True"
| "critical _ = False"

text \<open>Leaving the closure releases the lock.\<close>

definition unlock :: "string \<Rightarrow> run_pc \<Rightarrow> 'x world \<Rightarrow> 'x world" where
  "unlock lp pc w = (if critical pc then w else w\<lparr>locks := remove1 lp (locks w)\<rparr>)"

definition after_load :: "'x world runner \<Rightarrow> error + entry option \<Rightarrow> 'x world \<Rightarrow> run_pc" where
  "after_load r y w =
     (case y of
        Inl err \<Rightarrow> Finished (Inl (wrap2 ErrCacheRead err))
      | Inr None \<Rightarrow> LoggingIn
      | Inr (Some e) \<Rightarrow>
          if entryValid (rn_now r w) e then Finished (Inr (entryResult e))
          else if e_RefreshToken e \<noteq> [] then Waiting e else LoggingIn)"

definition refresh_or_login :: "string \<Rightarrow> run_pc" where
  "refresh_or_login t = (if t = [] then LoggingIn else Refreshing t)"

definition after_reload :: "'x world runner \<Rightarrow> entry \<Rightarrow> error + entry option \<Rightarrow> 'x world \<Rightarrow> run_pc" where
  "after_reload r stale y w =
     (case y of
        Inr (Some fresh) \<Rightarrow>
          if entryValid (rn_now r w) fresh then Finished (Inr (entryResult fresh))
          else refresh_or_login (e_RefreshToken fresh)
      | _ \<Rightarrow> refresh_or_login (e_RefreshToken stale))"

definition kept_token :: "string \<Rightarrow> result \<Rightarrow> result" where
  "kept_token t res = (if r_RefreshToken res = [] then res\<lparr>r_RefreshToken := t\<rparr> else res)"

inductive run_step ::
  "os \<Rightarrow> string \<Rightarrow> 'x world runner \<Rightarrow> run_pc \<times> 'x world \<Rightarrow> event list \<Rightarrow> run_pc \<times> 'x world \<Rightarrow> bool"
  for os dir r where
  start: "Load (rn_Cache r) (rn_Issuer r) (rn_ClientID r) w = (y, w1) \<Longrightarrow>
    run_step os dir r (Start, w) [] (after_load r y w1, w1)"
| prepared: "ensureDir os dir w = (y, w1) \<Longrightarrow>
    run_step os dir r (Waiting e, w) [] (if y = None then Queued e else LoggingIn, w1)"
| locked: "lockPath dir (rn_Issuer r) (rn_ClientID r) \<notin> set (locks w) \<Longrightarrow>
    run_step os dir r (Queued e, w) []
      (Locked e, (advance w)\<lparr>locks := lockPath dir (rn_Issuer r) (rn_ClientID r) # locks w\<rparr>)"
| timed_out: "run_step os dir r (Queued e, w) [] (LoggingIn, advance w)"
| reloaded: "Load (rn_Cache r) (rn_Issuer r) (rn_ClientID r) w = (y, w1) \<Longrightarrow> pc = after_reload r e y w1 \<Longrightarrow>
    run_step os dir r (Locked e, w) (case y of Inr (Some _) \<Rightarrow> [] | _ \<Rightarrow> [Astray])
      (pc, unlock (lockPath dir (rn_Issuer r) (rn_ClientID r)) pc w1)"
| not_refreshed: "ts_Refresh (rn_Source r) t w = (Inl err, w1) \<Longrightarrow>
    run_step os dir r (Refreshing t, w) [Failed t]
      (LoggingIn, unlock (lockPath dir (rn_Issuer r) (rn_ClientID r)) LoggingIn w1)"
| refreshed: "ts_Refresh (rn_Source r) t w = (Inr res, w1) \<Longrightarrow> checkIDToken r res w1 = (None, w2) \<Longrightarrow>
    run_step os dir r (Refreshing t, w) [Redeemed t] (Persisting (kept_token t res), w2)"
| unverified: "ts_Refresh (rn_Source r) t w = (Inr res, w1) \<Longrightarrow> checkIDToken r res w1 = (Some err, w2) \<Longrightarrow>
    run_step os dir r (Refreshing t, w) [Redeemed t, Astray]
      (LoggingIn, unlock (lockPath dir (rn_Issuer r) (rn_ClientID r)) LoggingIn w2)"
| persisted: "persist r (rn_Issuer r) (rn_ClientID r) res w = (y, w1) \<Longrightarrow>
    pc = (if y = None then Finished (Inr res) else LoggingIn) \<Longrightarrow>
    run_step os dir r (Persisting res, w) (if y = None then [] else [Astray])
      (pc, unlock (lockPath dir (rn_Issuer r) (rn_ClientID r)) pc w1)"
| not_logged_in: "ts_Login (rn_Source r) w = (Inl err, w1) \<Longrightarrow>
    run_step os dir r (LoggingIn, w) [] (Finished (Inl (wrap2 ErrLoginFailed err)), w1)"
| invalid_login: "ts_Login (rn_Source r) w = (Inr res, w1) \<Longrightarrow> checkIDToken r res w1 = (Some err, w2) \<Longrightarrow>
    run_step os dir r (LoggingIn, w) [] (Finished (Inl err), w2)"
| logged_in: "ts_Login (rn_Source r) w = (Inr res, w1) \<Longrightarrow> checkIDToken r res w1 = (None, w2) \<Longrightarrow>
    run_step os dir r (LoggingIn, w) []
      (Storing res, if r_RefreshToken res = [] then warn r no_refresh_warning w2 else w2)"
| stored: "persist r (rn_Issuer r) (rn_ClientID r) res w = (y, w1) \<Longrightarrow>
    run_step os dir r (Storing res, w) []
      (Finished (case y of None \<Rightarrow> Inr res | Some err \<Rightarrow> Inl (wrap2 ErrCacheWrite err)), w1)"

inductive_cases run_stepE: "run_step os dir r s es s'"

inductive run_steps ::
  "os \<Rightarrow> string \<Rightarrow> 'x world runner \<Rightarrow> run_pc \<times> 'x world \<Rightarrow> event list \<Rightarrow> run_pc \<times> 'x world \<Rightarrow> bool"
  for os dir r where
  done_steps: "run_steps os dir r s [] s"
| more_steps: "run_step os dir r s es s' \<Longrightarrow> run_steps os dir r s' fs s'' \<Longrightarrow> run_steps os dir r s (es @ fs) s''"

section \<open>The same as \<^const>\<open>Run\<close>\<close>

definition reaches :: "os \<Rightarrow> string \<Rightarrow> 'x world runner \<Rightarrow> run_pc \<times> 'x world \<Rightarrow> run_pc \<times> 'x world \<Rightarrow> bool" where
  "reaches os dir r s s' \<longleftrightarrow> (\<exists>es. run_steps os dir r s es s')"

lemma reaches_refl: "reaches os dir r s s"
  unfolding reaches_def by (blast intro: done_steps)

lemma reaches_more: "run_step os dir r s es s' \<Longrightarrow> reaches os dir r s' s'' \<Longrightarrow> reaches os dir r s s''"
  unfolding reaches_def by (blast intro: more_steps)

lemma reaches_last: "run_step os dir r s es s' \<Longrightarrow> reaches os dir r s s'"
  by (rule reaches_more [OF _ reaches_refl])

lemma reaches_trans: "reaches os dir r s s' \<Longrightarrow> reaches os dir r s' s'' \<Longrightarrow> reaches os dir r s s''"
proof -
  have "run_steps os dir r s es s' \<Longrightarrow> reaches os dir r s' s'' \<Longrightarrow> reaches os dir r s s''" for es
    by (induction rule: run_steps.induct) (auto intro: reaches_more)
  then show "reaches os dir r s s' \<Longrightarrow> reaches os dir r s' s'' \<Longrightarrow> reaches os dir r s s''" by (auto simp: reaches_def)
qed

lemma login_steps:
  assumes "login r (rn_Issuer r) (rn_ClientID r) w = (x, w')"
  shows "reaches os dir r (LoggingIn, w) (Finished x, w')"
proof (cases "ts_Login (rn_Source r) w")
  case (Pair a w1)
  show ?thesis
  proof (cases a)
    case (Inl err)
    then show ?thesis
      using assms not_logged_in [of r w err w1] Pair by (auto simp: login_def intro!: reaches_last)
  next
    case (Inr res)
    obtain c w2 where c: "checkIDToken r res w1 = (c, w2)" by (cases "checkIDToken r res w1")
    show ?thesis
    proof (cases c)
      case None
      let ?w3 = "if r_RefreshToken res = [] then warn r no_refresh_warning w2 else w2"
      obtain y w4 where s: "persist r (rn_Issuer r) (rn_ClientID r) res ?w3 = (y, w4)"
        by (cases "persist r (rn_Issuer r) (rn_ClientID r) res ?w3")
      have "x = (case y of None \<Rightarrow> Inr res | Some err \<Rightarrow> Inl (wrap2 ErrCacheWrite err))" "w' = w4"
        using assms Pair Inr c None s by (auto simp: login_def Let_def split: option.splits)
      then have "reaches os dir r (Storing res, ?w3) (Finished x, w')"
        using stored [OF s] by (blast intro: reaches_last)
      then show ?thesis by (rule reaches_more [OF logged_in [OF Pair [unfolded Inr] c [unfolded None]]])
    next
      case (Some err)
      then show ?thesis
        using assms Pair Inr c invalid_login [OF Pair [unfolded Inr] c [unfolded Some]]
        by (auto simp: login_def intro!: reaches_last)
    qed
  qed
qed

lemma refresh_steps:
  assumes "refresh_with r (rn_Issuer r) (rn_ClientID r) t w = (y, v)" "t \<noteq> []"
    and lp: "lp = lockPath dir (rn_Issuer r) (rn_ClientID r)"
  shows "reaches os dir r (Refreshing t, w) (case y of Inl _ \<Rightarrow> LoggingIn | Inr res \<Rightarrow> Finished (Inr res), v\<lparr>locks := remove1 lp (locks v)\<rparr>)"
proof (cases "ts_Refresh (rn_Source r) t w")
  case (Pair a w1)
  show ?thesis
  proof (cases a)
    case (Inl err)
    then show ?thesis
      using assms Pair not_refreshed [OF Pair [unfolded Inl], of os dir] by (auto simp: refresh_with_def unlock_def intro!: reaches_last)
  next
    case (Inr res)
    obtain c w2 where c: "checkIDToken r res w1 = (c, w2)" by (cases "checkIDToken r res w1")
    show ?thesis
    proof (cases c)
      case None
      obtain z w3 where s: "persist r (rn_Issuer r) (rn_ClientID r) (kept_token t res) w2 = (z, w3)"
        by (cases "persist r (rn_Issuer r) (rn_ClientID r) (kept_token t res) w2")
      have "y = (case z of None \<Rightarrow> Inr (kept_token t res) | Some err \<Rightarrow> Inl (wrap2 ErrCacheWrite err))" "v = w3"
        using assms Pair Inr c None s by (auto simp: refresh_with_def kept_token_def Let_def split: option.splits)
      then have "reaches os dir r (Persisting (kept_token t res), w2) (case y of Inl _ \<Rightarrow> LoggingIn | Inr res \<Rightarrow> Finished (Inr res), v\<lparr>locks := remove1 lp (locks v)\<rparr>)"
        using reaches_last [OF persisted [OF s refl, of os dir]] lp by (cases z) (simp_all add: unlock_def)
      then show ?thesis by (rule reaches_more [OF refreshed [OF Pair [unfolded Inr] c [unfolded None]]])
    next
      case (Some err)
      then show ?thesis
        using assms Pair Inr c unverified [OF Pair [unfolded Inr] c [unfolded Some], of os dir]
        by (auto simp: refresh_with_def unlock_def intro!: reaches_last)
    qed
  qed
qed

lemma refresh_or_login_steps:
  assumes "refresh_with r (rn_Issuer r) (rn_ClientID r) t w = (y, v)"
    and lp: "lp = lockPath dir (rn_Issuer r) (rn_ClientID r)"
  shows "reaches os dir r (refresh_or_login t, unlock lp (refresh_or_login t) w) (case y of Inl _ \<Rightarrow> LoggingIn | Inr res \<Rightarrow> Finished (Inr res), v\<lparr>locks := remove1 lp (locks v)\<rparr>)"
proof (cases "t = []")
  case True
  then show ?thesis
    using assms(1) by (auto simp: refresh_or_login_def refresh_with_def unlock_def intro: reaches_refl)
next
  case False
  then show ?thesis using refresh_steps [OF assms(1) False lp] by (simp add: refresh_or_login_def unlock_def)
qed

lemma locked_steps:
  assumes "refresh_locked r (rn_Issuer r) (rn_ClientID r) e w = (y, v)"
    and lp: "lp = lockPath dir (rn_Issuer r) (rn_ClientID r)"
  shows "reaches os dir r (Locked e, w) (case y of Inr (Inr res) \<Rightarrow> Finished (Inr res) | _ \<Rightarrow> LoggingIn, v\<lparr>locks := remove1 lp (locks v)\<rparr>)"
proof -
  obtain l w1 where l: "Load (rn_Cache r) (rn_Issuer r) (rn_ClientID r) w = (l, w1)"
    by (cases "Load (rn_Cache r) (rn_Issuer r) (rn_ClientID r) w")
  note step = reloaded [OF l refl, of os dir e]
  show ?thesis
  proof (cases "\<exists>fresh. l = Inr (Some fresh) \<and> entryValid (rn_now r w1) fresh")
    case True
    then show ?thesis
      using assms l reaches_last [OF step] by (auto simp: refresh_locked_def after_reload_def unlock_def)
  next
    case False
    let ?t = "case l of Inr (Some fresh) \<Rightarrow> e_RefreshToken fresh | _ \<Rightarrow> e_RefreshToken e"
    obtain z u where z: "refresh_with r (rn_Issuer r) (rn_ClientID r) ?t w1 = (z, u)"
      by (cases "refresh_with r (rn_Issuer r) (rn_ClientID r) ?t w1")
    have "after_reload r e l w1 = refresh_or_login ?t" "y = Inr z" "v = u"
      using False assms(1) l z by (auto simp: refresh_locked_def after_reload_def split: sum.splits option.splits)
    then show ?thesis
      using reaches_more [OF step] refresh_or_login_steps [OF z lp, of os] lp by (cases z) simp_all
  qed
qed

lemma frame_locks:
  "ReadFile os p w = (r1, w') \<Longrightarrow> locks w' = locks w"
  "Cache_Load os dir i c w = (r2, w') \<Longrightarrow> locks w' = locks w"
  by (auto simp: Cache_Load_def sys_defs advance_def split: prod.splits sum.splits option.splits)

lemma tryRefresh_steps:
  assumes t: "tryRefresh r (rn_Issuer r) (rn_ClientID r) e w = (y, w')" and c: "rn_Cache r = file_store os dir"
    and free: "lockPath dir (rn_Issuer r) (rn_ClientID r) \<notin> set (locks w)"
  shows "reaches os dir r (Waiting e, w) (case y of Inr res \<Rightarrow> Finished (Inr res) | Inl _ \<Rightarrow> LoggingIn, w')"
proof -
  let ?i = "rn_Issuer r" and ?c = "rn_ClientID r"
  let ?lp = "lockPath dir ?i ?c"
  obtain q u where q: "ensureDir os dir w = (q, u)" by (cases "ensureDir os dir w")
  note prep = prepared [OF q, of r e]
  have fu: "?lp \<notin> set (locks u)" using free ensureDir_locks [OF q] by simp
  show ?thesis
  proof (cases "q = None \<and> os_flock os (tick u) ?lp = (True, None)")
    case True
    let ?v = "(advance u)\<lparr>locks := ?lp # locks u\<rparr>"
    obtain z v where z: "refresh_locked r ?i ?c e ?v = (z, v)" by (cases "refresh_locked r ?i ?c e ?v")
    have "y = (case z of Inr (Inr res) \<Rightarrow> Inr res | Inr (Inl err) \<Rightarrow> Inl err | Inl err \<Rightarrow> Inl err)"
      "w' = v\<lparr>locks := remove1 ?lp (locks v)\<rparr>"
      using t q True z c
      by (auto simp: tryRefresh_def file_store_def Cache_WithLock_def Let_def advance_def split: sum.splits)
    moreover have "reaches os dir r (Queued e, u) (Locked e, ?v)" by (rule reaches_last [OF locked [OF fu]])
    ultimately show ?thesis
      using reaches_last [OF prep] locked_steps [OF z refl, of os] True
      by (auto intro: reaches_trans split: sum.splits)
  next
    case False
    then have "\<exists>err. y = Inl err" "w' = (if q = None then advance u else u)"
      using t q c
      by (auto simp: tryRefresh_def file_store_def Cache_WithLock_def Let_def split: option.splits prod.splits bool.splits)
    then show ?thesis
      using reaches_last [OF prep] reaches_last [OF timed_out, of os dir r e u]
      by (auto intro: reaches_trans)
  qed
qed

text \<open>
  C20: Every run of the runner over the file store is an execution of the steps, from the load to the
  same result and the same world, if the lock is free at its start: the steps leave nothing out.
\<close>

theorem run_is_steps:
  assumes "rn_Cache r = file_store os dir" "lockPath dir (rn_Issuer r) (rn_ClientID r) \<notin> set (locks w)" "Run r w = (x, w')"
  shows "\<exists>es. run_steps os dir r (Start, w) es (Finished x, w')"
proof -
  let ?i = "rn_Issuer r" and ?c = "rn_ClientID r"
  obtain l w1 where l: "Load (rn_Cache r) ?i ?c w = (l, w1)" by (cases "Load (rn_Cache r) ?i ?c w")
  then have free: "lockPath dir ?i ?c \<notin> set (locks w1)" using assms(1,2) by (simp add: file_store_def frame_locks)
  note first = reaches_more [OF start [OF l, of os dir]]
  have "reaches os dir r (Start, w) (Finished x, w')"
  proof (cases "after_load r l w1")
    case (Waiting e)
    then have e: "l = Inr (Some e)" "\<not> entryValid (rn_now r w1) e" "e_RefreshToken e \<noteq> []"
      by (auto simp: after_load_def split: sum.splits option.splits if_splits)
    obtain y w2 where t: "tryRefresh r ?i ?c e w1 = (y, w2)" by (cases "tryRefresh r ?i ?c e w1")
    have "y = Inl err \<Longrightarrow> login r ?i ?c w2 = (x, w')" "y = Inr res \<Longrightarrow> x = Inr res \<and> w' = w2" for err res
      using assms(3) l e t by (simp_all add: Run_def)
    with tryRefresh_steps [OF t assms(1) free] show ?thesis
      using login_steps [of r w2 x w' os dir] first Waiting by (cases y) (fastforce dest: reaches_trans)+
  next
    case LoggingIn
    then have "login r ?i ?c w1 = (x, w')"
      using assms(3) l by (auto simp: Run_def after_load_def split: sum.splits option.splits if_splits)
    then show ?thesis using first LoggingIn login_steps by metis
  next
    case (Finished y)
    then have "y = x" "w1 = w'"
      using assms(3) l by (auto simp: Run_def after_load_def split: sum.splits option.splits if_splits)
    then show ?thesis using reaches_last [OF start [OF l, of os dir]] Finished by simp
  qed (auto simp: after_load_def split: sum.splits option.splits if_splits)
  then show ?thesis by (simp add: reaches_def)
qed

section \<open>Interleavings\<close>

text \<open>
  A process can be killed at any point; when it waits for the answer to its refresh, the request may have
  had its effect. The lock of a dead process is released by the operating system.
\<close>

definition release :: "string \<Rightarrow> run_pc \<Rightarrow> 'x world \<Rightarrow> 'x world" where
  "release lp pc w = (if critical pc then w\<lparr>locks := remove1 lp (locks w)\<rparr> else w)"

fun persisting :: "run_pc \<Rightarrow> bool" where
  "persisting (Persisting _) = True" | "persisting _ = False"

inductive kill_step ::
  "string \<Rightarrow> 'x world runner \<Rightarrow> run_pc \<times> 'x world \<Rightarrow> event list \<Rightarrow> run_pc \<times> 'x world \<Rightarrow> bool"
  for dir r where
  killed: "kill_step dir r (pc, w) (if persisting pc then [Astray] else [])
      (Killed, release (lockPath dir (rn_Issuer r) (rn_ClientID r)) pc w)"
| killed_refreshing: "ts_Refresh (rn_Source r) t w = (y, w1) \<Longrightarrow>
    kill_step dir r (Refreshing t, w) [Failed t]
      (Killed, release (lockPath dir (rn_Issuer r) (rn_ClientID r)) (Refreshing t) w1)"

text \<open>
  The runs of the processes, the world they share and what has happened to refresh tokens so far. Any
  process makes a step or is killed, or a profile is logged out.
\<close>

inductive sched_step ::
  "os \<Rightarrow> string \<Rightarrow> 'x world runner list \<Rightarrow> run_pc list \<times> 'x world \<times> event list \<Rightarrow> run_pc list \<times> 'x world \<times> event list \<Rightarrow> bool"
  for os dir rs where
  running: "n < length rs \<Longrightarrow> run_step os dir (rs ! n) (pcs ! n, w) es (pc', w') \<Longrightarrow>
    sched_step os dir rs (pcs, w, ev) (pcs[n := pc'], w', ev @ es)"
| dying: "n < length rs \<Longrightarrow> kill_step dir (rs ! n) (pcs ! n, w) es (pc', w') \<Longrightarrow>
    sched_step os dir rs (pcs, w, ev) (pcs[n := pc'], w', ev @ es)"
| logging_out: "Cache_Delete os dir i c w = (y, w') \<Longrightarrow> sched_step os dir rs (pcs, w, ev) (pcs, w', ev)"

section \<open>What a trace says of a token\<close>

text \<open>
  The tokens that were redeemed, those that were presented to the issuer, or may have been; and that
  a token that was redeemed was not presented again, neither with success nor in a request that failed.
\<close>

fun redeemed :: "event list \<Rightarrow> string list" where
  "redeemed [] = []"
| "redeemed (Redeemed t # ev) = t # redeemed ev"
| "redeemed (_ # ev) = redeemed ev"

fun presented :: "event list \<Rightarrow> string list" where
  "presented [] = []"
| "presented (Redeemed t # ev) = t # presented ev"
| "presented (Failed t # ev) = t # presented ev"
| "presented (Astray # ev) = presented ev"

fun spent_once :: "event list \<Rightarrow> bool" where
  "spent_once [] \<longleftrightarrow> True"
| "spent_once (Redeemed t # ev) \<longleftrightarrow> t \<notin> set (presented ev) \<and> spent_once ev"
| "spent_once (_ # ev) \<longleftrightarrow> spent_once ev"

lemma trace_append [simp]:
  "redeemed (ev @ es) = redeemed ev @ redeemed es" "presented (ev @ es) = presented ev @ presented es"
  by (induction ev rule: presented.induct) simp_all

lemma spent_once_append:
  "spent_once (ev @ es) \<longleftrightarrow> spent_once ev \<and> spent_once es \<and> set (redeemed ev) \<inter> set (presented es) = {}"
  by (induction ev rule: spent_once.induct) auto

lemma redeemed_presented: "set (redeemed ev) \<subseteq> set (presented ev)"
  by (induction ev rule: presented.induct) auto

text \<open>So it is redeemed once, and a token is presented again only after a refresh with it has failed.\<close>

lemma spent_once_distinct: "spent_once ev \<Longrightarrow> distinct (redeemed ev)"
  using redeemed_presented by (induction ev rule: spent_once.induct) fastforce+

lemma spent_once_presented:
  "spent_once ev \<Longrightarrow> \<forall>t. Failed t \<notin> set ev \<Longrightarrow> distinct (presented ev)"
  by (induction ev rule: presented.induct) auto

section \<open>A ledger of refresh tokens\<close>

text \<open>
  What the argument is about: \<open>k\<close> processes, process \<open>n\<close> with the token \<open>H n\<close> in its hands (or
  none), which is one it has just been given when \<open>N n\<close>; the stored token \<open>K\<close>; whether somebody is
  between redeeming and storing, \<open>P\<close>; the redeemed tokens \<open>R\<close> and those the issuer has issued, \<open>I\<close>.
\<close>

definition ledger :: "nat \<Rightarrow> (nat \<Rightarrow> string) \<Rightarrow> (nat \<Rightarrow> bool) \<Rightarrow> bool \<Rightarrow> string \<Rightarrow> string list \<Rightarrow> string set \<Rightarrow> bool" where
  "ledger k H N P K R I \<longleftrightarrow>
     distinct R \<and> set R \<subseteq> I \<and> (K \<noteq> [] \<longrightarrow> K \<in> I) \<and>
     (\<forall>n < k. H n \<noteq> [] \<longrightarrow> H n \<in> I \<and> H n \<notin> set R) \<and>
     (\<forall>m < k. \<forall>n < k. m \<noteq> n \<and> H m \<noteq> [] \<longrightarrow> H m \<noteq> H n) \<and>
     (\<forall>n < k. N n \<and> H n \<noteq> [] \<longrightarrow> H n \<noteq> K) \<and>
     (K \<noteq> [] \<and> \<not> P \<longrightarrow> K \<notin> set R)"

lemma ledgerI:
  assumes "distinct R" "set R \<subseteq> I" "K \<noteq> [] \<Longrightarrow> K \<in> I"
    "\<And>n. n < k \<Longrightarrow> H n \<noteq> [] \<Longrightarrow> H n \<in> I" "\<And>n. n < k \<Longrightarrow> H n \<noteq> [] \<Longrightarrow> H n \<notin> set R"
    "\<And>m n. m < k \<Longrightarrow> n < k \<Longrightarrow> m \<noteq> n \<Longrightarrow> H m \<noteq> [] \<Longrightarrow> H m \<noteq> H n"
    "\<And>n. n < k \<Longrightarrow> N n \<Longrightarrow> H n \<noteq> [] \<Longrightarrow> H n \<noteq> K" "K \<noteq> [] \<Longrightarrow> \<not> P \<Longrightarrow> K \<notin> set R"
  shows "ledger k H N P K R I"
  using assms unfolding ledger_def by blast

lemma ledgerD:
  assumes "ledger k H N P K R I"
  shows "distinct R" "set R \<subseteq> I" "K \<noteq> [] \<Longrightarrow> K \<in> I"
    "\<And>n. n < k \<Longrightarrow> H n \<noteq> [] \<Longrightarrow> H n \<in> I" "\<And>n. n < k \<Longrightarrow> H n \<noteq> [] \<Longrightarrow> H n \<notin> set R"
    "\<And>m n. m < k \<Longrightarrow> n < k \<Longrightarrow> m \<noteq> n \<Longrightarrow> H m \<noteq> [] \<Longrightarrow> H m \<noteq> H n"
    "\<And>n. n < k \<Longrightarrow> N n \<Longrightarrow> H n \<noteq> [] \<Longrightarrow> H n \<noteq> K" "K \<noteq> [] \<Longrightarrow> \<not> P \<Longrightarrow> K \<notin> set R"
  using assms unfolding ledger_def by blast+

lemma ledger_cong:
  "ledger k H N P K R I \<Longrightarrow> (\<And>n. n < k \<Longrightarrow> H' n = H n \<and> N' n = N n) \<Longrightarrow> ledger k H' N' P K R I"
  by (simp add: ledger_def)

text \<open>
  A process lets go of its token; it gets a new one; it reads the stored one under the lock, when nobody
  holds one that is not new; it redeems it; it stores a new one; the stored one is deleted.
\<close>

lemma ledger_drop: "ledger k H N P K R I \<Longrightarrow> I \<subseteq> I' \<Longrightarrow> ledger k (H(n := [])) (N(n := b)) P K R I'"
  by (auto simp: ledger_def)

lemma ledger_mint:
  assumes l: "ledger k H N P K R I" and "I \<subseteq> I'" "h \<in> I'" "h \<notin> I"
  shows "ledger k (H(n := h)) (N(n := b)) P K R I'"
proof -
  note d = ledgerD [OF l]
  have "h \<notin> set R" "K \<noteq> [] \<Longrightarrow> h \<noteq> K" "\<And>m. m < k \<Longrightarrow> H m \<noteq> [] \<Longrightarrow> H m \<noteq> h"
    using d(2-4) assms(4) by auto
  then show ?thesis
    using d assms(2,3) by (intro ledgerI) (auto split: if_splits)
qed

lemma ledger_read:
  assumes l: "ledger k H N False K R I" and "K \<noteq> []" "\<And>m. m < k \<Longrightarrow> m \<noteq> n \<Longrightarrow> H m \<noteq> [] \<Longrightarrow> N m"
  shows "ledger k (H(n := K)) (N(n := False)) False K R I"
proof -
  note d = ledgerD [OF l]
  have "\<And>m. m < k \<Longrightarrow> m \<noteq> n \<Longrightarrow> H m \<noteq> [] \<Longrightarrow> H m \<noteq> K" using d(7) assms(3) by blast
  then show ?thesis
    using d(1-6) d(7,8) assms(2) by (intro ledgerI) (auto split: if_splits)
qed

lemma ledger_redeem:
  assumes l: "ledger k H N P K R I" and n: "n < k" "H n \<noteq> []" and "I \<subseteq> I'" "h \<in> I'" "h \<notin> I"
  shows "ledger k (H(n := h)) (N(n := True)) True K (R @ [H n]) I'"
proof -
  note d = ledgerD [OF l]
  have "h \<notin> set R" "K \<noteq> [] \<Longrightarrow> h \<noteq> K" "\<And>m. m < k \<Longrightarrow> H m \<noteq> [] \<Longrightarrow> H m \<noteq> h" "H n \<in> I" "H n \<notin> set R" "H n \<noteq> h"
    using d(2-5) assms(6) n by auto
  then show ?thesis
    using d assms(2-5) by (intro ledgerI) (auto split: if_splits)
qed

lemma ledger_store:
  assumes l: "ledger k H N P K R I" and n: "n < k"
  shows "ledger k (H(n := [])) (N(n := False)) P' (H n) R I"
proof -
  note d = ledgerD [OF l]
  have "\<And>m. m < k \<Longrightarrow> m \<noteq> n \<Longrightarrow> H m \<noteq> [] \<Longrightarrow> H m \<noteq> H n" using d(6) n by blast
  then show ?thesis
    using d n by (intro ledgerI) (auto split: if_splits)
qed

lemma ledger_delete: "ledger k H N P K R I \<Longrightarrow> ledger k H N P [] R I"
  by (simp add: ledger_def)

section \<open>The interleavings keep the ledger\<close>

fun held :: "run_pc \<Rightarrow> string" where
  "held (Refreshing t) = t" | "held (Persisting res) = r_RefreshToken res" | "held (Storing res) = r_RefreshToken res"
| "held _ = []"

fun newly :: "run_pc \<Rightarrow> bool" where
  "newly (Persisting _) = True" | "newly (Storing _) = True" | "newly _ = False"

fun result_ok :: "string \<Rightarrow> string \<Rightarrow> run_pc \<Rightarrow> bool" where
  "result_ok i c (Persisting res) \<longleftrightarrow> storable (result_entry i c res)"
| "result_ok i c (Storing res) \<longleftrightarrow> storable (result_entry i c res)"
| "result_ok i c (Refreshing t) \<longleftrightarrow> t \<noteq> []"
| "result_ok i c _ \<longleftrightarrow> True"

definition stored_token :: "string \<Rightarrow> string \<Rightarrow> string \<Rightarrow> 'x world \<Rightarrow> string" where
  "stored_token dir i c w = (case file_view dir w (profileKey i c) of None \<Rightarrow> [] | Some e \<Rightarrow> e_RefreshToken e)"

text \<open>
  The processes run for one profile with one cache directory. The issuer rotates: every answer has a
  refresh token that was never issued before (a login may come without one). Only the store touches
  the files and the locks. What the sources need of the rest of the world, and keep, is \<open>ok\<close>.
\<close>

definition apart :: "('x \<Rightarrow> string set) \<Rightarrow> 'x world \<Rightarrow> 'x world \<Rightarrow> bool" where
  "apart issued w w' \<longleftrightarrow> contents w' = contents w \<and> locks w' = locks w \<and> issued (outside w) \<subseteq> issued (outside w')"

definition unseen :: "('x \<Rightarrow> string set) \<Rightarrow> 'x world \<Rightarrow> 'x world \<Rightarrow> string \<Rightarrow> bool" where
  "unseen issued w w' t \<longleftrightarrow> t \<in> issued (outside w') \<and> t \<notin> issued (outside w)"

definition refresh_rotates :: "('x \<Rightarrow> string set) \<Rightarrow> ('x \<Rightarrow> bool) \<Rightarrow> string \<Rightarrow> string \<Rightarrow> 'x world token_source \<Rightarrow> bool" where
  "refresh_rotates issued ok i c src \<longleftrightarrow> (\<forall>t w y w'. ok (outside w) \<longrightarrow> ts_Refresh src t w = (y, w') \<longrightarrow> ok (outside w') \<and> apart issued w w' \<and>
     (case y of Inl _ \<Rightarrow> True | Inr res \<Rightarrow> storable (result_entry i c res) \<and> r_RefreshToken res \<noteq> [] \<and>
        unseen issued w w' (r_RefreshToken res)))"

definition login_mints :: "('x \<Rightarrow> string set) \<Rightarrow> ('x \<Rightarrow> bool) \<Rightarrow> string \<Rightarrow> string \<Rightarrow> 'x world token_source \<Rightarrow> bool" where
  "login_mints issued ok i c src \<longleftrightarrow> (\<forall>w y w'. ok (outside w) \<longrightarrow> ts_Login src w = (y, w') \<longrightarrow> ok (outside w') \<and> apart issued w w' \<and>
     (case y of Inl _ \<Rightarrow> True | Inr res \<Rightarrow> storable (result_entry i c res) \<and>
        (r_RefreshToken res = [] \<or> unseen issued w w' (r_RefreshToken res))))"

definition only_warns :: "'x world runner \<Rightarrow> bool" where
  "only_warns r \<longleftrightarrow> (\<forall>l w. contents (warn r l w) = contents w \<and> locks (warn r l w) = locks w \<and> outside (warn r l w) = outside w)"

definition rotating :: "('x \<Rightarrow> string set) \<Rightarrow> ('x \<Rightarrow> bool) \<Rightarrow> os \<Rightarrow> string \<Rightarrow> string \<Rightarrow> string \<Rightarrow> 'x world runner \<Rightarrow> bool" where
  "rotating issued ok os dir i c r \<longleftrightarrow>
     rn_Cache r = file_store os dir \<and> rn_Issuer r = i \<and> rn_ClientID r = c \<and>
     refresh_rotates issued ok i c (rn_Source r) \<and> login_mints issued ok i c (rn_Source r) \<and> only_warns r"

lemma refresh_rotatesD:
  assumes "refresh_rotates issued ok i c src" "ok (outside w)" "ts_Refresh src t w = (y, w')"
  shows "apart issued w w'" "ok (outside w')" "y = Inr res \<Longrightarrow> storable (result_entry i c res) \<and> r_RefreshToken res \<noteq> [] \<and> unseen issued w w' (r_RefreshToken res)"
  using assms unfolding refresh_rotates_def by fastforce+

lemma login_mintsD:
  assumes "login_mints issued ok i c src" "ok (outside w)" "ts_Login src w = (y, w')"
  shows "apart issued w w'" "ok (outside w')" "y = Inr res \<Longrightarrow> storable (result_entry i c res) \<and> (r_RefreshToken res = [] \<or> unseen issued w w' (r_RefreshToken res))"
  using assms unfolding login_mints_def by fastforce+

lemma rotatingD:
  assumes "rotating issued ok os dir i c r"
  shows "rn_Cache r = file_store os dir" "rn_Issuer r = i" "rn_ClientID r = c"
    "refresh_rotates issued ok i c (rn_Source r)" "login_mints issued ok i c (rn_Source r)"
    "contents (warn r l w) = contents w" "locks (warn r l w) = locks w" "outside (warn r l w) = outside w"
  using assms by (simp_all add: rotating_def only_warns_def)

lemma checkIDToken_frame:
  assumes "rotating issued ok os dir i c r" "checkIDToken r res w = (y, w')"
  shows "contents w' = contents w" "locks w' = locks w" "outside w' = outside w"
  using assms(2) rotatingD(6-8) [OF assms(1)]
  by (auto simp: checkIDToken_def split: option.splits if_splits)

text \<open>The store leaves the locks and the outside alone.\<close>

lemma sys_locks:
  "MkdirAll os p m w = (r2, w') \<Longrightarrow> locks w' = locks w"
  "Chmod os p m w = (r3, w') \<Longrightarrow> locks w' = locks w"
  "CreateTemp os p w = (r4, w') \<Longrightarrow> locks w' = locks w"
  "Write os p b w = (r5, w') \<Longrightarrow> locks w' = locks w"
  "Close os p w = (r6, w') \<Longrightarrow> locks w' = locks w"
  "Rename os p d w = (r7, w') \<Longrightarrow> locks w' = locks w"
  "Remove os p w = (r8, w') \<Longrightarrow> locks w' = locks w"
  by (auto simp: sys_defs advance_def append_bytes_def Let_def split: option.splits sum.splits prod.splits if_splits)

lemma fill_and_rename_locks: "fill_and_rename os tmp d b w = (r, w') \<Longrightarrow> locks w' = locks w"
  by (auto simp: fill_and_rename_def try_sys_def split: prod.splits sum.splits)
     (metis sys_locks surjective_pairing)+

lemma Cache_Delete_locks: "Cache_Delete os dir i c w = (r, w') \<Longrightarrow> locks w' = locks w"
  by (auto simp: Cache_Delete_def dest: sys_locks split: prod.splits sum.splits)

lemma Remove_locks: "locks (snd (Remove os p w)) = locks w"
  using sys_locks(7) [of os p w] by (cases "Remove os p w") simp

lemma Cache_Save_locks: "Cache_Save os dir e w = (r, w') \<Longrightarrow> locks w' = locks w"
  by (auto simp: Cache_Save_def try_sys_def Let_def Remove_locks split: prod.splits sum.splits option.splits
      dest!: fill_and_rename_locks ensureDir_locks sys_locks(3))

lemma persist_frame:
  assumes "rotating issued ok os dir i c r" "persist r i' c' res w = (y, w')"
  shows "locks w' = locks w" "outside w' = outside w"
  using assms rotatingD(1) [OF assms(1)] Cache_Save_locks Cache_Save_outside
  by (auto simp: persist_def file_store_def)

section \<open>Mutual exclusion\<close>

text \<open>What a step does to the lock: nothing, taking it when it is free, releasing it.\<close>

lemma run_step_lock:
  assumes "run_step os dir r (pc, w) es (pc', w')" "rotating issued ok os dir i c r" "ok (outside w)"
  shows "(critical pc' = critical pc \<and> locks w' = locks w) \<or>
    (\<not> critical pc \<and> critical pc' \<and> lockPath dir i c \<notin> set (locks w) \<and> locks w' = lockPath dir i c # locks w) \<or>
    (critical pc \<and> \<not> critical pc' \<and> locks w' = remove1 (lockPath dir i c) (locks w))"
  using assms(1)
proof (cases rule: run_step.cases)
  case (start y)
  then show ?thesis
    using rotatingD(1) [OF assms(2)]
    by (auto simp: after_load_def file_store_def frame_locks split: sum.splits option.splits if_splits)
next
  case (prepared y e)
  then show ?thesis by (auto simp: ensureDir_locks)
next
  case (reloaded y w1 e)
  then show ?thesis
    using rotatingD(1-3) [OF assms(2)] by (auto simp: unlock_def file_store_def frame_locks)
next
  case (not_refreshed t err w1)
  then show ?thesis
    using refresh_rotatesD(1) [OF rotatingD(4) [OF assms(2)] assms(3)] rotatingD(2,3) [OF assms(2)]
    by (auto simp: unlock_def apart_def)
next
  case (refreshed t res w1)
  then show ?thesis
    using refresh_rotatesD(1) [OF rotatingD(4) [OF assms(2)] assms(3)] checkIDToken_frame [OF assms(2)]
    by (auto simp: apart_def)
next
  case (unverified t res w1 err w2)
  then show ?thesis
    using refresh_rotatesD(1) [OF rotatingD(4) [OF assms(2)] assms(3)] checkIDToken_frame [OF assms(2)] rotatingD(2,3) [OF assms(2)]
    by (auto simp: unlock_def apart_def)
next
  case (persisted res y w1)
  then show ?thesis
    using persist_frame [OF assms(2)] rotatingD(2,3) [OF assms(2)] by (auto simp: unlock_def)
next
  case (not_logged_in err)
  then show ?thesis
    using login_mintsD(1) [OF rotatingD(5) [OF assms(2)] assms(3)] by (auto simp: apart_def)
next
  case (invalid_login res w1 err)
  then show ?thesis
    using login_mintsD(1) [OF rotatingD(5) [OF assms(2)] assms(3)] checkIDToken_frame [OF assms(2)] by (auto simp: apart_def)
next
  case (logged_in res w1 w2)
  then show ?thesis
    using login_mintsD(1) [OF rotatingD(5) [OF assms(2)] assms(3)] checkIDToken_frame [OF assms(2)] rotatingD(7) [OF assms(2)]
    by (auto simp: apart_def)
next
  case (stored res y)
  then show ?thesis using persist_frame [OF assms(2)] rotatingD(2,3) [OF assms(2)] by auto
qed (use rotatingD(2,3) [OF assms(2)] in \<open>auto simp: advance_def\<close>)

text \<open>What the sources need stays so.\<close>

lemma run_step_ok:
  assumes "run_step os dir r (pc, w) es (pc', w')" "rotating issued ok os dir i c r" "ok (outside w)"
  shows "ok (outside w')"
  using assms(1)
proof (cases rule: run_step.cases)
  case (start y)
  then show ?thesis using rotatingD(1) [OF assms(2)] assms(3) by (auto simp: file_store_def Cache_Load_outside)
next
  case (prepared y e)
  then show ?thesis using assms(3) by (simp add: ensureDir_outside)
next
  case (reloaded y w1 e)
  then show ?thesis using rotatingD(1) [OF assms(2)] assms(3) by (auto simp: unlock_def file_store_def Cache_Load_outside)
next
  case (not_refreshed t err w1)
  then show ?thesis using refresh_rotatesD(2) [OF rotatingD(4) [OF assms(2)] assms(3)] by (simp add: unlock_def)
next
  case (refreshed t res w1)
  then show ?thesis
    using refresh_rotatesD(2) [OF rotatingD(4) [OF assms(2)] assms(3)] checkIDToken_frame(3) [OF assms(2)] by metis
next
  case (unverified t res w1 err w2)
  then show ?thesis
    using refresh_rotatesD(2) [OF rotatingD(4) [OF assms(2)] assms(3)] checkIDToken_frame(3) [OF assms(2)]
    by (simp add: unlock_def)
next
  case (persisted res y w1)
  then show ?thesis using persist_frame(2) [OF assms(2)] assms(3) by (simp add: unlock_def)
next
  case (not_logged_in err)
  then show ?thesis using login_mintsD(2) [OF rotatingD(5) [OF assms(2)] assms(3)] by simp
next
  case (invalid_login res w1 err)
  then show ?thesis
    using login_mintsD(2) [OF rotatingD(5) [OF assms(2)] assms(3)] checkIDToken_frame(3) [OF assms(2)] by metis
next
  case (logged_in res w1 w2)
  then show ?thesis
    using login_mintsD(2) [OF rotatingD(5) [OF assms(2)] assms(3)] checkIDToken_frame(3) [OF assms(2)] rotatingD(8) [OF assms(2)]
    by metis
next
  case (stored res y)
  then show ?thesis using persist_frame(2) [OF assms(2)] assms(3) by simp
qed (use assms(3) in \<open>simp_all add: advance_def\<close>)

definition exclusive :: "string \<Rightarrow> run_pc list \<Rightarrow> 'x world \<Rightarrow> bool" where
  "exclusive lp pcs w \<longleftrightarrow> distinct (locks w) \<and>
     (\<forall>n < length pcs. critical (pcs ! n) \<longrightarrow> lp \<in> set (locks w)) \<and>
     (\<forall>m < length pcs. \<forall>n < length pcs. critical (pcs ! m) \<and> critical (pcs ! n) \<longrightarrow> m = n)"

lemma exclusive_step:
  assumes "run_step os dir r (pcs ! n, w) es (pc', w')" "rotating issued ok os dir i c r" "n < length pcs"
    and "exclusive (lockPath dir i c) pcs w" "ok (outside w)"
  shows "exclusive (lockPath dir i c) (pcs[n := pc']) w'"
  using run_step_lock [OF assms(1,2,5)] assms(3,4) unfolding exclusive_def
  by (elim disjE) (auto simp: nth_list_update set_remove1_eq)

section \<open>The stored token\<close>

lemma stored_token_same: "contents w' = contents w \<Longrightarrow> stored_token dir i c w' = stored_token dir i c w"
  by (simp add: stored_token_def file_view_def)

lemma stored_token_read:
  "Cache_Load os dir i c w = (Inr (Some e), w') \<Longrightarrow> stored_token dir i c w = e_RefreshToken e"
  by (auto simp: stored_token_def file_view_path Cache_Load_def dest: ReadFile_content split: prod.splits sum.splits if_splits)

lemma stored_token_saved:
  assumes "Cache_Save os dir (result_entry i c res) w = (None, w')" "storable (result_entry i c res)"
  shows "stored_token dir i c w' = r_RefreshToken res"
proof -
  obtain b where "Marshal_Entry (result_entry i c res) = Inr b" "contents w' = (contents w)(path dir i c \<mapsto> b)"
    using Cache_Save_contents [OF assms(1)] by auto
  with entry_roundtrip [OF assms(2)] show ?thesis by (simp add: stored_token_def file_view_path)
qed

lemma stored_token_unsaved:
  "Cache_Save os dir e w = (Some err, w') \<Longrightarrow> stored_token dir i c w' = stored_token dir i c w"
  by (drule Cache_Save_contents) (simp add: stored_token_def file_view_def)

lemma stored_token_deleted:
  assumes "Cache_Delete os dir i' c' w = (y, w')"
  shows "stored_token dir i c w' = stored_token dir i c w \<or> stored_token dir i c w' = []"
proof -
  obtain r v where rm: "Remove os (path dir i' c') w = (r, v)" by (cases "Remove os (path dir i' c') w")
  then have "contents w' (path dir i c) = contents w (path dir i c) \<or> contents w' (path dir i c) = None"
    using contents_Remove [OF rm] assms by (auto simp: Cache_Delete_def split: sum.splits if_splits)
  then show ?thesis by (auto simp: stored_token_def file_view_path)
qed

section \<open>The ledger of an interleaving\<close>

definition ledger_of :: "('x \<Rightarrow> string set) \<Rightarrow> string \<Rightarrow> string \<Rightarrow> string \<Rightarrow> run_pc list \<Rightarrow> 'x world \<Rightarrow> event list \<Rightarrow> bool" where
  "ledger_of issued dir i c pcs w ev \<longleftrightarrow>
     ledger (length pcs) (\<lambda>n. held (pcs ! n)) (\<lambda>n. newly (pcs ! n)) (\<exists>n < length pcs. persisting (pcs ! n))
       (stored_token dir i c w) (redeemed ev) (issued (outside w))"

lemma ledger_ofI:
  assumes "ledger (length pcs) ((\<lambda>m. held (pcs ! m))(n := held pc')) ((\<lambda>m. newly (pcs ! m))(n := newly pc')) P
      (stored_token dir i c w') (redeemed ev') (issued (outside w'))"
    and "n < length pcs" "P \<longleftrightarrow> (\<exists>m < length pcs. persisting (pcs[n := pc'] ! m))"
  shows "ledger_of issued dir i c (pcs[n := pc']) w' ev'"
  unfolding ledger_of_def length_list_update assms(3) [symmetric]
  by (rule ledger_cong [OF assms(1)]) (simp add: nth_list_update)

lemma persisting_same:
  assumes "\<not> persisting pc'" "\<not> persisting (pcs ! n)"
  shows "(\<exists>m < length pcs. persisting (pcs ! m)) \<longleftrightarrow> (\<exists>m < length pcs. persisting (pcs[n := pc'] ! m))"
  using assms by (metis nth_list_update nth_list_update_neq)

text \<open>A step after which the process holds nothing.\<close>

lemma ledger_of_drop:
  assumes "ledger_of issued dir i c pcs w ev" "n < length pcs" "held pc' = []" "\<not> persisting pc'" "\<not> persisting (pcs ! n)"
    and "stored_token dir i c w' = stored_token dir i c w" "issued (outside w) \<subseteq> issued (outside w')" "redeemed ev' = redeemed ev"
  shows "ledger_of issued dir i c (pcs[n := pc']) w' ev'"
proof (rule ledger_ofI [OF _ assms(2) persisting_same [OF assms(4,5)]])
  show "ledger (length pcs) ((\<lambda>m. held (pcs ! m))(n := held pc')) ((\<lambda>m. newly (pcs ! m))(n := newly pc'))
      (\<exists>m < length pcs. persisting (pcs ! m)) (stored_token dir i c w') (redeemed ev') (issued (outside w'))"
    unfolding assms(3,6,8) by (rule ledger_drop [OF assms(1) [unfolded ledger_of_def] assms(7)])
qed

lemma ledger_of_quiet:
  assumes "ledger_of issued dir i c pcs w ev" "n < length pcs" "held pc' = []" "\<not> persisting pc'" "\<not> persisting (pcs ! n)"
    and "contents w' = contents w" "issued (outside w) \<subseteq> issued (outside w')" "redeemed ev' = redeemed ev"
  shows "ledger_of issued dir i c (pcs[n := pc']) w' ev'"
  by (rule ledger_of_drop [OF assms(1-5) stored_token_same [OF assms(6)] assms(7,8)])

text \<open>A step that stores the token the process holds.\<close>

lemma ledger_of_store:
  assumes "ledger_of issued dir i c pcs w ev" "n < length pcs" "held pc' = []" "\<not> newly pc'"
    and "stored_token dir i c w' = held (pcs ! n)" "outside w' = outside w" "redeemed ev' = redeemed ev"
  shows "ledger_of issued dir i c (pcs[n := pc']) w' ev'"
  using ledger_store [OF assms(1) [unfolded ledger_of_def] assms(2)] assms(3-)
  by (intro ledger_ofI [OF _ assms(2) refl]) simp

lemma held_after_load: "held (after_load r y w) = []" "\<not> persisting (after_load r y w)"
  by (auto simp: after_load_def split: sum.splits option.splits)

lemma critical_alone:
  assumes "exclusive lp pcs w" "n < length pcs" "critical (pcs ! n)" "m < length pcs" "m \<noteq> n"
  shows "\<not> critical (pcs ! m)"
  using assms unfolding exclusive_def by blast

lemma noncritical_held: "\<not> critical pc \<Longrightarrow> held pc \<noteq> [] \<Longrightarrow> newly pc" "\<not> critical pc \<Longrightarrow> \<not> persisting pc"
  by (cases pc; simp)+

lemma ledger_of_read:
  assumes "ledger_of issued dir i c pcs w ev" "exclusive lp pcs w" "n < length pcs" "pcs ! n = Locked e"
    and "stored_token dir i c w = t" "t \<noteq> []" "stored_token dir i c w' = t" "outside w' = outside w"
  shows "ledger_of issued dir i c (pcs[n := Refreshing t]) w' ev"
proof -
  have alone: "\<not> critical (pcs ! m)" if "m < length pcs" "m \<noteq> n" for m
    using critical_alone [OF assms(2,3) _ that] assms(4) by simp
  have P: "(\<exists>m < length pcs. persisting (pcs ! m)) = False"
  proof -
    have "\<not> persisting (pcs ! m)" if "m < length pcs" for m
      using alone [OF that] noncritical_held(2) assms(4) by (cases "m = n") simp_all
    then show ?thesis by blast
  qed
  have P': "False \<longleftrightarrow> (\<exists>m < length pcs. persisting (pcs[n := Refreshing t] ! m))"
    using persisting_same [of "Refreshing t" pcs n] P assms(4) by simp
  note l = assms(1) [unfolded ledger_of_def P]
  have "ledger (length pcs) ((\<lambda>m. held (pcs ! m))(n := t)) ((\<lambda>m. newly (pcs ! m))(n := False)) False
      (stored_token dir i c w') (redeemed ev) (issued (outside w'))"
    unfolding assms(7,8)
    by (rule ledger_read [OF l [unfolded assms(5)] assms(6)]) (use alone noncritical_held(1) in blast)
  then show ?thesis by (intro ledger_ofI [OF _ assms(3) P']) simp
qed

lemma ledger_of_redeem:
  assumes "ledger_of issued dir i c pcs w ev" "n < length pcs" "pcs ! n = Refreshing t" "t \<noteq> []"
    and "unseen issued w w' (r_RefreshToken res)" "stored_token dir i c w' = stored_token dir i c w"
    and "issued (outside w) \<subseteq> issued (outside w')"
  shows "ledger_of issued dir i c (pcs[n := Persisting res]) w' (ev @ [Redeemed t])"
proof -
  have P: "True \<longleftrightarrow> (\<exists>m < length pcs. persisting (pcs[n := Persisting res] ! m))"
    using assms(2) by (auto intro!: exI [of _ n])
  have "held (pcs ! n) \<noteq> []" using assms(3,4) by simp
  from ledger_redeem [OF assms(1) [unfolded ledger_of_def] assms(2) this assms(7)]
  have "ledger (length pcs) ((\<lambda>m. held (pcs ! m))(n := r_RefreshToken res)) ((\<lambda>m. newly (pcs ! m))(n := True)) True
      (stored_token dir i c w') (redeemed (ev @ [Redeemed t])) (issued (outside w'))"
    using assms(3,5,6) by (simp add: unseen_def)
  then show ?thesis by (intro ledger_ofI [OF _ assms(2) P]) simp
qed

lemma ledger_of_mint:
  assumes "ledger_of issued dir i c pcs w ev" "n < length pcs" "pcs ! n = LoggingIn"
    and "r_RefreshToken res = [] \<or> unseen issued w w' (r_RefreshToken res)" "stored_token dir i c w' = stored_token dir i c w"
    and "issued (outside w) \<subseteq> issued (outside w')"
  shows "ledger_of issued dir i c (pcs[n := Storing res]) w' ev"
proof -
  let ?P = "\<exists>m < length pcs. persisting (pcs ! m)"
  have "ledger (length pcs) ((\<lambda>m. held (pcs ! m))(n := r_RefreshToken res)) ((\<lambda>m. newly (pcs ! m))(n := True)) ?P
      (stored_token dir i c w') (redeemed ev) (issued (outside w'))"
    using ledger_mint [OF assms(1) [unfolded ledger_of_def] assms(6)] ledger_drop [OF assms(1) [unfolded ledger_of_def] assms(6)] assms(4)
    by (auto simp: assms(5) unseen_def)
  then show ?thesis
    by (intro ledger_ofI [OF _ assms(2) persisting_same]) (simp_all add: assms(3))
qed

lemma run_step_result_ok:
  assumes "run_step os dir r (pc, w) es (pc', w')" "rotating issued ok os dir i c r" "result_ok i c pc" "ok (outside w)"
  shows "result_ok i c pc'"
  using assms(1)
proof (cases rule: run_step.cases)
  case (refreshed t res w1)
  then show ?thesis
    using refresh_rotatesD(3) [OF rotatingD(4) [OF assms(2)] assms(4) refreshed(4) refl] by (simp add: kept_token_def)
next
  case (logged_in res w1 w2)
  then show ?thesis using login_mintsD(3) [OF rotatingD(5) [OF assms(2)] assms(4) logged_in(5) refl] by simp
qed (auto simp: after_load_def after_reload_def refresh_or_login_def split: sum.splits option.splits if_splits)

text \<open>As long as no process goes astray, every step is one of the ledger.\<close>

lemma ledger_of_step:
  assumes step: "run_step os dir r (pcs ! n, w) es (pc', w')" and rot: "rotating issued ok os dir i c r" and n: "n < length pcs"
    and ex: "exclusive lp pcs w" and ok: "result_ok i c (pcs ! n)" and astray: "Astray \<notin> set es" and fit: "ok (outside w)"
    and l: "ledger_of issued dir i c pcs w ev"
  shows "ledger_of issued dir i c (pcs[n := pc']) w' (ev @ es)"
  using step
proof (cases rule: run_step.cases)
  case (start y)
  then have ld: "Cache_Load os dir i c w = (y, w')" using rotatingD(1-3) [OF rot] by (simp add: file_store_def)
  show ?thesis
    using start Cache_Load_contents [OF ld] Cache_Load_outside [OF ld]
    by (intro ledger_of_quiet [OF l n]) (simp_all add: held_after_load)
next
  case (prepared y e)
  then show ?thesis
    using contents_ensureDir [OF prepared(4)] ensureDir_outside [OF prepared(4)] by (intro ledger_of_quiet [OF l n]) simp_all
next
  case (locked e)
  then show ?thesis by (intro ledger_of_quiet [OF l n]) (simp_all add: advance_def contents_def fun_eq_iff)
next
  case (timed_out e)
  then show ?thesis by (intro ledger_of_quiet [OF l n]) (simp_all add: advance_def contents_def fun_eq_iff)
next
  case (reloaded y w1 e)
  then have ld: "Cache_Load os dir i c w = (y, w1)" using rotatingD(1-3) [OF rot] by (simp add: file_store_def)
  obtain fresh where y: "y = Inr (Some fresh)"
    using reloaded(2) astray by (auto split: sum.splits option.splits)
  have same: "contents w' = contents w" "outside w' = outside w"
    using reloaded(3) Cache_Load_contents [OF ld] Cache_Load_outside [OF ld] by (simp_all add: unlock_def contents_def)
  have tok: "stored_token dir i c w = e_RefreshToken fresh" using stored_token_read ld y by blast
  then have tok': "stored_token dir i c w' = e_RefreshToken fresh" using stored_token_same [OF same(1)] by simp
  show ?thesis
  proof (cases "pc' = Refreshing (e_RefreshToken fresh) \<and> e_RefreshToken fresh \<noteq> []")
    case True
    have "es = []" using reloaded(2) by (simp add: y)
    then show ?thesis
      using ledger_of_read [OF l ex n reloaded(1) tok _ tok' same(2)] True by (simp only: append_Nil2 not_False_eq_True)
  next
    case False
    have "pc' = Finished (Inr (entryResult fresh)) \<or> pc' = LoggingIn"
      using False unfolding reloaded(5) y after_reload_def refresh_or_login_def
      by (cases "entryValid (rn_now r w1) fresh"; cases "e_RefreshToken fresh = []") simp_all
    then have "held pc' = []" "\<not> persisting pc'" by auto
    then show ?thesis using reloaded(1,2) y same by (intro ledger_of_quiet [OF l n]) simp_all
  qed
next
  case (not_refreshed t err w1)
  then show ?thesis
    using refresh_rotatesD(1) [OF rotatingD(4) [OF rot] fit not_refreshed(5)]
    by (intro ledger_of_quiet [OF l n]) (simp_all add: apart_def unlock_def)
next
  case (refreshed t res w1)
  have fresh: "kept_token t res = res" "unseen issued w w1 (r_RefreshToken res)" "apart issued w w1"
    using refresh_rotatesD [OF rotatingD(4) [OF rot] fit refreshed(4)] by (simp_all add: kept_token_def)
  note chk = checkIDToken_frame [OF rot refreshed(5)]
  have "contents w' = contents w" using fresh(3) chk(1) by (simp add: apart_def)
  then have "ledger_of issued dir i c (pcs[n := Persisting res]) w' (ev @ [Redeemed t])"
    using fresh(2,3) ok refreshed(1) chk(3)
    by (intro ledger_of_redeem [OF l n refreshed(1) _ _ stored_token_same]) (simp_all add: unseen_def apart_def)
  then show ?thesis using refreshed(2,3) fresh(1) by simp
next
  case (persisted res y w1)
  then have y: "y = None" using astray by (auto split: if_splits)
  then have "Cache_Save os dir (result_entry i c res) w = (None, w1)"
    using persisted(4) rotatingD(1-3) [OF rot] by (simp add: persist_def file_store_def)
  then have "stored_token dir i c w1 = r_RefreshToken res" using stored_token_saved ok persisted(1) by simp
  moreover have "stored_token dir i c w' = stored_token dir i c w1"
    using persisted(3) by (intro stored_token_same) (simp add: unlock_def)
  moreover have "outside w' = outside w" using persisted(3) persist_frame(2) [OF rot persisted(4)] by (simp add: unlock_def)
  ultimately show ?thesis using persisted(1,2,5) y by (intro ledger_of_store [OF l n]) simp_all
next
  case (not_logged_in err)
  then show ?thesis
    using login_mintsD(1) [OF rotatingD(5) [OF rot] fit not_logged_in(4)]
    by (intro ledger_of_quiet [OF l n]) (simp_all add: apart_def)
next
  case (invalid_login res w1 err)
  then show ?thesis
    using login_mintsD(1) [OF rotatingD(5) [OF rot] fit invalid_login(4)] checkIDToken_frame [OF rot invalid_login(5)]
    by (intro ledger_of_quiet [OF l n]) (simp_all add: apart_def)
next
  case (logged_in res w1 w2)
  note chk = checkIDToken_frame [OF rot logged_in(6)] and login = login_mintsD [OF rotatingD(5) [OF rot] fit logged_in(5)]
  have same: "contents w' = contents w" "outside w' = outside w1"
    using logged_in(4) chk login(1) rotatingD(6,8) [OF rot] by (simp_all add: apart_def)
  then have "ledger_of issued dir i c (pcs[n := Storing res]) w' ev"
    using login by (intro ledger_of_mint [OF l n logged_in(1) _ stored_token_same]) (simp_all add: unseen_def apart_def)
  then show ?thesis using logged_in(2,3) by simp
next
  case (stored res y)
  then have sv: "Cache_Save os dir (result_entry i c res) w = (y, w')"
    using rotatingD(1-3) [OF rot] by (simp add: persist_def file_store_def)
  note out = persist_frame(2) [OF rot stored(4)]
  show ?thesis
  proof (cases y)
    case None
    then have "stored_token dir i c w' = r_RefreshToken res" using stored_token_saved sv ok stored(1) by simp
    then show ?thesis using stored(1-3) out by (intro ledger_of_store [OF l n]) simp_all
  next
    case (Some err)
    then have "stored_token dir i c w' = stored_token dir i c w" using stored_token_unsaved sv by blast
    then show ?thesis using stored(1-3) out by (intro ledger_of_drop [OF l n]) simp_all
  qed
qed (use astray in simp)

section \<open>A process that is killed\<close>

lemma kill_step_frame:
  assumes "kill_step dir r (pc, w) es (pc', w')" "rotating issued ok os dir i c r" "ok (outside w)"
  shows "pc' = Killed" "ok (outside w')" "contents w' = contents w" "issued (outside w) \<subseteq> issued (outside w')"
    "locks w' = (if critical pc then remove1 (lockPath dir i c) (locks w) else locks w)"
    "Astray \<notin> set es \<Longrightarrow> \<not> persisting pc" "redeemed es = []"
proof -
  have "pc' = Killed \<and> ok (outside w') \<and> contents w' = contents w \<and> issued (outside w) \<subseteq> issued (outside w') \<and>
      locks w' = (if critical pc then remove1 (lockPath dir i c) (locks w) else locks w) \<and>
      (Astray \<notin> set es \<longrightarrow> \<not> persisting pc) \<and> redeemed es = []"
    using assms(1)
  proof (cases rule: kill_step.cases)
    case killed
    then show ?thesis using assms(3) rotatingD(2,3) [OF assms(2)] by (simp add: release_def contents_def)
  next
    case (killed_refreshing t y w1)
    then show ?thesis
      using refresh_rotatesD(1,2) [OF rotatingD(4) [OF assms(2)] assms(3)] rotatingD(2,3) [OF assms(2)]
      by (simp add: release_def contents_def apart_def)
  qed
  then show "pc' = Killed" "ok (outside w')" "contents w' = contents w" "issued (outside w) \<subseteq> issued (outside w')"
    "locks w' = (if critical pc then remove1 (lockPath dir i c) (locks w) else locks w)"
    "Astray \<notin> set es \<Longrightarrow> \<not> persisting pc" "redeemed es = []" by simp_all
qed

lemma exclusive_kill:
  assumes "exclusive lp pcs w" "n < length pcs"
    and "locks w' = (if critical (pcs ! n) then remove1 lp (locks w) else locks w)"
  shows "exclusive lp (pcs[n := Killed]) w'"
  using assms unfolding exclusive_def by (auto simp: nth_list_update set_remove1_eq)

section \<open>What a step presents is the token the process holds\<close>

lemma run_step_presents:
  "run_step os dir r (pc, w) es (pc', w') \<Longrightarrow> spent_once es \<and> (\<forall>t \<in> set (presented es). pc = Refreshing t)"
  by (cases rule: run_step.cases) (auto split: sum.splits option.splits if_splits)

lemma kill_step_presents:
  "kill_step dir r (pc, w) es (pc', w') \<Longrightarrow> spent_once es \<and> (\<forall>t \<in> set (presented es). pc = Refreshing t)"
  by (cases rule: kill_step.cases) (auto split: if_splits)

lemma spent_once_step:
  assumes "ledger_of issued dir i c pcs w ev" "n < length pcs" "result_ok i c (pcs ! n)" "spent_once ev"
    and "spent_once es \<and> (\<forall>t \<in> set (presented es). pcs ! n = Refreshing t)"
  shows "spent_once (ev @ es)"
proof -
  have "t \<notin> set (redeemed ev)" if "t \<in> set (presented es)" for t
    using assms(1,2,3,5) that unfolding ledger_of_def ledger_def by fastforce
  then show ?thesis using assms(4,5) by (auto simp: spent_once_append)
qed

section \<open>No refresh token is presented again after it was redeemed\<close>

fun sched_ok :: "('x \<Rightarrow> string set) \<Rightarrow> ('x \<Rightarrow> bool) \<Rightarrow> string \<Rightarrow> string \<Rightarrow> string \<Rightarrow> nat \<Rightarrow> run_pc list \<times> 'x world \<times> event list \<Rightarrow> bool" where
  "sched_ok issued ok dir i c k (pcs, w, ev) \<longleftrightarrow>
     length pcs = k \<and> ok (outside w) \<and> exclusive (lockPath dir i c) pcs w \<and> (\<forall>n < k. result_ok i c (pcs ! n)) \<and>
     (Astray \<notin> set ev \<longrightarrow> ledger_of issued dir i c pcs w ev \<and> spent_once ev)"

lemma sched_ok_step:
  assumes "sched_step os dir rs s s'" "\<forall>r \<in> set rs. rotating issued ok os dir i c r" "sched_ok issued ok dir i c (length rs) s"
  shows "sched_ok issued ok dir i c (length rs) s'"
  using assms(1)
proof (cases rule: sched_step.cases)
  case (running n pcs w es pc' w' ev)
  have rot: "rotating issued ok os dir i c (rs ! n)" using assms(2) running(3) by simp
  have n: "n < length pcs" and ex: "exclusive (lockPath dir i c) pcs w" and ok: "result_ok i c (pcs ! n)"
    and fit: "ok (outside w)"
    using assms(3) running(1,3) by simp_all
  have "Astray \<notin> set (ev @ es) \<Longrightarrow> ledger_of issued dir i c (pcs[n := pc']) w' (ev @ es) \<and> spent_once (ev @ es)"
    using ledger_of_step [OF running(4) rot n ex ok _ fit] spent_once_step [of issued dir i c pcs w ev n es, OF _ n ok _ run_step_presents [OF running(4)]]
      assms(3) running(1) by simp
  moreover have "result_ok i c (pcs[n := pc'] ! m)" if "m < length rs" for m
    using run_step_result_ok [OF running(4) rot ok fit] assms(3) running(1) that by (cases "m = n") simp_all
  ultimately show ?thesis
    using exclusive_step [OF running(4) rot n ex fit] run_step_ok [OF running(4) rot fit] assms(3) running(1,2) by simp
next
  case (dying n pcs w es pc' w' ev)
  have rot: "rotating issued ok os dir i c (rs ! n)" using assms(2) dying(3) by simp
  have n: "n < length pcs" and ex: "exclusive (lockPath dir i c) pcs w" and ok: "result_ok i c (pcs ! n)"
    and fit: "ok (outside w)"
    using assms(3) dying(1,3) by simp_all
  note dead = kill_step_frame [OF dying(4) rot fit]
  have "Astray \<notin> set (ev @ es) \<Longrightarrow> ledger_of issued dir i c (pcs[n := pc']) w' (ev @ es) \<and> spent_once (ev @ es)"
    using ledger_of_quiet [OF _ n, of issued dir i c w ev pc' w' "ev @ es"] dead
      spent_once_step [of issued dir i c pcs w ev n es, OF _ n ok _ kill_step_presents [OF dying(4)]] assms(3) dying(1) by simp
  moreover have "result_ok i c (pcs[n := pc'] ! m)" if "m < length rs" for m
    using dead(1) assms(3) dying(1) that by (cases "m = n") simp_all
  ultimately show ?thesis
    using exclusive_kill [OF ex n dead(5)] dead(1,2) assms(3) dying(1,2) by simp
next
  case (logging_out i' c' w y w' pcs ev)
  have "exclusive (lockPath dir i c) pcs w'"
    using assms(3) logging_out(1) Cache_Delete_locks [OF logging_out(3)] by (simp add: exclusive_def)
  moreover have "ledger_of issued dir i c pcs w' ev" if "ledger_of issued dir i c pcs w ev"
    using stored_token_deleted [OF logging_out(3), of i c] Cache_Delete_outside [OF logging_out(3)] that ledger_delete
    unfolding ledger_of_def by fastforce
  ultimately show ?thesis using assms(3) logging_out(1,2) Cache_Delete_outside [OF logging_out(3)] by simp
qed

lemma sched_safe:
  assumes "(sched_step os dir rs)\<^sup>*\<^sup>* (replicate (length rs) Start, w0, []) (pcs, w, ev)"
    and "\<forall>r \<in> set rs. rotating issued ok os dir i c r"
    and "locks w0 = []" "ok (outside w0)" "stored_token dir i c w0 = [] \<or> stored_token dir i c w0 \<in> issued (outside w0)"
  shows "(\<forall>m < length rs. \<forall>n < length rs. critical (pcs ! m) \<and> critical (pcs ! n) \<longrightarrow> m = n) \<and>
    (distinct (redeemed ev) \<and> spent_once ev \<or> Astray \<in> set ev)"
proof -
  have "sched_ok issued ok dir i c (length rs) (replicate (length rs) Start, w0, [])"
    using assms(3-5) by (auto simp: exclusive_def ledger_of_def ledger_def)
  with assms(1) have "sched_ok issued ok dir i c (length rs) (pcs, w, ev)"
    by (induction rule: rtranclp_induct) (auto intro: sched_ok_step [OF _ assms(2)])
  then show ?thesis by (auto simp: exclusive_def ledger_of_def ledger_def)
qed

text \<open>
  C4: However the runs of any number of processes for one profile are interleaved, with each other and
  with logouts, and whoever is killed: at most one of them is under the lock; and if the issuer rotates
  refresh tokens, none is redeemed twice, and one that was redeemed is not even presented again, unless
  a run had gone astray: it could not read the entry again under the lock (it was unreadable, or logged
  out in the meantime), or did not store what it had redeemed (or was killed before). A token whose
  refresh failed, so that it is unknown whether the issuer has seen it, may be presented again.
\<close>

theorem no_token_twice:
  assumes "(sched_step os dir rs)\<^sup>*\<^sup>* (replicate (length rs) Start, w0, []) (pcs, w, ev)"
    and "\<forall>r \<in> set rs. rotating issued ok os dir i c r"
    and "locks w0 = []" "ok (outside w0)" "stored_token dir i c w0 = [] \<or> stored_token dir i c w0 \<in> issued (outside w0)"
  shows "(\<forall>m < length rs. \<forall>n < length rs. critical (pcs ! m) \<and> critical (pcs ! n) \<longrightarrow> m = n) \<and>
    (distinct (redeemed ev) \<and> spent_once ev \<or> Astray \<in> set ev)"
  by (rule sched_safe [OF assms])

text \<open>Two processes, an entry that has expired, and an issuer that counts.\<close>

definition counting_tokens :: "nat \<Rightarrow> result" where
  "counting_tokens n = tokens ''a'' (replicate (Suc n) (CHR ''x''))"

definition counting_source :: "nat world token_source" where
  "counting_source =
     \<lparr>ts_Refresh = (\<lambda>t w. (Inr (counting_tokens (outside w)), w\<lparr>outside := Suc (outside w)\<rparr>)),
      ts_Login = (\<lambda>w. (Inr (counting_tokens (outside w)), w\<lparr>outside := Suc (outside w)\<rparr>))\<rparr>"

definition counted :: "nat \<Rightarrow> string set" where
  "counted n = insert ''rt'' ((\<lambda>m. replicate (Suc m) (CHR ''x'')) ` {..<n})"

definition late_runner :: "nat world runner" where
  "late_runner = \<lparr>rn_Cache = file_store fair_os ''/cache'', rn_Source = counting_source,
     rn_Issuer = ''https://issuer'', rn_ClientID = ''cli'', rn_TokenType = TokenTypeAccessToken,
     rn_now = (\<lambda>_. Time (10 ^ 30) 0), rn_Stderr = None\<rparr>"

lemma counting_rotates: "rotating counted (\<lambda>_. True) fair_os ''/cache'' ''https://issuer'' ''cli'' late_runner"
proof -
  have st: "storable (result_entry ''https://issuer'' ''cli'' (counting_tokens n))" for n
    unfolding counting_tokens_def by (rule tokens_storable; rule ascii_utf8_valid) (simp_all add: list_all_iff)
  have tok: "r_RefreshToken (counting_tokens n) = replicate (Suc n) (CHR ''x'')" for n
    by (simp add: counting_tokens_def tokens_def)
  have un: "replicate (Suc n) (CHR ''x'') \<in> counted (Suc n)" "replicate (Suc n) (CHR ''x'') \<notin> counted n" "counted n \<subseteq> counted (Suc n)" for n
    by (auto simp: counted_def dest: arg_cong [where f = length])
  have w: "refresh_rotates counted (\<lambda>_. True) ''https://issuer'' ''cli'' counting_source" "login_mints counted (\<lambda>_. True) ''https://issuer'' ''cli'' counting_source"
    using st un by (auto simp: refresh_rotates_def login_mints_def counting_source_def apart_def unseen_def tok contents_def fun_eq_iff simp del: replicate_Suc)
  show ?thesis unfolding rotating_def using w by (simp add: late_runner_def only_warns_def warn_def)
qed

lemma fair_dir: "\<exists>w1. ensureDir fair_os dir w = (None, w1)"
  by (auto simp: ensureDir_def try_sys_def sys_defs fair_os_def advance_def split: option.splits)

lemma fair_load_saved:
  assumes "contents w = contents w0" "Cache_Save fair_os dir e v = (None, w0)" "storable e"
  shows "\<exists>w'. Cache_Load fair_os dir (e_Issuer e) (e_ClientID e) w = (Inr (Some e), w')"
proof -
  obtain b where "Marshal_Entry e = Inr b" "contents w0 = (contents v)(path dir (e_Issuer e) (e_ClientID e) \<mapsto> b)"
    using Cache_Save_contents [OF assms(2)] by auto
  then have "file_view dir w (profileKey (e_Issuer e) (e_ClientID e)) = Some e"
    using entry_roundtrip [OF assms(3)] assms(1) by (simp add: file_view_path)
  then show ?thesis
    using fair_load [of dir "e_Issuer e" "e_ClientID e" w] Cache_Load_view [OF honest_fair(1)] by metis
qed

text \<open>The first process finds a saved entry that has expired, gets the lock, and redeems its token.\<close>

lemma refresh_trace:
  assumes v: "Cache_Save fair_os dir e v = (None, w0)" "storable e" "locks w0 = []"
    and r: "rn_Cache r = file_store fair_os dir" "rn_Issuer r = e_Issuer e" "rn_ClientID r = e_ClientID e"
    and stale: "\<And>w. \<not> entryValid (rn_now r w) e" "e_RefreshToken e \<noteq> []"
    and refresh: "\<And>w. outside w = outside w0 \<Longrightarrow>
      \<exists>w'. ts_Refresh (rn_Source r) (e_RefreshToken e) w = (Inr res, w')" "r_IDTokenError res = None" "r_RefreshToken res \<noteq> []"
  shows "\<exists>w. (sched_step fair_os dir (r # rs))\<^sup>*\<^sup>* (Start # pcs, w0, []) (Persisting res # pcs, w, [Redeemed (e_RefreshToken e)])"
proof -
  let ?rs = "r # rs" and ?lp = "lockPath dir (e_Issuer e) (e_ClientID e)"
  have ld: "Load (rn_Cache r) = Cache_Load fair_os dir" by (simp add: r(1) file_store_def)
  have go: "sched_step fair_os dir ?rs (pc # pcs, w, ev) (pc' # pcs, w', ev @ es)"
    if "run_step fair_os dir r (pc, w) es (pc', w')" for pc w ev pc' w' es
    using running [of 0 ?rs fair_os dir "pc # pcs" w es pc' w' ev] that by simp
  obtain w1 where l: "Cache_Load fair_os dir (e_Issuer e) (e_ClientID e) w0 = (Inr (Some e), w1)"
    using fair_load_saved [OF refl v(1,2)] by blast
  obtain w2 where d: "ensureDir fair_os dir w1 = (None, w2)" using fair_dir by blast
  have w2: "contents w2 = contents w0" "locks w2 = []" "outside w2 = outside w0"
    using Cache_Load_contents [OF l] contents_ensureDir [OF d] frame_locks(2) [OF l] ensureDir_locks [OF d]
      Cache_Load_outside [OF l] ensureDir_outside [OF d] v(3) by simp_all
  let ?w3 = "(advance w2)\<lparr>locks := ?lp # locks w2\<rparr>"
  have "contents ?w3 = contents w0" using w2(1) by simp
  then obtain w4 where m: "Cache_Load fair_os dir (e_Issuer e) (e_ClientID e) ?w3 = (Inr (Some e), w4)"
    using fair_load_saved [OF _ v(1,2)] by blast
  have "outside w4 = outside w0" using Cache_Load_outside [OF m] w2(3) by (simp add: advance_def)
  then obtain w5 where redeem: "ts_Refresh (rn_Source r) (e_RefreshToken e) w4 = (Inr res, w5)" using refresh(1) by blast
  have chk: "checkIDToken r res w5 = (None, w5)" by (simp add: checkIDToken_def refresh(2))
  have l': "Load (rn_Cache r) (rn_Issuer r) (rn_ClientID r) w0 = (Inr (Some e), w1)"
    and m': "Load (rn_Cache r) (rn_Issuer r) (rn_ClientID r) ?w3 = (Inr (Some e), w4)"
    by (simp_all add: ld r(2,3) l m)
  have pcs: "after_load r (Inr (Some e)) w1 = Waiting e"
    "after_reload r e (Inr (Some e)) w4 = Refreshing (e_RefreshToken e)"
    using stale by (simp_all add: after_load_def after_reload_def refresh_or_login_def)
  have "sched_step fair_os dir ?rs (Start # pcs, w0, []) (Waiting e # pcs, w1, [] @ [])"
    by (rule go [OF start [OF l', unfolded pcs]])
  moreover have "sched_step fair_os dir ?rs (Waiting e # pcs, w1, []) (Queued e # pcs, w2, [] @ [])"
    by (rule go) (use prepared [OF d, of r e] in simp)
  moreover have "sched_step fair_os dir ?rs (Queued e # pcs, w2, []) (Locked e # pcs, ?w3, [] @ [])"
    by (rule go [OF locked [of dir r w2, unfolded r]]) (simp add: w2(2))
  moreover have "sched_step fair_os dir ?rs (Locked e # pcs, ?w3, []) (Refreshing (e_RefreshToken e) # pcs, w4, [] @ [])"
    by (rule go) (use reloaded [OF m' pcs(2) [symmetric], of fair_os dir] in \<open>simp add: unlock_def\<close>)
  moreover have "sched_step fair_os dir ?rs (Refreshing (e_RefreshToken e) # pcs, w4, [])
      (Persisting res # pcs, w5, [] @ [Redeemed (e_RefreshToken e)])"
    by (rule go) (use refreshed [OF redeem chk] refresh(3) in \<open>simp add: kept_token_def\<close>)
  ultimately show ?thesis by (auto intro!: exI [of _ w5] elim!: converse_rtranclp_into_rtranclp)
qed

lemma late_trace:
  assumes v: "Cache_Save fair_os ''/cache'' sample (blank 0) = (None, w0)"
  shows "\<exists>w. (sched_step fair_os ''/cache'' [late_runner, late_runner])\<^sup>*\<^sup>* ([Start, Start], w0, [])
    ([Persisting (counting_tokens 0), Start], w, [Redeemed ''rt''])"
proof -
  have s: "e_RefreshToken sample = ''rt''" "e_Issuer sample = ''https://issuer''" "e_ClientID sample = ''cli''"
    by (simp_all add: sample_def)
  have free: "locks w0 = []" "outside w0 = 0" using Cache_Save_locks [OF v] Cache_Save_outside [OF v] by (simp_all add: blank_def)
  have t: "r_IDTokenError (counting_tokens 0) = None" "r_RefreshToken (counting_tokens 0) \<noteq> []"
    by (simp_all add: counting_tokens_def tokens_def zero_result_def)
  have "\<not> entryValid (rn_now late_runner w) sample" for w
    by (simp add: entryValid_def sample_def late_runner_def IsZero_def Before_def Add_def Skew_def)
  from refresh_trace [OF v sample_storable free(1) _ _ _ this _ _ t] show ?thesis
    by (simp add: s late_runner_def counting_source_def free(2))
qed

lemma saved_sample: "\<exists>w0. Cache_Save fair_os ''/cache'' sample (blank x) = (None, w0)"
proof -
  obtain b where "Marshal_Entry sample = Inr b" using sample_bytes by blast
  then show ?thesis using fair_save [of "blank x" sample b] by (simp add: blank_def prod_eq_iff)
qed

lemma no_token_twice_witness:
  "\<exists>w0 w. (sched_step fair_os ''/cache'' [late_runner, late_runner])\<^sup>*\<^sup>* ([Start, Start], w0, [])
      ([Persisting (counting_tokens 0), Start], w, [Redeemed ''rt'']) \<and>
    stored_token ''/cache'' ''https://issuer'' ''cli'' w0 = ''rt'' \<and> distinct (redeemed [Redeemed ''rt''])"
proof -
  obtain w0 where v: "Cache_Save fair_os ''/cache'' sample (blank (0 :: nat)) = (None, w0)" using saved_sample [of "0 :: nat"] ..
  obtain w where run: "(sched_step fair_os ''/cache'' [late_runner, late_runner])\<^sup>*\<^sup>*
      (replicate (length [late_runner, late_runner]) Start, w0, []) ([Persisting (counting_tokens 0), Start], w, [Redeemed ''rt''])"
    using late_trace [OF v] by (auto simp: numeral_2_eq_2)
  have rot: "\<forall>r \<in> set [late_runner, late_runner]. rotating counted (\<lambda>_. True) fair_os ''/cache'' ''https://issuer'' ''cli'' r"
    using counting_rotates by simp
  have free: "locks w0 = []" using Cache_Save_locks [OF v] by (simp add: blank_def)
  obtain w1 where "Cache_Load fair_os ''/cache'' ''https://issuer'' ''cli'' w0 = (Inr (Some sample), w1)"
    using fair_load_saved [OF refl v sample_storable] by (auto simp: sample_def)
  then have tok: "stored_token ''/cache'' ''https://issuer'' ''cli'' w0 = ''rt''"
    by (rule stored_token_read [THEN trans]) (simp add: sample_def)
  then have ini: "stored_token ''/cache'' ''https://issuer'' ''cli'' w0 = [] \<or>
      stored_token ''/cache'' ''https://issuer'' ''cli'' w0 \<in> counted (outside w0)" by (simp add: counted_def)
  have "distinct (redeemed [Redeemed ''rt''])"
    using no_token_twice [OF run rot free _ ini] by simp
  then show ?thesis using run tok by (auto simp: numeral_2_eq_2)
qed

lemma run_is_steps_witness:
  "\<exists>x w' es. Run late_runner (blank 0) = (x, w') \<and> run_steps fair_os ''/cache'' late_runner (Start, blank 0) es (Finished x, w')"
proof -
  obtain x w' where r: "Run late_runner (blank 0) = (x, w')" by (cases "Run late_runner (blank 0)")
  have "rn_Cache late_runner = file_store fair_os ''/cache''" by (simp add: late_runner_def)
  moreover have "lockPath ''/cache'' (rn_Issuer late_runner) (rn_ClientID late_runner) \<notin> set (locks (blank 0))" by (simp add: blank_def)
  ultimately show ?thesis using run_is_steps [OF _ _ r] r by blast
qed

end
