(* ===== verification/Rotation.thy ===== *)
theory Rotation
  imports MockProps SourceProps Processes
begin

text \<open>
  Several processes of the program against the repository's issuer, each with its own discovered
  provider, authenticating with a signed assertion: the refresh requests of the real token source, as
  the issuer answers them. The issuer rotates: every answer has a refresh token it has never issued
  before. So the argument about interleaved processes holds of the program's own source.
\<close>

section \<open>The issuer's side of a refresh\<close>

text \<open>Whatever it is asked, the issuer's sequence number does not go back.\<close>

lemma checkClientAuth_seq: "checkClientAuth mi rq form s = (b, s') \<Longrightarrow> ms_refreshSeq s' = ms_refreshSeq s"
  by (auto simp: checkClientAuth_def checkClientAssertion_def split: if_splits sum.splits)

lemma writeTokenSuccess_seq: "writeTokenSuccess mi sub n ex s = (rs, s') \<Longrightarrow> ms_refreshSeq s' = Suc (ms_refreshSeq s)"
  by (auto simp: writeTokenSuccess_def Let_def split: if_splits sum.splits)

lemma handleRefreshToken_seq: "handleRefreshToken mi s = (rs, s') \<Longrightarrow> ms_refreshSeq s \<le> ms_refreshSeq s'"
  by (auto simp: handleRefreshToken_def Let_def split: if_splits dest!: writeTokenSuccess_seq)

lemma handleToken_seq: "handleToken mi rq u s = (rs, s') \<Longrightarrow> ms_refreshSeq s \<le> ms_refreshSeq s'"
  by (auto simp: handleToken_def handleDeviceToken_def handleAuthCodeToken_def handleTokenExchange_def Let_def
      split: option.splits prod.splits bool.splits if_splits
      dest!: checkClientAuth_seq writeTokenSuccess_seq handleRefreshToken_seq)

lemma mock_http_seq: "mock_http mi rq s = (y, s') \<Longrightarrow> ms_refreshSeq s \<le> ms_refreshSeq s'"
  by (auto simp: mock_http_def handleDeviceAuthorization_def Let_def apfst_def map_prod_def
      split: sum.splits if_splits prod.splits dest!: handleToken_seq)

text \<open>The form of a refresh, after authentication.\<close>

definition refresh_form :: "string \<Rightarrow> vals" where
  "refresh_form t = [(''grant_type'', [''refresh_token'']), (''refresh_token'', [t])]"

lemma authenticate_Get:
  assumes "authenticate nt p v w = (Inr v', w')"
    and "k \<notin> {''client_id'', ''client_secret'', ''client_assertion'', ''client_assertion_type''}"
  shows "vals_Get v' k = vals_Get v k"
  using assms by (auto simp: authenticate_def Let_def vals_Get_Set split: if_splits prod.splits sum.splits)

lemma refresh_grant:
  assumes "authenticate nt p (refresh_form t) w = (Inr v, w')"
  shows "vals_Get (parseQuery (Encode v)) ''grant_type'' = ''refresh_token''"
proof -
  have "distinct (map fst v)" by (rule distinct_authenticate [OF assms]) (simp add: refresh_form_def)
  then show ?thesis
    using authenticate_Get [OF assms, of "''grant_type''"]
    by (simp add: vals_Get_form) (simp add: refresh_form_def vals_Get_def vals_list_def)
qed

lemma read_token_failed: "rs_StatusCode rs < 200 \<or> rs_StatusCode rs > 299 \<Longrightarrow> read_token now rs \<noteq> Inr tok"
  by (auto simp: read_token_def Let_def split: sum.splits option.splits)

lemma ParseForm_token_request:
  assumes "token_request p url v = Inr req" "u_RawQuery u = []"
  shows "ParseForm req u \<in> {None, Some (parseQuery (Encode v))}"
proof (cases "length (Encode v) \<le> 10 * 2 ^ 20")
  case True
  then show ?thesis using ParseForm_request [OF assms] by simp
next
  case False
  have "rq_Method req = ''POST''" "rq_Body req = Encode v"
    "map_of (rq_Header req) ''Content-Type'' = Some ''application/x-www-form-urlencoded''"
    using assms(1) by (auto simp: token_request_def NewRequest_def set_header_def SetBasicAuth_def Let_def update_conv'
        split: sum.splits)
  then show ?thesis using False by (simp add: ParseForm_def)
qed

text \<open>If the answer of the token endpoint to a refresh is one with tokens, they are newly minted.\<close>

lemma handleToken_refresh:
  assumes "handleToken mi req u s = (rs, s')" "read_token now rs = Inr tok" "length (rs_Body rs) \<le> 2 ^ 20"
    and "ParseForm req u \<in> {None, Some form}" "vals_Get form ''grant_type'' = ''refresh_token''"
    and "\<not> mi_IncludeIDToken mi"
  shows "ms_refreshSeq s' = Suc (ms_refreshSeq s) \<and> tok = token_of now (minted mi (ms_refreshSeq s') None) []"
proof -
  have ok: "\<not> (rs_StatusCode rs < 200 \<or> rs_StatusCode rs > 299)"
    using assms(2) read_token_failed by blast
  have err: "rs_StatusCode (writeTokenError n e) = n" "rs_StatusCode (answer n b) = n" for n e b
    by (simp_all add: writeTokenError_def json_answer_def answer_def)
  obtain s1 where s1: "ParseForm req u = Some form" "checkClientAuth mi req form s = (True, s1)"
    and h: "handleRefreshToken mi s1 = (rs, s')"
    using assms(1,4,5) ok err by (auto simp: handleToken_def Let_def split: option.splits prod.splits bool.splits)
  have "rs = json_answer 200 (issued_doc mi (Suc (ms_refreshSeq s1)) None) \<and> ms_refreshSeq s' = Suc (ms_refreshSeq s1)"
    using h assms(6) ok err
    by (auto simp: handleRefreshToken_def writeTokenSuccess_def issued_doc_def type_member_def Let_def split: if_splits)
  moreover have "ms_refreshSeq s1 = ms_refreshSeq s" by (rule checkClientAuth_seq [OF s1(2)])
  ultimately show ?thesis
    using assms(2,3) issued_read [of None rs mi "Suc (ms_refreshSeq s)" now] by simp
qed

section \<open>The client's side\<close>

text \<open>
  The issuer behind a network: \<open>get\<close> is its state in the world. A request may fail before or after the
  issuer has seen it; an answer that arrives is the issuer's, of at most 1 MB.
\<close>

definition delivers :: "mock_issuer \<Rightarrow> ('w \<Rightarrow> mock_state) \<Rightarrow> 'w net \<Rightarrow> bool" where
  "delivers mi get nt \<longleftrightarrow> (\<forall>n. keeps get (nt_rand nt n)) \<and>
     (\<forall>rq w y w'. nt_http nt rq w = (y, w') \<longrightarrow>
        (case y of Inl _ \<Rightarrow> get w' = get w \<or> get w' = snd (mock_http mi rq (get w))
         | Inr rs \<Rightarrow> mock_http mi rq (get w) = (Inr rs, get w') \<and> length (rs_Body rs) \<le> 2 ^ 20))"

definition token_url :: "mock_issuer \<Rightarrow> bool" where
  "token_url mi \<longleftrightarrow> (case url_Parse (mi_URL mi @ ''/token'') of
     Inl _ \<Rightarrow> False | Inr u \<Rightarrow> u_Path u = ''/token'' \<and> u_RawQuery u = [])"

lemma postTokenRequest_refresh:
  assumes "postTokenRequest nt p (mi_URL mi @ ''/token'') (refresh_form t) w = (y, w')"
    and net: "delivers mi get nt" and url: "token_url mi" and "\<not> mi_IncludeIDToken mi"
  shows "ms_refreshSeq (get w) \<le> ms_refreshSeq (get w') \<and> (\<forall>tok. y = Inr tok \<longrightarrow>
    ms_refreshSeq (get w') = Suc (ms_refreshSeq (get w)) \<and>
    tok = token_of (nt_now nt w') (minted mi (ms_refreshSeq (get w')) None) [])"
proof -
  obtain u where u: "url_Parse (mi_URL mi @ ''/token'') = Inr u" "u_Path u = ''/token''" "u_RawQuery u = []"
    using url by (auto simp: token_url_def split: sum.splits)
  have rnd: "nt_rand nt n v = (b, v') \<Longrightarrow> get v' = get v" for n v b v'
    using net by (auto simp: delivers_def dest: keepsD)
  obtain a w1 where a: "authenticate nt p (refresh_form t) w = (a, w1)" by fastforce
  have g1: "get w1 = get w"
    using a by (auto simp: authenticate_def signClientAssertion_def randomState_def Let_def dest: rnd split: if_splits prod.splits sum.splits option.splits)
  show ?thesis
  proof (cases a)
    case (Inl e)
    then show ?thesis using assms(1) a g1 by (auto simp: postTokenRequest_def)
  next
    case (Inr v)
    note auth = a [unfolded Inr]
    obtain req where req: "token_request p (mi_URL mi @ ''/token'') v = Inr req"
      using token_request_ok [OF u(1)] by blast
    obtain h w2 where h: "nt_http nt req w1 = (h, w2)" by fastforce
    have seen: "mock_http mi req s = apfst Inr (handleToken mi req u s)" for s
      by (simp add: mock_http_def token_request_URL [OF req] u)
    show ?thesis
    proof (cases h)
      case (Inl e)
      then have "get w2 = get w1 \<or> get w2 = snd (mock_http mi req (get w1))"
        using net h unfolding delivers_def by fastforce
      then have "ms_refreshSeq (get w1) \<le> ms_refreshSeq (get w2)" using mock_http_seq by (metis prod.collapse order_refl)
      then show ?thesis using assms(1) Inl g1 by (auto simp: postTokenRequest_def auth req h)
    next
      case (Inr rs)
      then have d: "mock_http mi req (get w1) = (Inr rs, get w2)" "length (rs_Body rs) \<le> 2 ^ 20"
        using net h unfolding delivers_def by fastforce+
      then have "handleToken mi req u (get w1) = (rs, get w2)"
        unfolding seen by (cases "handleToken mi req u (get w1)") simp
      note minting = handleToken_refresh [OF this _ d(2) ParseForm_token_request [OF req u(3)] refresh_grant [OF auth] assms(4)]
      have "y = read_token (nt_now nt w2) rs" "w' = w2"
        using assms(1) Inr by (auto simp: postTokenRequest_def auth req h)
      then have "ms_refreshSeq (get w') = Suc (ms_refreshSeq (get w)) \<and>
          tok = token_of (nt_now nt w') (minted mi (ms_refreshSeq (get w')) None) []" if "y = Inr tok" for tok
        using minting [of "nt_now nt w2" tok] that g1 by simp
      moreover have "ms_refreshSeq (get w) \<le> ms_refreshSeq (get w')"
        using mock_http_seq [OF d(1)] g1 \<open>w' = w2\<close> by simp
      ultimately show ?thesis by blast
    qed
  qed
qed

text \<open>A provider of the issuer, with a client that signs.\<close>

definition at_issuer :: "mock_issuer \<Rightarrow> provider \<Rightarrow> bool" where
  "at_issuer mi p \<longleftrightarrow> tokenEndpoint p = mi_URL mi @ ''/token'' \<and> ca_method (p_clientAuth p) = ''private_key_jwt''"

definition rotated :: "nat \<Rightarrow> gotime \<Rightarrow> result" where
  "rotated seq now = zero_result\<lparr>r_AccessToken := ''access-token-'' @ itoa seq,
     r_RefreshToken := ''refresh-token-'' @ itoa seq, r_Expiry := Add now (3600 * second)\<rparr>"

definition rotation :: "mock_issuer \<Rightarrow> bool" where
  "rotation mi \<longleftrightarrow> token_url mi \<and> \<not> mi_IncludeIDToken mi \<and> \<not> mi_OmitRefreshToken mi"

lemma Provider_Refresh_rotates:
  assumes "Provider_Refresh nt p sc t w = (y, w')" "delivers mi get nt" "rotation mi" "at_issuer mi p"
  shows "ms_refreshSeq (get w) \<le> ms_refreshSeq (get w') \<and> (\<forall>res. y = Inr res \<longrightarrow>
    ms_refreshSeq (get w') = Suc (ms_refreshSeq (get w)) \<and> res = rotated (ms_refreshSeq (get w')) (nt_now nt w'))"
proof -
  have m: "ca_method (p_clientAuth p) = ''private_key_jwt''" and url: "ep_TokenURL (up_Endpoint (p_upstream p)) = mi_URL mi @ ''/token''"
    using assms(4) by (simp_all add: at_issuer_def tokenEndpoint_def)
  have cfg: "ep_TokenURL (oc_Endpoint (oauth2Config p sc)) = mi_URL mi @ ''/token''"
    by (simp add: oauth2Config_def applyClientAuth_def m url)
  obtain x w1 where post: "postTokenRequest nt p (mi_URL mi @ ''/token'') (refresh_form t) w = (x, w1)" by fastforce
  have y: "(y, w') = (case x of Inl err \<Rightarrow> (Inl (wrap ''oidc: refresh failed: '' err), w1) | Inr tok \<Rightarrow> toResult nt p tok [] w1)"
    using assms(1) unfolding Provider_Refresh_def refreshWithAssertion_def Let_def m cfg refresh_form_def [symmetric] post
    by simp
  note req = postTokenRequest_refresh [OF post assms(2)] and mi = assms(3) [unfolded rotation_def]
  show ?thesis
  proof (cases x)
    case (Inl e)
    then show ?thesis using y req mi by simp
  next
    case (Inr tok)
    then have "tok = token_of (nt_now nt w1) (minted mi (ms_refreshSeq (get w1)) None) []"
      "ms_refreshSeq (get w1) = Suc (ms_refreshSeq (get w))" using req mi by simp_all
    moreover from this(1) have "y = Inr (rotated (ms_refreshSeq (get w1)) (nt_now nt w1)) \<and> w' = w1"
      using y mi unfolding Inr sum.case by (simp add: minted_result rotated_def zero_result_def)
    ultimately show ?thesis by simp
  qed
qed

text \<open>An authenticated client whose request and answer get through is served.\<close>

lemma refresh_accepted:
  assumes client: "agree mi nt p" "at_issuer mi p" and mi: "rotation mi" "mi_RefreshErr mi = []"
    and auth: "authenticate nt p (refresh_form t) w = (Inr v, w1)" "length (Encode v) \<le> 10 * 2 ^ 20"
    and size: "length (rs_Body (json_answer 200 (issued_doc mi (Suc (ms_refreshSeq (get w1))) None))) \<le> 2 ^ 20"
    and http: "\<And>req rs s. mock_http mi req (get w1) = (Inr rs, s) \<Longrightarrow> length (rs_Body rs) \<le> 2 ^ 20 \<Longrightarrow>
      \<exists>w2. nt_http nt req w1 = (Inr rs, w2)"
  shows "\<exists>res w'. Provider_Refresh nt p sc t w = (Inr res, w')"
proof -
  have m: "ca_method (p_clientAuth p) = ''private_key_jwt''" and url: "ep_TokenURL (up_Endpoint (p_upstream p)) = mi_URL mi @ ''/token''"
    using client(2) by (simp_all add: at_issuer_def tokenEndpoint_def)
  have cfg: "ep_TokenURL (oc_Endpoint (oauth2Config p sc)) = mi_URL mi @ ''/token''"
    by (simp add: oauth2Config_def applyClientAuth_def m url)
  obtain u where u: "url_Parse (mi_URL mi @ ''/token'') = Inr u" "u_Path u = ''/token''" "u_RawQuery u = []"
    using mi(1) by (auto simp: rotation_def token_url_def split: sum.splits)
  obtain req where req: "token_request p (mi_URL mi @ ''/token'') v = Inr req" using token_request_ok [OF u(1)] by blast
  have "distinct (map fst (refresh_form t))" by (simp add: refresh_form_def)
  from authenticate_accepted [OF client(1) this] obtain v' where v': "authenticate nt p (refresh_form t) w = (Inr v', w)"
    and accept: "\<And>req url s. token_request p url v' = Inr req \<Longrightarrow>
      \<exists>jtis. checkClientAuth mi req (parseQuery (Encode v')) s = (True, s\<lparr>ms_assertionJTIs := ms_assertionJTIs s @ jtis\<rparr>)"
    by metis
  have same: "v' = v" "w1 = w" using auth(1) v' by simp_all
  obtain jtis where ok: "checkClientAuth mi req (parseQuery (Encode v)) (get w1) =
      (True, (get w1)\<lparr>ms_assertionJTIs := ms_assertionJTIs (get w1) @ jtis\<rparr>)"
    using accept req unfolding same by blast
  let ?rs = "json_answer 200 (issued_doc mi (Suc (ms_refreshSeq (get w1))) None)"
  obtain s where "handleToken mi req u (get w1) = (?rs, s)"
    using mi by (simp add: handleToken_def ParseForm_request [OF req u(3) auth(2)] ok refresh_grant [OF auth(1)] Let_def
        handleRefreshToken_def writeTokenSuccess_def rotation_def issued_doc_def type_member_def)
  then have "mock_http mi req (get w1) = (Inr ?rs, s)" by (simp add: mock_http_def token_request_URL [OF req] u)
  from http [OF this size] obtain w2 where "nt_http nt req w1 = (Inr ?rs, w2)" by blast
  then have post: "postTokenRequest nt p (mi_URL mi @ ''/token'') (refresh_form t) w =
      (Inr (token_of (nt_now nt w2) (minted mi (Suc (ms_refreshSeq (get w1))) None) []), w2)"
    by (simp add: postTokenRequest_def auth(1) req issued_read [OF _ size refl])
  show ?thesis
    unfolding Provider_Refresh_def refreshWithAssertion_def Let_def m cfg refresh_form_def [symmetric] post
    by (simp add: minted_result)
qed

section \<open>The machine\<close>

text \<open>
  What the processes of a machine have outside their files: for each process the provider it has
  discovered, if it has, and the issuer.
\<close>

type_synonym farm = "(nat \<Rightarrow> provider option) \<times> mock_state"

text \<open>The source of \<^const>\<open>newRealSource\<close> with the slot of the \<open>n\<close>th process.\<close>

definition process_source ::
  "nat \<Rightarrow> farm world net \<Rightarrow> environment \<Rightarrow> farm world opener \<Rightarrow> config \<Rightarrow> (provider, farm world) source" where
  "process_source n =
     source_over (\<lambda>w. fst (outside w) n) (\<lambda>p w. w\<lparr>outside := ((fst (outside w))(n := Some p), snd (outside w))\<rparr>)"

definition mock_of :: "farm world \<Rightarrow> mock_state" where
  "mock_of w = snd (outside w)"

text \<open>
  The network of the machine: the issuer behind it, found at its address; it touches neither the files
  nor the locks nor the processes' memory, and its clock shows a year that JSON can represent.
\<close>

definition farm_net :: "mock_issuer \<Rightarrow> farm world net \<Rightarrow> bool" where
  "farm_net mi nt \<longleftrightarrow> delivers mi mock_of nt \<and> net_keeps (\<lambda>w. (contents w, locks w)) nt \<and>
     net_keeps (\<lambda>w. fst (outside w)) nt \<and> (\<forall>w. marshalable (Add (nt_now nt w) (3600 * second))) \<and>
     (\<forall>i w y w'. nt_NewProvider nt i w = (y, w') \<longrightarrow> mock_of w' = mock_of w \<and>
        (\<forall>up. y = Inr up \<longrightarrow> ep_TokenURL (up_Endpoint up) = mi_URL mi @ ''/token''))"

lemma farm_netD:
  assumes "farm_net mi nt"
  shows "delivers mi mock_of nt" "net_keeps (\<lambda>w. (contents w, locks w)) nt" "net_keeps (\<lambda>w. fst (outside w)) nt"
    "marshalable (Add (nt_now nt w) (3600 * second))"
    "nt_NewProvider nt i w = (y, w') \<Longrightarrow> mock_of w' = mock_of w"
    "nt_NewProvider nt i w = (Inr up, w') \<Longrightarrow> ep_TokenURL (up_Endpoint up) = mi_URL mi @ ''/token''"
  using assms unfolding farm_net_def by blast+

definition farm_ok :: "mock_issuer \<Rightarrow> farm \<Rightarrow> bool" where
  "farm_ok mi x \<longleftrightarrow> (\<forall>n p. fst x n = Some p \<longrightarrow> at_issuer mi p)"

definition farm_issued :: "farm \<Rightarrow> string set" where
  "farm_issued x = (\<lambda>m. ''refresh-token-'' @ itoa m) ` {1..ms_refreshSeq (snd x)}"

lemma process_source_simps:
  "s_provider (process_source n nt env op cfg) w = fst (outside w) n"
  "s_store (process_source n nt env op cfg) p w = w\<lparr>outside := ((fst (outside w))(n := Some p), snd (outside w))\<rparr>"
  "s_discover (process_source n nt env op cfg) = Discover nt" "s_ops (process_source n nt env op cfg) = provider_ops nt"
  "s_ClientAuth (process_source n nt env op cfg) = config_client_auth cfg" "s_Env (process_source n nt env op cfg) = env"
  by (simp_all add: process_source_def source_over_def)

lemma contents_outside: "contents (w\<lparr>outside := x\<rparr>) = contents w"
  by (simp add: contents_def fun_eq_iff)

text \<open>Discovery leaves the machine in order, and what it finds is at the issuer.\<close>

lemma farm_discover:
  assumes "discover (process_source n nt env op cfg) w = (y, w')" "farm_net mi nt" "farm_ok mi (outside w)"
    and "c_ClientAuthMethod cfg = ''private_key_jwt''"
  shows "farm_ok mi (outside w')" "contents w' = contents w" "locks w' = locks w" "mock_of w' = mock_of w"
    "y = Inr p \<Longrightarrow> at_issuer mi p"
proof -
  let ?s = "process_source n nt env op cfg"
  have found: "contents v' = contents v \<and> locks v' = locks v \<and> mock_of v' = mock_of v \<and> fst (outside v') = fst (outside v)"
    if "Discover nt i c v = (x, v')" for i c v x v'
    using that keepsD [OF keeps_Discover [OF farm_netD(2) [OF assms(2)]] that]
      keepsD [OF keeps_Discover [OF farm_netD(3) [OF assms(2)]] that] farm_netD(5) [OF assms(2)]
    by (auto simp: Discover_def split: option.splits prod.splits sum.splits)
  have at: "at_issuer mi (Provider_SetClientAuth (config_client_auth cfg) (Provider_SetAudience a q))"
    if "Discover nt i c v = (Inr q, v')" for i c v q v' a
    using that farm_netD(6) [OF assms(2)] assms(4)
    by (auto simp: Discover_def at_issuer_def Provider_SetClientAuth_def Provider_SetAudience_def tokenEndpoint_def
        config_client_auth_def split: option.splits prod.splits sum.splits)
  note d = assms(1) [unfolded discover_def process_source_simps Let_def]
  have "farm_ok mi (outside w') \<and> contents w' = contents w \<and> locks w' = locks w \<and> mock_of w' = mock_of w \<and>
    (\<forall>p. y = Inr p \<longrightarrow> at_issuer mi p)"
  proof (cases "fst (outside w) n")
    case (Some q)
    then show ?thesis using d assms(3) by (auto simp: farm_ok_def)
  next
    case None
    obtain x w1 where x: "Discover nt (s_Issuer ?s) (s_ClientID ?s) w = (x, w1)" by fastforce
    show ?thesis
    proof (cases x)
      case (Inl e)
      then show ?thesis using d x None found [OF x] assms(3) by (auto simp: farm_ok_def)
    next
      case (Inr q)
      then show ?thesis
        using d x None found [OF x] at [OF x [unfolded Inr]] assms(3)
        by (auto simp: farm_ok_def provider_ops_def contents_outside mock_of_def split: if_splits)
    qed
  qed
  then show "farm_ok mi (outside w')" "contents w' = contents w" "locks w' = locks w" "mock_of w' = mock_of w"
    "y = Inr p \<Longrightarrow> at_issuer mi p" by blast+
qed

lemma itoa_inj: "itoa m = itoa n \<Longrightarrow> m = n"
proof -
  have "undigits (itoa n) = n" for n
  proof (induction n rule: itoa.induct)
    case (1 n)
    then show ?case
      by (subst itoa.simps) (auto simp: undigits_snoc undigits_def digit_def)
  qed
  then show "itoa m = itoa n \<Longrightarrow> m = n" by metis
qed

lemma rotated_storable:
  assumes "utf8_valid i" "utf8_valid c" "marshalable (Add now (3600 * second))"
  shows "storable (result_entry i c (rotated seq now))"
proof -
  have "utf8_valid (''access-token-'' @ itoa seq)" "utf8_valid (''refresh-token-'' @ itoa seq)"
    by (rule ascii_utf8_valid; simp add: itoa_ascii)+
  then show ?thesis using assms by (simp add: storable_def result_entry_def rotated_def zero_result_def)
qed

text \<open>So each process's source rotates.\<close>

lemma farm_rotates:
  assumes net: "farm_net mi nt" and mi: "rotation mi" and cfg: "c_ClientAuthMethod cfg = ''private_key_jwt''"
    and utf8: "utf8_valid i" "utf8_valid c"
  shows "refresh_rotates farm_issued (farm_ok mi) i c (token_source_of (process_source n nt env op cfg))"
  unfolding refresh_rotates_def
proof (intro allI impI)
  fix t w y w'
  let ?s = "process_source n nt env op cfg"
  assume ok: "farm_ok mi (outside w)" and run: "ts_Refresh (token_source_of ?s) t w = (y, w')"
  obtain x w1 where d: "discover ?s w = (x, w1)" by fastforce
  note found = farm_discover [OF d net ok cfg]
  note run = run [unfolded token_source_of_def token_source.simps Source_Refresh_def d prod.case process_source_simps]
  show "farm_ok mi (outside w') \<and> apart farm_issued w w' \<and> (case y of Inl _ \<Rightarrow> True | Inr res \<Rightarrow>
      storable (result_entry i c res) \<and> r_RefreshToken res \<noteq> [] \<and> unseen farm_issued w w' (r_RefreshToken res))"
  proof (cases x)
    case (Inl e)
    then show ?thesis using run found by (auto simp: apart_def farm_issued_def mock_of_def)
  next
    case (Inr p)
    then have r: "Provider_Refresh nt p (s_Scope ?s) t w1 = (y, w')" using run by (simp add: provider_ops_def)
    have kept: "contents w' = contents w1" "locks w' = locks w1" "fst (outside w') = fst (outside w1)"
      using keepsD [OF keeps_Provider_Refresh [OF farm_netD(2) [OF net]] r]
        keepsD [OF keeps_Provider_Refresh [OF farm_netD(3) [OF net]] r] by simp_all
    note rot = Provider_Refresh_rotates [OF r farm_netD(1) [OF net] mi found(5) [OF Inr]]
    have "apart farm_issued w w'"
      using rot found(2-4) kept(1,2) by (auto simp: apart_def farm_issued_def mock_of_def)
    moreover have "farm_ok mi (outside w')" using found(1) kept(3) by (simp add: farm_ok_def)
    moreover have "storable (result_entry i c res) \<and> r_RefreshToken res \<noteq> [] \<and> unseen farm_issued w w' (r_RefreshToken res)"
      if "y = Inr res" for res
      using rot that found(4) rotated_storable [OF utf8 farm_netD(4) [OF net]]
      by (auto simp: unseen_def farm_issued_def mock_of_def rotated_def dest: itoa_inj)
    ultimately show ?thesis by (simp split: sum.split)
  qed
qed

text \<open>Without a display and a terminal nobody can log in: the login ends with the plan.\<close>

lemma plan_unattended: "\<not> env_TTY env \<Longrightarrow> \<not> env_Display env \<Longrightarrow> \<exists>e. plan gs p gt env ni = Inl e"
  by (simp add: plan_def Let_def BrowserAvailable_def TerminalAttended_def)

lemma unattended_mints:
  assumes net: "farm_net mi nt" and cfg: "c_ClientAuthMethod cfg = ''private_key_jwt''"
    and env: "\<not> env_TTY env" "\<not> env_Display env"
  shows "login_mints farm_issued (farm_ok mi) i c (token_source_of (process_source n nt env op cfg))"
  unfolding login_mints_def
proof (intro allI impI)
  fix w y w'
  let ?s = "process_source n nt env op cfg"
  assume ok: "farm_ok mi (outside w)" and run: "ts_Login (token_source_of ?s) w = (y, w')"
  obtain x w1 where d: "discover ?s w = (x, w1)" by fastforce
  have e: "plan gs p gt (s_Env ?s) ni \<noteq> Inr order" for gs :: "(provider, farm world) grant_source" and p gt ni order
    using plan_unattended [OF env, of gs p gt ni] by (auto simp: process_source_simps)
  have "w' = w1 \<and> (\<exists>e. y = Inl e)"
    using run by (auto simp: token_source_of_def Login_def d e split: sum.splits)
  then show "farm_ok mi (outside w') \<and> apart farm_issued w w' \<and> (case y of Inl _ \<Rightarrow> True | Inr res \<Rightarrow>
      storable (result_entry i c res) \<and> (r_RefreshToken res = [] \<or> unseen farm_issued w w' (r_RefreshToken res)))"
    using farm_discover [OF d net ok cfg] by (auto simp: apart_def farm_issued_def mock_of_def)
qed

section \<open>No refresh token is redeemed twice\<close>

text \<open>The \<open>n\<close>th process's runner, as \<^const>\<open>new_runner\<close> puts it together over the file cache.\<close>

definition process_runner ::
  "os \<Rightarrow> string \<Rightarrow> farm world net \<Rightarrow> (nat \<Rightarrow> environment) \<Rightarrow> farm world opener \<Rightarrow> config \<Rightarrow> (farm world \<Rightarrow> gotime) \<Rightarrow>
    nat \<Rightarrow> farm world runner" where
  "process_runner os dir nt env op cfg now n =
     \<lparr>rn_Cache = file_store os dir, rn_Source = token_source_of (process_source n nt (env n) op cfg),
      rn_Issuer = c_Issuer cfg, rn_ClientID = c_ClientID cfg, rn_TokenType = c_TokenType cfg, rn_now = now,
      rn_Stderr = Some log_line\<rparr>"

lemma process_runner_new:
  "me_newSource me cfg = token_source_of (process_source n nt (env n) op cfg) \<Longrightarrow> me_now me = now \<Longrightarrow>
    process_runner os dir nt env op cfg now n = new_runner me cfg (file_store os dir)"
  by (simp add: process_runner_def new_runner_def)

lemma process_rotating:
  assumes "farm_net mi nt" "rotation mi" "c_ClientAuthMethod cfg = ''private_key_jwt''"
    and "utf8_valid (c_Issuer cfg)" "utf8_valid (c_ClientID cfg)"
    and "login_mints farm_issued (farm_ok mi) (c_Issuer cfg) (c_ClientID cfg) (token_source_of (process_source n nt (env n) op cfg))"
  shows "rotating farm_issued (farm_ok mi) os dir (c_Issuer cfg) (c_ClientID cfg) (process_runner os dir nt env op cfg now n)"
proof -
  have "only_warns (process_runner os dir nt env op cfg now n)"
    by (simp add: only_warns_def process_runner_def warn_def log_line_def contents_def fun_eq_iff)
  then show ?thesis
    unfolding rotating_def using farm_rotates [OF assms(1-5)] assms(6) by (simp add: process_runner_def)
qed

text \<open>
  C5: Any number of processes of the program, with its own token source and one configuration with a
  signing key (\<^verbatim>\<open>private_key_jwt\<close>), over one file cache, against the repository's issuer behind
  a network that may lose requests and answers: however they are interleaved, logged out and killed,
  one at a time is under the lock, and, unless a run has gone astray, a refresh token that was answered
  with new tokens is neither redeemed again nor presented again. So a token is presented twice only if
  its refresh had failed, where the answer may have been lost on the way: this the code retries. (Of
  the logins, which go through the OAuth2 library, it is assumed that their refresh tokens are new.)
\<close>

theorem issuer_rotates:
  assumes run: "(sched_step os dir (map (process_runner os dir nt env op cfg now) [0..<k]))\<^sup>*\<^sup>*
      (replicate k Start, w0, []) (pcs, w, ev)"
    and issuer: "farm_net mi nt" "rotation mi"
    and client: "c_ClientAuthMethod cfg = ''private_key_jwt''" "utf8_valid (c_Issuer cfg)" "utf8_valid (c_ClientID cfg)"
    and logins: "\<forall>n < k. login_mints farm_issued (farm_ok mi) (c_Issuer cfg) (c_ClientID cfg)
      (token_source_of (process_source n nt (env n) op cfg))"
    and fresh: "locks w0 = []" "fst (outside w0) = (\<lambda>_. None)"
    and stored: "stored_token dir (c_Issuer cfg) (c_ClientID cfg) w0 \<in> insert [] (farm_issued (outside w0))"
  shows "(\<forall>m < k. \<forall>n < k. critical (pcs ! m) \<and> critical (pcs ! n) \<longrightarrow> m = n) \<and>
    (distinct (redeemed ev) \<and> spent_once ev \<or> Astray \<in> set ev)"
proof -
  let ?rs = "map (process_runner os dir nt env op cfg now) [0..<k]"
  have k: "length ?rs = k" by simp
  have rot: "\<forall>r \<in> set ?rs. rotating farm_issued (farm_ok mi) os dir (c_Issuer cfg) (c_ClientID cfg) r"
    using process_rotating [OF issuer client] logins by simp
  have ok: "farm_ok mi (outside w0)" by (simp add: farm_ok_def fresh(2))
  have "stored_token dir (c_Issuer cfg) (c_ClientID cfg) w0 = [] \<or>
      stored_token dir (c_Issuer cfg) (c_ClientID cfg) w0 \<in> farm_issued (outside w0)" using stored by blast
  from sched_safe [OF _ rot fresh(1) ok this, unfolded k, OF run] show ?thesis .
qed

text \<open>
  Two processes without a terminal, an entry that has expired, and the issuer over a network that only
  loses answers of more than 1 MB: the first redeems the stored token.
\<close>

definition farm_issuer :: mock_issuer where
  "farm_issuer = test_issuer\<lparr>mi_OmitRefreshToken := False\<rparr>"

definition farm_http :: "mock_issuer \<Rightarrow> farm world http_client" where
  "farm_http mi rq w =
     (case mock_http mi rq (mock_of w) of
        (y, s) \<Rightarrow> ((case y of Inr rs \<Rightarrow> if length (rs_Body rs) \<le> 2 ^ 20 then y else Inl (External []) | _ \<Rightarrow> y),
          w\<lparr>outside := (fst (outside w), s)\<rparr>))"

definition two_net :: "farm world net" where
  "two_net = \<lparr>nt_http = farm_http farm_issuer, nt_now = (\<lambda>_. Time 0 0), nt_rand = (\<lambda>n w. (Inr (replicate n (CHR ''r'')), w)),
     nt_NewProvider = (\<lambda>_ w. (Inr \<lparr>up_Endpoint = demo_endpoint\<lparr>ep_TokenURL := ''https://i/token''\<rparr>, up_rawClaims = ''{}''\<rparr>, w)),
     nt_Verify = (\<lambda>_ _ _ w. (Inl (External []), w)),
     nt_NewSigner = (\<lambda>_ _ _. None), nt_Serialize = (\<lambda>_ _ _ cl. Inr (CHR ''.'' # jwt_ID cl)),
     nt_Token = (\<lambda>_ _ w. (Inl (External []), w)), nt_GenerateVerifier = (\<lambda>w. (''verifier'', w)),
     nt_S256Challenge = (\<lambda>v. v), nt_AuthCodeURL = (\<lambda>_ s _. s), nt_Exchange = (\<lambda>_ _ _ w. (Inl (External []), w)),
     nt_DeviceAuth = (\<lambda>_ _ w. (Inl (External []), w)), nt_DeviceAccessToken = (\<lambda>_ _ _ _ w. (Inl (External []), w)),
     nt_hasDeadline = False, nt_Listen = (\<lambda>_ w. (Inr None, w)), nt_Close = (\<lambda>w. w), nt_wait = (\<lambda>_ _ w. ([], w))\<rparr>"

definition two_config :: config where
  "two_config = new_config\<lparr>c_Issuer := ''https://i'', c_ClientID := mockClientID, c_ClientAuthMethod := ''private_key_jwt''\<rparr>"

definition two_env :: environment where
  "two_env = \<lparr>env_TTY = False, env_Display = False\<rparr>"

definition two_entry :: entry where
  "two_entry = \<lparr>e_Issuer = ''https://i'', e_ClientID = mockClientID, e_AccessToken = ''access-token-1'', e_IDToken = [],
     e_RefreshToken = ''refresh-token-1'', e_Expiry = Time (86400 * second) 0\<rparr>"

lemma two_delivers: "delivers farm_issuer mock_of two_net"
  by (auto simp: delivers_def two_net_def keeps_def farm_http_def mock_of_def split: prod.splits sum.splits if_splits)

lemma two_farm: "farm_net farm_issuer two_net"
proof -
  have "marshalable (Add (Time 0 0) (3600 * second))" by code_simp
  moreover have "mi_URL farm_issuer = ''https://i''" by (simp add: farm_issuer_def test_issuer_def)
  moreover have "keeps (\<lambda>w. (contents w, locks w)) (farm_http farm_issuer rq)" "keeps (\<lambda>w. fst (outside w)) (farm_http farm_issuer rq)" for rq
    by (simp_all add: keeps_def farm_http_def contents_outside split: prod.split)
  ultimately show ?thesis
    using two_delivers by (simp add: farm_net_def net_keeps_def keeps_def) (simp add: two_net_def)
qed

lemma two_rotation: "rotation farm_issuer"
  using test_url [of "[]" "[]"]
  by (auto simp: rotation_def token_url_def farm_issuer_def test_issuer_def tokenEndpoint_def test_provider_def demo_endpoint_def
      split: sum.splits)

definition two_provider :: provider where
  "two_provider = \<lparr>p_Issuer = ''https://i'', p_ClientID = mockClientID, p_Audience = [],
     p_upstream = \<lparr>up_Endpoint = demo_endpoint\<lparr>ep_TokenURL := ''https://i/token''\<rparr>, up_rawClaims = ''{}''\<rparr>,
     p_claims = no_claims, p_clientAuth = config_client_auth two_config\<rparr>"

lemma two_discover:
  assumes "fst (outside w) n = None"
  shows "\<exists>w1. discover (process_source n two_net env op two_config) w = (Inr two_provider, w1) \<and> mock_of w1 = mock_of w"
proof -
  have "validateIssuerURL ''https://i'' = None" "Unmarshal_discoveryClaims ''{}'' = Some no_claims" by code_simp+
  then show ?thesis
    using assms
    by (simp add: discover_def process_source_def source_over_def Discover_def Let_def provider_ops_def two_provider_def mock_of_def
        two_config_def two_net_def Provider_SetAudience_def Provider_SetClientAuth_def new_config_def)
qed

lemma two_client: "agree farm_issuer two_net two_provider" "at_issuer farm_issuer two_provider"
  by (auto simp: agree_def at_issuer_def tokenEndpoint_def signs_for_def farm_issuer_def test_issuer_def two_net_def two_provider_def
      config_client_auth_def two_config_def new_config_def)

lemma two_authenticate:
  "\<exists>v. authenticate two_net two_provider (refresh_form ''refresh-token-1'') w = (Inr v, w) \<and> length (Encode v) \<le> 10 * 2 ^ 20"
proof -
  let ?v = "vals_Set ''client_assertion'' (CHR ''.'' # b64 b64_url [] (replicate 24 (CHR ''r'')))
    (vals_Set ''client_assertion_type'' clientAssertionType (vals_Set ''client_id'' mockClientID (refresh_form ''refresh-token-1'')))"
  have "authenticate two_net two_provider (refresh_form ''refresh-token-1'') w = (Inr ?v, w)"
    by (simp add: authenticate_def signClientAssertion_def randomState_def two_net_def two_provider_def config_client_auth_def
        two_config_def)
  moreover have "length (b64 b64_url [] (replicate 24 (CHR ''r''))) \<le> 48"
    using length_b64_raw [of b64_url "replicate 24 (CHR ''r'')"] by simp
  then have "form_weight ?v \<le> 10 * 2 ^ 20"
    by (simp add: form_weight_def refresh_form_def vals_Set_def mockClientID_def clientAssertionType_def)
  then have "length (Encode ?v) \<le> 10 * 2 ^ 20" using length_Encode [of ?v] by (rule le_trans [rotated])
  ultimately show ?thesis by blast
qed

lemma two_size: "length (rs_Body (json_answer 200 (issued_doc farm_issuer 2 None))) \<le> 2 ^ 20"
proof -
  have "length (rs_Body (json_answer 200 (issued_doc farm_issuer 2 None))) = 108"
    unfolding json_answer_def answer_def issued_canonical
    by (simp add: issued_members_def type_member_def farm_issuer_def test_issuer_def) code_simp
  then show ?thesis by simp
qed

lemma two_refresh:
  assumes "fst (outside w) n = None" "ms_refreshSeq (mock_of w) = 1"
  shows "\<exists>w'. Source_Refresh (process_source n two_net env op two_config) ''refresh-token-1'' w = (Inr (rotated 2 (Time 0 0)), w')"
proof -
  obtain w1 where d: "discover (process_source n two_net env op two_config) w = (Inr two_provider, w1)" "mock_of w1 = mock_of w"
    using two_discover [OF assms(1)] by blast
  obtain v where v: "authenticate two_net two_provider (refresh_form ''refresh-token-1'') w1 = (Inr v, w1)" "length (Encode v) \<le> 10 * 2 ^ 20"
    using two_authenticate by blast
  have seq: "Suc (ms_refreshSeq (mock_of w1)) = 2" by (simp add: d(2) assms(2))
  have err: "mi_RefreshErr farm_issuer = []" by (simp add: farm_issuer_def test_issuer_def)
  have "\<exists>res w'. Provider_Refresh two_net two_provider sc ''refresh-token-1'' w1 = (Inr res, w')" for sc
  proof (rule refresh_accepted [OF two_client two_rotation err v, where get = mock_of])
    show "length (rs_Body (json_answer 200 (issued_doc farm_issuer (Suc (ms_refreshSeq (mock_of w1))) None))) \<le> 2 ^ 20"
      unfolding seq by (rule two_size)
    show "\<exists>w2. nt_http two_net req w1 = (Inr rs, w2)"
      if "mock_http farm_issuer req (mock_of w1) = (Inr rs, s)" "length (rs_Body rs) \<le> 2 ^ 20" for req rs s
      using that by (simp add: two_net_def farm_http_def)
  qed
  then obtain res w' where r: "Provider_Refresh two_net two_provider (s_Scope (process_source n two_net env op two_config))
      ''refresh-token-1'' w1 = (Inr res, w')" by blast
  have "res = rotated 2 (Time 0 0)"
    using Provider_Refresh_rotates [OF r two_delivers two_rotation two_client(2)] seq by (simp add: two_net_def)
  then show ?thesis using d(1) r by (simp add: Source_Refresh_def process_source_simps provider_ops_def)
qed

lemma two_entry_storable: "storable two_entry"
proof -
  have "utf8_valid ''https://i''" "utf8_valid mockClientID" "utf8_valid ''access-token-1''" "utf8_valid ''refresh-token-1''"
    by (rule ascii_utf8_valid; code_simp)+
  then show ?thesis using sample_marshalable by (simp add: storable_def two_entry_def)
qed

lemma saved_entry:
  assumes "storable e"
  shows "\<exists>w0. Cache_Save fair_os dir e (blank x) = (None, w0)"
proof -
  obtain b where "Marshal_Entry e = Inr b" using storable_marshals [OF assms] by blast
  then show ?thesis using fair_save [of "blank x" e b] by (simp add: blank_def prod_eq_iff)
qed

lemma issuer_rotates_witness:
  "\<exists>w0 w. (sched_step fair_os ''/cache'' (map (process_runner fair_os ''/cache'' two_net (\<lambda>_. two_env) (\<lambda>_ w. (None, w)) two_config
        (\<lambda>_. Time (10 ^ 30) 0)) [0..<2]))\<^sup>*\<^sup>*
      ([Start, Start], w0, []) ([Persisting (rotated 2 (Time 0 0)), Start], w, [Redeemed ''refresh-token-1'']) \<and>
    stored_token ''/cache'' ''https://i'' mockClientID w0 = ''refresh-token-1'' \<and> distinct (redeemed [Redeemed ''refresh-token-1''])"
proof -
  let ?r = "process_runner fair_os ''/cache'' two_net (\<lambda>_. two_env) (\<lambda>_ w. (None, w)) two_config (\<lambda>_. Time (10 ^ 30) 0)"
  let ?x = "(\<lambda>_. None, (new_mock_state (Time 0 0))\<lparr>ms_refreshSeq := 1\<rparr>) :: farm"
  obtain w0 where v: "Cache_Save fair_os ''/cache'' two_entry (blank ?x) = (None, w0)"
    using saved_entry [OF two_entry_storable, of "''/cache''" ?x] ..
  have free: "locks w0 = []" "outside w0 = ?x" using Cache_Save_locks [OF v] Cache_Save_outside [OF v] by (simp_all add: blank_def)
  have e: "e_Issuer two_entry = ''https://i''" "e_ClientID two_entry = mockClientID" "e_RefreshToken two_entry = ''refresh-token-1''"
    and cfg: "c_Issuer two_config = ''https://i''" "c_ClientID two_config = mockClientID" "c_ClientAuthMethod two_config = ''private_key_jwt''"
    by (simp_all add: two_entry_def two_config_def)
  have r: "rn_Cache (?r 0) = file_store fair_os ''/cache''" "rn_Issuer (?r 0) = e_Issuer two_entry" "rn_ClientID (?r 0) = e_ClientID two_entry"
    by (simp_all add: process_runner_def e cfg)
  have stale: "\<not> entryValid (rn_now (?r 0) w) two_entry" "e_RefreshToken two_entry \<noteq> []" for w
    by (simp_all add: entryValid_def two_entry_def process_runner_def IsZero_def Before_def Add_def Skew_def)
  have "\<exists>w'. ts_Refresh (rn_Source (?r 0)) (e_RefreshToken two_entry) w = (Inr (rotated 2 (Time 0 0)), w')"
    if "outside w = outside w0" for w
    using two_refresh [of w 0] that by (simp add: process_runner_def token_source_of_def e mock_of_def free(2))
  moreover have "r_IDTokenError (rotated 2 (Time 0 0)) = None" "r_RefreshToken (rotated 2 (Time 0 0)) \<noteq> []"
    by (simp_all add: rotated_def zero_result_def)
  ultimately obtain w where "(sched_step fair_os ''/cache'' (?r 0 # [?r 1]))\<^sup>*\<^sup>* (Start # [Start], w0, [])
      (Persisting (rotated 2 (Time 0 0)) # [Start], w, [Redeemed (e_RefreshToken two_entry)])"
    using refresh_trace [OF v two_entry_storable free(1) r stale] by blast
  then have run: "(sched_step fair_os ''/cache'' (map ?r [0..<2]))\<^sup>*\<^sup>* (replicate 2 Start, w0, [])
      ([Persisting (rotated 2 (Time 0 0)), Start], w, [Redeemed ''refresh-token-1''])"
    by (simp add: e upt_rec numeral_2_eq_2)
  obtain w1 where "Cache_Load fair_os ''/cache'' ''https://i'' mockClientID w0 = (Inr (Some two_entry), w1)"
    using fair_load_saved [OF refl v two_entry_storable] e by auto
  then have tok: "stored_token ''/cache'' ''https://i'' mockClientID w0 = ''refresh-token-1''"
    by (rule stored_token_read [THEN trans]) (simp add: e)
  have "''refresh-token-'' @ itoa 1 = ''refresh-token-1''" by code_simp
  then have stored: "stored_token ''/cache'' (c_Issuer two_config) (c_ClientID two_config) w0 \<in> insert [] (farm_issued (outside w0))"
    by (simp add: tok cfg farm_issued_def free(2))
  have utf8: "utf8_valid (c_Issuer two_config)" "utf8_valid (c_ClientID two_config)"
    unfolding cfg by (rule ascii_utf8_valid; code_simp)+
  have logins: "\<forall>n < 2. login_mints farm_issued (farm_ok farm_issuer) (c_Issuer two_config) (c_ClientID two_config)
      (token_source_of (process_source n two_net two_env (\<lambda>_ w. (None, w)) two_config))"
    using unattended_mints [OF two_farm cfg(3)] by (simp add: two_env_def)
  have slots: "fst (outside w0) = (\<lambda>_. None)" by (simp add: free(2))
  have "distinct (redeemed [Redeemed ''refresh-token-1''])"
    using issuer_rotates [OF run two_farm two_rotation cfg(3) utf8 logins free(1) slots stored] by simp
  then show ?thesis using run tok by (auto simp: numeral_2_eq_2)
qed

end
