(* ===== verification/SaveSteps.thy ===== *)
theory SaveSteps
  imports CacheProps
begin

text \<open>
  Several processes on one cache directory. \<^const>\<open>Cache_Save\<close> one system call at a time, and any
  number of saves, deletions and reads interleaved: processes share nothing but the file system. The
  step-by-step program computes what \<^const>\<open>Cache_Save\<close> computes; in every state that interleaving
  reaches, each token file is whole.
\<close>

section \<open>A save, one system call at a time\<close>

text \<open>Where a save is: the next call, with the variables the code still holds.\<close>

datatype save_pc =
    AtMkdir
  | AtChmodDir
  | AtCreate string
  | AtWrite string string
  | AtClose string string
  | AtChmod string string
  | AtRename string string
  | AtAbort string error
  | AtRemove string error
  | Saved "error option"

definition after_call :: "(error + 'a) \<times> 'x world \<Rightarrow> ('a \<Rightarrow> save_pc) \<Rightarrow> (error \<Rightarrow> save_pc) \<Rightarrow> save_pc \<times> 'x world" where
  "after_call y f g = (case y of (Inl err, w) \<Rightarrow> (g err, w) | (Inr x, w) \<Rightarrow> (f x, w))"

definition failing :: "string \<Rightarrow> error \<Rightarrow> save_pc" where
  "failing s err = Saved (Some (wrap s err))"

fun save_step :: "os \<Rightarrow> string \<Rightarrow> entry \<Rightarrow> save_pc \<Rightarrow> 'x world \<Rightarrow> save_pc \<times> 'x world" where
  "save_step os dir e AtMkdir w =
     after_call (MkdirAll os dir mode_0700 w) (\<lambda>_. AtChmodDir) (failing ''cache: create dir: '')"
| "save_step os dir e AtChmodDir w =
     after_call (Chmod os dir mode_0700 w)
       (\<lambda>_. case Marshal_Entry e of Inl err \<Rightarrow> failing ''cache: marshal: '' err | Inr b \<Rightarrow> AtCreate b)
       (failing ''cache: chmod dir: '')"
| "save_step os dir e (AtCreate b) w =
     after_call (CreateTemp os dir w) (AtWrite b) (failing ''cache: create temp file: '')"
| "save_step os dir e (AtWrite b tmp) w =
     after_call (Write os tmp b w) (\<lambda>_. AtClose b tmp) (\<lambda>err. AtAbort tmp (wrap ''cache: write temp file: '' err))"
| "save_step os dir e (AtClose b tmp) w =
     after_call (Close os tmp w) (\<lambda>_. AtChmod b tmp) (\<lambda>err. AtRemove tmp (wrap ''cache: close temp file: '' err))"
| "save_step os dir e (AtChmod b tmp) w =
     after_call (Chmod os tmp mode_0600 w) (\<lambda>_. AtRename b tmp) (\<lambda>err. AtRemove tmp (wrap ''cache: chmod temp file: '' err))"
| "save_step os dir e (AtRename b tmp) w =
     after_call (Rename os tmp (path dir (e_Issuer e) (e_ClientID e)) w) (\<lambda>_. Saved None)
       (\<lambda>err. AtRemove tmp (wrap ''cache: rename temp file: '' err))"
| "save_step os dir e (AtAbort tmp err) w = (AtRemove tmp err, snd (Close os tmp w))"
| "save_step os dir e (AtRemove tmp err) w = (Saved (Some err), snd (Remove os tmp w))"
| "save_step os dir e (Saved r) w = (Saved r, w)"

section \<open>The same as \<^const>\<open>Cache_Save\<close>\<close>

text \<open>What is left of a save, as the function of the code has it, and how many calls it is at most.\<close>

definition or_remove :: "os \<Rightarrow> string \<Rightarrow> error option \<times> 'x world \<Rightarrow> error option \<times> 'x world" where
  "or_remove os tmp y = (case y of (None, w) \<Rightarrow> (None, w) | (Some err, w) \<Rightarrow> (Some err, snd (Remove os tmp w)))"

definition renamed :: "os \<Rightarrow> string \<Rightarrow> string \<Rightarrow> 'x world \<Rightarrow> error option \<times> 'x world" where
  "renamed os tmp dest = try_sys (Rename os tmp dest) ''cache: rename temp file: '' (\<lambda>_ w. (None, w))"

definition private_renamed :: "os \<Rightarrow> string \<Rightarrow> string \<Rightarrow> 'x world \<Rightarrow> error option \<times> 'x world" where
  "private_renamed os tmp dest = try_sys (Chmod os tmp mode_0600) ''cache: chmod temp file: '' (\<lambda>_. renamed os tmp dest)"

definition created :: "os \<Rightarrow> string \<Rightarrow> string \<Rightarrow> string \<Rightarrow> 'x world \<Rightarrow> error option \<times> 'x world" where
  "created os dir dest b = try_sys (CreateTemp os dir) ''cache: create temp file: ''
     (\<lambda>tmp w. or_remove os tmp (fill_and_rename os tmp dest b w))"

fun finish :: "os \<Rightarrow> string \<Rightarrow> entry \<Rightarrow> save_pc \<Rightarrow> 'x world \<Rightarrow> error option \<times> 'x world" where
  "finish os dir e AtMkdir w = Cache_Save os dir e w"
| "finish os dir e AtChmodDir w =
     try_sys (Chmod os dir mode_0700) ''cache: chmod dir: '' (\<lambda>_ w.
       case Marshal_Entry e of
         Inl err \<Rightarrow> (Some (wrap ''cache: marshal: '' err), w)
       | Inr b \<Rightarrow> created os dir (path dir (e_Issuer e) (e_ClientID e)) b w) w"
| "finish os dir e (AtCreate b) w = created os dir (path dir (e_Issuer e) (e_ClientID e)) b w"
| "finish os dir e (AtWrite b tmp) w = or_remove os tmp (fill_and_rename os tmp (path dir (e_Issuer e) (e_ClientID e)) b w)"
| "finish os dir e (AtClose b tmp) w = or_remove os tmp
     (try_sys (Close os tmp) ''cache: close temp file: ''
       (\<lambda>_. private_renamed os tmp (path dir (e_Issuer e) (e_ClientID e))) w)"
| "finish os dir e (AtChmod b tmp) w = or_remove os tmp (private_renamed os tmp (path dir (e_Issuer e) (e_ClientID e)) w)"
| "finish os dir e (AtRename b tmp) w = or_remove os tmp (renamed os tmp (path dir (e_Issuer e) (e_ClientID e)) w)"
| "finish os dir e (AtAbort tmp err) w = (Some err, snd (Remove os tmp (snd (Close os tmp w))))"
| "finish os dir e (AtRemove tmp err) w = (Some err, snd (Remove os tmp w))"
| "finish os dir e (Saved r) w = (r, w)"

fun calls_left :: "save_pc \<Rightarrow> nat" where
  "calls_left AtMkdir = 8" | "calls_left AtChmodDir = 7" | "calls_left (AtCreate _) = 6"
| "calls_left (AtWrite _ _) = 5" | "calls_left (AtClose _ _) = 4" | "calls_left (AtChmod _ _) = 3"
| "calls_left (AtRename _ _) = 2" | "calls_left (AtAbort _ _) = 2" | "calls_left (AtRemove _ _) = 1"
| "calls_left (Saved _) = 0"

lemmas save_cases = after_call_def failing_def try_sys_def or_remove_def renamed_def private_renamed_def created_def

lemma finish_step: "save_step os dir e pc w = (pc', w') \<Longrightarrow> finish os dir e pc' w' = finish os dir e pc w"
proof (cases pc)
  case AtMkdir
  then show "save_step os dir e pc w = (pc', w') \<Longrightarrow> ?thesis"
    by (auto simp: save_cases Cache_Save_def ensureDir_def Let_def split: prod.splits sum.splits option.splits)
next
  case (AtWrite b tmp)
  then show "save_step os dir e pc w = (pc', w') \<Longrightarrow> ?thesis"
    by (auto simp: save_cases fill_and_rename_def split: prod.splits sum.splits)
qed (auto simp: save_cases split: prod.splits sum.splits)

lemma calls_left_step:
  "save_step os dir e pc w = (pc', w') \<Longrightarrow> calls_left pc' = 0 \<or> calls_left pc' < calls_left pc"
  by (cases pc) (auto simp: save_cases split: prod.splits sum.splits)

text \<open>
  C25: One system call at a time, with whatever failures, a save is \<^const>\<open>Cache_Save\<close>: it is over
  after at most eight calls, with the result and the file system of the function.
\<close>

theorem save_steps_refine:
  "((\<lambda>(pc, w). save_step os dir e pc w) ^^ 8) (AtMkdir, w) = apfst Saved (Cache_Save os dir e w)"
proof -
  let ?f = "\<lambda>(pc, w). save_step os dir e pc w"
  have inv: "calls_left (fst ((?f ^^ n) (AtMkdir, w))) \<le> 8 - n \<and>
      case_prod (finish os dir e) ((?f ^^ n) (AtMkdir, w)) = Cache_Save os dir e w" for n
  proof (induction n)
    case (Suc n)
    obtain pc v where s: "(?f ^^ n) (AtMkdir, w) = (pc, v)" by (cases "(?f ^^ n) (AtMkdir, w)")
    obtain pc' v' where t: "save_step os dir e pc v = (pc', v')" by (cases "save_step os dir e pc v")
    have "(?f ^^ Suc n) (AtMkdir, w) = (pc', v')" by (simp add: s t)
    then show ?case
      using Suc.IH finish_step [OF t] calls_left_step [OF t] by (simp only: s) auto
  qed simp
  obtain pc v where s: "(?f ^^ 8) (AtMkdir, w) = (pc, v)" by (cases "(?f ^^ 8) (AtMkdir, w)")
  with inv [of 8] have "calls_left pc = 0" and f: "finish os dir e pc v = Cache_Save os dir e w" by auto
  then obtain r where "pc = Saved r" by (cases pc) auto
  with s f show ?thesis by (metis apfst_conv finish.simps(10))
qed

section \<open>Interleavings\<close>

text \<open>
  The processes that save, each with its entry and its place in the program, and one file system. Any
  of them makes the next call, or another process deletes or reads a profile. A process that is never
  scheduled again has crashed.
\<close>

inductive shared_step ::
  "os \<Rightarrow> string \<Rightarrow> entry list \<Rightarrow> save_pc list \<times> 'x world \<Rightarrow> save_pc list \<times> 'x world \<Rightarrow> bool"
  for os dir es where
  saving: "n < length es \<Longrightarrow> save_step os dir (es ! n) (pcs ! n) w = (pc', w') \<Longrightarrow>
     shared_step os dir es (pcs, w) (pcs[n := pc'], w')"
| deleting: "Cache_Delete os dir i c w = (y, w') \<Longrightarrow> shared_step os dir es (pcs, w) (pcs, w')"
| reading: "Cache_Load os dir i c w = (y, w') \<Longrightarrow> shared_step os dir es (pcs, w) (pcs, w')"

inductive_cases shared_stepE: "shared_step os dir es s s'"

text \<open>The temporary file a process owns, and what is in it.\<close>

fun owned :: "save_pc \<Rightarrow> string option" where
  "owned (AtWrite _ tmp) = Some tmp" | "owned (AtClose _ tmp) = Some tmp" | "owned (AtChmod _ tmp) = Some tmp"
| "owned (AtRename _ tmp) = Some tmp" | "owned (AtAbort tmp _) = Some tmp" | "owned (AtRemove tmp _) = Some tmp"
| "owned _ = None"

fun bytes_ok :: "entry \<Rightarrow> save_pc \<Rightarrow> string option \<Rightarrow> bool" where
  "bytes_ok e (AtCreate b) c \<longleftrightarrow> Marshal_Entry e = Inr b"
| "bytes_ok e (AtWrite b _) c \<longleftrightarrow> Marshal_Entry e = Inr b \<and> c = Some []"
| "bytes_ok e (AtClose b _) c \<longleftrightarrow> Marshal_Entry e = Inr b \<and> c = Some b"
| "bytes_ok e (AtChmod b _) c \<longleftrightarrow> Marshal_Entry e = Inr b \<and> c = Some b"
| "bytes_ok e (AtRename b _) c \<longleftrightarrow> Marshal_Entry e = Inr b \<and> c = Some b"
| "bytes_ok e (AtAbort _ _) c \<longleftrightarrow> c \<noteq> None"
| "bytes_ok e (AtRemove _ _) c \<longleftrightarrow> c \<noteq> None"
| "bytes_ok e _ c \<longleftrightarrow> True"

definition pc_ok :: "entry \<Rightarrow> save_pc \<Rightarrow> 'x world \<Rightarrow> bool" where
  "pc_ok e pc w \<longleftrightarrow>
     bytes_ok e pc (Option.bind (owned pc) (contents w)) \<and> (\<forall>dir k. owned pc \<noteq> Some (key_file dir k))"

lemma owned_present: "pc_ok e pc w \<Longrightarrow> owned pc = Some tmp \<Longrightarrow> contents w tmp \<noteq> None"
  by (cases pc) (auto simp: pc_ok_def)

text \<open>
  What one step changes: at most the file the process owns or creates and, to the bytes of its entry,
  its token file.
\<close>

lemma save_step_effect:
  assumes "save_step os dir e pc w = (pc', w')" "pc_ok e pc w"
  shows "pc_ok e pc' w'" (is ?ok)
    and "contents w' p = contents w p \<or> owned pc = Some p \<or> contents w p = None \<and> owned pc' = Some p \<or>
      p = path dir (e_Issuer e) (e_ClientID e) \<and> (\<exists>b. Marshal_Entry e = Inr b \<and> contents w' p = Some b)" (is ?frame)
    and "owned pc' = owned pc \<or> owned pc' = None \<or> owned pc = None \<and> (\<exists>tmp. owned pc' = Some tmp \<and> contents w tmp = None)" (is ?owner)
proof -
  have "?ok \<and> ?frame \<and> ?owner"
  proof (cases pc)
    case AtMkdir
    then show ?thesis
      using assms by (cases "MkdirAll os dir mode_0700 w") (auto simp: save_cases pc_ok_def dest: contents_MkdirAll split: sum.splits)
  next
    case AtChmodDir
    then show ?thesis
      using assms by (cases "Chmod os dir mode_0700 w") (auto simp: save_cases pc_ok_def dest: contents_Chmod split: sum.splits)
  next
    case (AtCreate b)
    obtain r v where c: "CreateTemp os dir w = (r, v)" by (cases "CreateTemp os dir w")
    show ?thesis
      using assms AtCreate contents_CreateTemp [OF c]
      by (auto simp: save_cases pc_ok_def c tmp_path_not_key split: sum.splits)
  next
    case (AtWrite b tmp)
    obtain r v where c: "Write os tmp b w = (r, v)" by (cases "Write os tmp b w")
    from assms AtWrite have t: "contents w tmp = Some []" by (simp add: pc_ok_def)
    show ?thesis
      using assms AtWrite contents_Write [OF c t] by (auto simp: save_cases pc_ok_def c split: sum.splits)
  next
    case (AtClose b tmp)
    then show ?thesis
      using assms by (cases "Close os tmp w") (auto simp: save_cases pc_ok_def dest: contents_Close split: sum.splits)
  next
    case (AtChmod b tmp)
    then show ?thesis
      using assms by (cases "Chmod os tmp mode_0600 w") (auto simp: save_cases pc_ok_def dest: contents_Chmod split: sum.splits)
  next
    case (AtRename b tmp)
    let ?dest = "path dir (e_Issuer e) (e_ClientID e)"
    obtain r v where c: "Rename os tmp ?dest w = (r, v)" by (cases "Rename os tmp ?dest w")
    show ?thesis
      using assms AtRename contents_Rename [OF c] by (auto simp: save_cases pc_ok_def c split: sum.splits)
  next
    case (AtAbort tmp err)
    then show ?thesis
      using assms by (cases "Close os tmp w") (auto simp: pc_ok_def dest: contents_Close)
  next
    case (AtRemove tmp err)
    obtain r v where c: "Remove os tmp w = (r, v)" by (cases "Remove os tmp w")
    show ?thesis
      using assms AtRemove contents_Remove [OF c] by (auto simp: pc_ok_def c split: sum.splits)
  next
    case (Saved r)
    then show ?thesis using assms by simp
  qed
  then show ?ok ?frame ?owner by blast+
qed

lemma pc_ok_frame:
  "pc_ok e pc w \<Longrightarrow> (\<And>tmp. owned pc = Some tmp \<Longrightarrow> contents w' tmp = contents w tmp) \<Longrightarrow> pc_ok e pc w'"
  by (cases "owned pc") (auto simp: pc_ok_def)

lemma Cache_Delete_effect:
  assumes "Cache_Delete os dir i c w = (y, w')"
  shows "contents w' p = contents w p \<or> p = path dir i c \<and> contents w' p = None"
proof -
  obtain r v where rm: "Remove os (path dir i c) w = (r, v)" by (cases "Remove os (path dir i c) w")
  then show ?thesis
    using contents_Remove [OF rm] assms by (auto simp: Cache_Delete_def split: sum.splits if_splits)
qed

text \<open>The bytes a token file may have: those from before, none, or an entry one of the processes saves.\<close>

definition possible :: "string \<Rightarrow> entry list \<Rightarrow> 'x world \<Rightarrow> string \<Rightarrow> string option set" where
  "possible dir es w0 p =
     {contents w0 p, None} \<union>
     {Some b | e b. e \<in> set es \<and> Marshal_Entry e = Inr b \<and> path dir (e_Issuer e) (e_ClientID e) = p}"

fun shared_ok :: "string \<Rightarrow> entry list \<Rightarrow> 'x world \<Rightarrow> save_pc list \<times> 'x world \<Rightarrow> bool" where
  "shared_ok dir es w0 (pcs, w) \<longleftrightarrow>
     length pcs = length es \<and> (\<forall>n < length es. pc_ok (es ! n) (pcs ! n) w) \<and>
     (\<forall>m < length es. \<forall>n < length es. m \<noteq> n \<longrightarrow> owned (pcs ! m) = None \<or> owned (pcs ! m) \<noteq> owned (pcs ! n)) \<and>
     (\<forall>k. contents w (key_file dir k) \<in> possible dir es w0 (key_file dir k))"

lemma shared_ok_saving:
  assumes ok: "shared_ok dir es w0 (pcs, w)" and n: "n < length es"
    and step: "save_step os dir (es ! n) (pcs ! n) w = (pc', w')"
  shows "shared_ok dir es w0 (pcs[n := pc'], w')"
proof -
  have l: "length pcs = length es" and pn: "pc_ok (es ! n) (pcs ! n) w" using ok n by auto
  have apart: "owned (pcs ! m) \<noteq> owned (pcs ! j)" if "owned (pcs ! m) = Some tmp" "m < length es" "j < length es" "m \<noteq> j" for m j tmp
    using ok that by (metis option.distinct(1) shared_ok.simps)
  note eff = save_step_effect [OF step pn]
  have key: "owned (pcs ! m) \<noteq> Some (key_file d k)" "owned pc' \<noteq> Some (key_file d k)" if "m < length es" for m d k
    using ok that eff(1) by (auto simp: pc_ok_def)
  have "pc_ok (es ! m) (pcs[n := pc'] ! m) w'" if m: "m < length es" for m
  proof (cases "m = n")
    case True
    then show ?thesis using eff(1) n l by simp
  next
    case False
    have p: "pc_ok (es ! m) (pcs ! m) w" using ok m by auto
    have "pc_ok (es ! m) (pcs ! m) w'"
    proof (rule pc_ok_frame [OF p])
      fix tmp
      assume o: "owned (pcs ! m) = Some tmp"
      have "contents w tmp \<noteq> None" "owned (pcs ! n) \<noteq> Some tmp"
        using owned_present [OF p o] apart [OF o m n False] o by simp_all
      moreover have "tmp \<noteq> path dir i c" for i c using key(1) [OF m] o by (auto simp: path_key)
      ultimately show "contents w' tmp = contents w tmp" using eff(2) [of tmp] by auto
    qed
    then show ?thesis using False by simp
  qed
  moreover have "owned (pcs[n := pc'] ! m) = None \<or> owned (pcs[n := pc'] ! m) \<noteq> owned (pcs[n := pc'] ! j)"
    if m: "m < length es" and j: "j < length es" and "m \<noteq> j" for m j
  proof -
    have new: "owned pc' \<noteq> owned (pcs ! j)" if "j \<noteq> n" "j < length es" "owned pc' \<noteq> None" for j
    proof -
      have "pc_ok (es ! j) (pcs ! j) w" using ok that by auto
      then have "owned (pcs ! j) = Some tmp \<Longrightarrow> contents w tmp \<noteq> None" for tmp by (rule owned_present)
      moreover have "owned (pcs ! n) \<noteq> owned (pcs ! j)" if "owned (pcs ! n) = owned pc'"
        using apart [of n _ j] n \<open>j < length es\<close> \<open>j \<noteq> n\<close> \<open>owned pc' \<noteq> None\<close> that by auto
      ultimately show ?thesis using eff(3) that(3) by fastforce
    qed
    have old: "owned (pcs ! m) = None \<or> owned (pcs ! m) \<noteq> owned (pcs ! j)"
      using apart m j \<open>m \<noteq> j\<close> by (cases "owned (pcs ! m)") auto
    consider "m = n" "j \<noteq> n" | "m \<noteq> n" "j = n" | "m \<noteq> n" "j \<noteq> n" using \<open>m \<noteq> j\<close> by blast
    then show ?thesis
    proof cases
      case 1
      then show ?thesis using new [of j] j n l by (cases "owned pc' = None") simp_all
    next
      case 2
      then show ?thesis using new [of m] m n l by (cases "owned pc' = None") (metis nth_list_update_eq nth_list_update_neq)+
    next
      case 3
      then show ?thesis using old m j by simp
    qed
  qed
  moreover have "contents w' (key_file dir k) \<in> possible dir es w0 (key_file dir k)" for k
  proof -
    have "contents w' (key_file dir k) = contents w (key_file dir k) \<or>
        key_file dir k = path dir (e_Issuer (es ! n)) (e_ClientID (es ! n)) \<and>
        (\<exists>b. Marshal_Entry (es ! n) = Inr b \<and> contents w' (key_file dir k) = Some b)"
      using eff(2) [of "key_file dir k"] key [OF n] by simp
    moreover have "es ! n \<in> set es" using n by simp
    moreover have "contents w (key_file dir k) \<in> possible dir es w0 (key_file dir k)" using ok by simp
    ultimately show ?thesis unfolding possible_def by fastforce
  qed
  ultimately show ?thesis using l by simp
qed

lemma shared_ok_step:
  assumes "shared_step os dir es s s'" "shared_ok dir es w0 s"
  shows "shared_ok dir es w0 s'"
  using assms
proof (cases rule: shared_step.cases)
  case (saving n pcs w pc' w')
  then show ?thesis using assms(2) by (simp only: shared_ok_saving)
next
  case (deleting i c w y w' pcs)
  then have eff: "contents w' p = contents w p \<or> p = path dir i c \<and> contents w' p = None" for p
    by (intro Cache_Delete_effect)
  have "pc_ok (es ! n) (pcs ! n) w'" if "n < length es" for n
  proof (rule pc_ok_frame)
    show "pc_ok (es ! n) (pcs ! n) w" using assms(2) deleting(1) that by simp
    then show "contents w' tmp = contents w tmp" if "owned (pcs ! n) = Some tmp" for tmp
      using eff [of tmp] that by (auto simp: pc_ok_def path_key)
  qed
  moreover have "contents w' (key_file dir k) \<in> possible dir es w0 (key_file dir k)" for k
    using eff [of "key_file dir k"] assms(2) deleting(1) by (auto simp: possible_def)
  ultimately show ?thesis using assms(2) deleting(1,2) by simp
next
  case (reading i c w y w' pcs)
  then have "contents w' = contents w" by (simp add: Cache_Load_contents)
  then show ?thesis using assms(2) reading(1,2) by (auto intro: pc_ok_frame)
qed

text \<open>
  C2: However the system calls of any number of saving processes are interleaved with each other and
  with deletions and reads, whatever fails and whoever crashes: a token file always holds what it held
  before, or nothing, or all bytes of an entry that one of the processes saves for that profile; so a
  read returns such an entry, and never a mixture or a part of one.
\<close>

theorem concurrent_saves_whole:
  assumes "(shared_step os dir es)\<^sup>*\<^sup>* (replicate (length es) AtMkdir, w0) (pcs, w)" "list_all storable es"
  shows "contents w (path dir i c) \<in> possible dir es w0 (path dir i c) \<and>
    (honest os \<and> Cache_Load os dir i c w = (Inr r, w') \<longrightarrow>
       r = None \<or> r = file_view dir w0 (profileKey i c) \<or> (\<exists>e \<in> set es. r = Some e))"
proof -
  have "shared_ok dir es w0 (replicate (length es) AtMkdir, w0)"
    by (simp add: pc_ok_def possible_def)
  with assms(1) have "shared_ok dir es w0 (pcs, w)"
    by (induction rule: rtranclp_induct) (auto intro: shared_ok_step)
  then have c: "contents w (path dir i c) \<in> possible dir es w0 (path dir i c)" by (simp add: path_key)
  moreover have "r = None \<or> r = file_view dir w0 (profileKey i c) \<or> (\<exists>e \<in> set es. r = Some e)"
    if "honest os" "Cache_Load os dir i c w = (Inr r, w')"
  proof -
    have "r = Option.bind (contents w (path dir i c)) Unmarshal_Entry"
      using Cache_Load_view [OF that] by (simp add: file_view_path)
    moreover have "Unmarshal_Entry b = Some e" if "e \<in> set es" "Marshal_Entry e = Inr b" for e b
      using entry_roundtrip that assms(2) by (simp add: list_all_iff)
    ultimately show ?thesis using c by (auto simp: possible_def file_view_path)
  qed
  ultimately show ?thesis by blast
qed

text \<open>A process that is left alone makes the steps of its save.\<close>

lemma shared_alone:
  assumes "n < length es" "length pcs = length es"
  shows "(shared_step os dir es)\<^sup>*\<^sup>* (pcs, w)
    (pcs[n := fst (((\<lambda>(pc, w). save_step os dir (es ! n) pc w) ^^ k) (pcs ! n, w))],
     snd (((\<lambda>(pc, w). save_step os dir (es ! n) pc w) ^^ k) (pcs ! n, w)))"
proof (induction k)
  case (Suc k)
  let ?f = "\<lambda>(pc, w). save_step os dir (es ! n) pc w"
  obtain pc v where s: "(?f ^^ k) (pcs ! n, w) = (pc, v)" by (cases "(?f ^^ k) (pcs ! n, w)")
  obtain pc' v' where t: "save_step os dir (es ! n) pc v = (pc', v')" by (cases "save_step os dir (es ! n) pc v")
  have "shared_step os dir es (pcs[n := pc], v) (pcs[n := pc, n := pc'], v')"
    using t assms by (intro saving) simp_all
  then have "shared_step os dir es (pcs[n := pc], v) (pcs[n := pc'], v')" by simp
  moreover have "(?f ^^ Suc k) (pcs ! n, w) = (pc', v')" by (simp add: s t)
  ultimately show ?case using Suc.IH by (simp only: s fst_conv snd_conv rtranclp.rtrancl_into_rtrancl)
qed (use assms in simp)

lemma concurrent_saves_whole_witness:
  "\<exists>pcs w r w'. (shared_step fair_os ''/cache'' [sample, sample\<lparr>e_AccessToken := ''other''\<rparr>])\<^sup>*\<^sup>* ([AtMkdir, AtMkdir], blank ()) (pcs, w) \<and>
     pcs = [Saved None, AtChmodDir] \<and> Cache_Load fair_os ''/cache'' (e_Issuer sample) (e_ClientID sample) w = (Inr r, w') \<and>
     (r = None \<or> r = Some sample \<or> r = Some (sample\<lparr>e_AccessToken := ''other''\<rparr>))"
proof -
  let ?e = "sample\<lparr>e_AccessToken := ''other''\<rparr>"
  let ?es = "[sample, ?e]"
  obtain b where b: "Marshal_Entry sample = Inr b" using sample_bytes by blast
  obtain v where v: "Cache_Save fair_os ''/cache'' sample (blank ()) = (None, v)"
    using fair_save [of "blank ()" sample b] b by (auto simp: blank_def prod_eq_iff)
  have "(shared_step fair_os ''/cache'' ?es)\<^sup>*\<^sup>* ([AtMkdir, AtMkdir], blank ()) ([Saved None, AtMkdir], v)"
    using shared_alone [of 0 ?es "[AtMkdir, AtMkdir]" fair_os "''/cache''" "blank ()" 8] by (simp add: save_steps_refine v)
  moreover obtain w where "save_step fair_os ''/cache'' ?e AtMkdir v = (AtChmodDir, w)"
    by (simp add: save_cases MkdirAll_def sys_def fair_os_def)
  then have "shared_step fair_os ''/cache'' ?es ([Saved None, AtMkdir], v) ([Saved None, AtMkdir][1 := AtChmodDir], w)"
    by (intro saving) simp_all
  ultimately have run: "(shared_step fair_os ''/cache'' ?es)\<^sup>*\<^sup>* (replicate (length ?es) AtMkdir, blank ()) ([Saved None, AtChmodDir], w)"
    by (simp add: numeral_2_eq_2)
  have st: "list_all storable ?es" using sample_storable by (simp add: storable_def sample_def ascii_utf8_valid)
  obtain r w' where l: "Cache_Load fair_os ''/cache'' (e_Issuer sample) (e_ClientID sample) w = (Inr r, w')"
    using fair_load by blast
  have "file_view ''/cache'' (blank ()) k = None" for k by (simp add: file_view_def contents_def blank_def)
  with concurrent_saves_whole [OF run st] honest_fair(1) l run show ?thesis by fastforce
qed

end
