(* ===== verification/ChainProps.thy ===== *)
theory ChainProps
  imports CacheProps
begin

text \<open>
  The properties of the keychain backend and of the default store, the keychain with the file
  cache behind it. The examples use a keyring held in memory, which satisfies the laws assumed of
  the library, one that is not there, and one that fails in another way.
\<close>

section \<open>Example keyrings\<close>

type_synonym items = "string \<times> string \<Rightarrow> string option"

definition memory_keyring :: "items keyring" where
  "memory_keyring = \<lparr>
     kr_Get = (\<lambda>s u x. (case x (s, u) of Some t \<Rightarrow> Returned (Inr t)
       | None \<Rightarrow> Returned (Inl (Sentinel ErrKeyringNotFound)), x)),
     kr_Set = (\<lambda>s u v x. (Returned (Inr ''''), x((s, u) \<mapsto> v))),
     kr_Delete = (\<lambda>s u x. case x (s, u) of Some t \<Rightarrow> (Returned (Inr ''''), x((s, u) := None))
       | None \<Rightarrow> (Returned (Inl (Sentinel ErrKeyringNotFound)), x))\<rparr>"

definition failing_keyring :: "error \<Rightarrow> unit keyring" where
  "failing_keyring err = \<lparr>kr_Get = (\<lambda>s u x. (Returned (Inl err), x)),
     kr_Set = (\<lambda>s u v x. (Returned (Inl err), x)), kr_Delete = (\<lambda>s u x. (Returned (Inl err), x))\<rparr>"

lemma memory_laws: "keyring_laws memory_keyring"
  by (auto simp: keyring_laws_def memory_keyring_def reads_as_def split: option.splits)

lemma memory_returns: "returns memory_keyring"
  by (auto simp: returns_def memory_keyring_def split: option.splits)

lemma failing_laws: "\<not> errors_Is ErrKeyringNotFound err \<Longrightarrow> keyring_laws (failing_keyring err)"
  by (auto simp: keyring_laws_def failing_keyring_def)

lemma memory_up: "keychain_up memory_keyring"
  by (auto simp: keychain_up_def unavailable_def memory_keyring_def Keychain_Load_def Keychain_Save_def
      Keychain_Delete_def runKeyringOp_def Marshal_Entry_def split: option.splits sum.splits prod.splits if_splits)

lemma missing_down: "keychain_down (failing_keyring (Sentinel ErrUnsupportedPlatform))"
  by (auto simp: keychain_down_def unavailable_def failing_keyring_def Keychain_Load_def Keychain_Save_def
      Keychain_Delete_def runKeyringOp_def isUnavailable_def)

section \<open>The keychain\<close>

text \<open>
  C37: the keychain backend returns what was saved in it: after a \<^verbatim>\<open>Save\<close> that succeeded, a
  \<^verbatim>\<open>Load\<close> of the profile fails or returns that entry; after a \<^verbatim>\<open>Delete\<close> that succeeded
  it fails or returns none.
\<close>

theorem keychain_save_load_delete:
  assumes "keyring_laws kr" "returns kr" "storable e" "Keychain_Save kr e w = (None, w1)"
    "Keychain_Load kr (e_Issuer e) (e_ClientID e) w1 = (Inr r, w2)"
    "Keychain_Delete kr (e_Issuer e) (e_ClientID e) w2 = (None, w3)"
    "Keychain_Load kr (e_Issuer e) (e_ClientID e) w3 = (Inr r', w4)"
  shows "r = Some e \<and> r' = None"
  using persistent_store.load_after_save [OF keychain_persistent_store [OF assms(1,2)] assms(3-5)]
    base_store.load_after_delete [OF persistent_store.axioms(1) [OF keychain_persistent_store [OF assms(1,2)]] assms(6,7)]
  by simp

theorem keychain_save_load_delete_witness:
  "\<exists>w1 w2 w3 w4. Keychain_Save memory_keyring sample (blank Map.empty) = (None, w1) \<and>
     Keychain_Load memory_keyring (e_Issuer sample) (e_ClientID sample) w1 = (Inr (Some sample), w2) \<and>
     Keychain_Delete memory_keyring (e_Issuer sample) (e_ClientID sample) w2 = (None, w3) \<and>
     Keychain_Load memory_keyring (e_Issuer sample) (e_ClientID sample) w3 = (Inr None, w4)"
proof -
  obtain b where b: "Marshal_Entry sample = Inr b" using sample_bytes by blast
  note defs = Keychain_Save_def Keychain_Load_def Keychain_Delete_def runKeyringOp_def memory_keyring_def
  obtain w1 where s: "Keychain_Save memory_keyring sample (blank Map.empty) = (None, w1)"
    using b by (simp add: defs)
  then have o1: "outside w1 = [(keychainService (e_Issuer sample) (e_ClientID sample), keychainUser) \<mapsto> b]"
    using b by (auto simp: defs blank_def)
  obtain r w2 where l: "Keychain_Load memory_keyring (e_Issuer sample) (e_ClientID sample) w1 = (Inr r, w2)"
    "outside w2 = outside w1"
    using o1 by (auto simp: defs)
  obtain w3 where d: "Keychain_Delete memory_keyring (e_Issuer sample) (e_ClientID sample) w2 = (None, w3)"
    "outside w3 = Map.empty"
    using o1 l(2) by (auto simp: defs)
  obtain r' w4 where l': "Keychain_Load memory_keyring (e_Issuer sample) (e_ClientID sample) w3 = (Inr r', w4)"
    using d(2) by (auto simp: defs)
  from keychain_save_load_delete [OF memory_laws memory_returns sample_storable s l(1) d(1) l'] s l(1) d(1) l'
  show ?thesis by blast
qed

section \<open>The default store\<close>

text \<open>
  C34: With the keychain unavailable the default store is the file cache: each of its saves and loads
  is, result and all, the file cache's own, on the same files, with the fallback noted on standard
  error by then. So, once saved, an entry is what is loaded, across the fallback of both operations.
\<close>

theorem auto_save_load_fallback:
  fixes kr :: "'x keyring"
  assumes "keychain_down kr" "honest os" "storable e"
  shows "let ch = auto_chain kr os dir :: ('x, 'r) chain in
    (\<exists>v. files v = files w \<and> chain_logged v \<and> Chain_Save ch e w = Cache_Save os dir e v) \<and>
    (\<forall>i c. \<exists>v. files v = files w \<and> chain_logged v \<and> Chain_Load ch i c w = Cache_Load os dir i c v) \<and>
    (\<forall>w1 r w2. Chain_Save ch e w = (None, w1) \<and>
      Chain_Load ch (e_Issuer e) (e_ClientID e) w1 = (Inr r, w2) \<longrightarrow> r = Some e)"
proof -
  obtain b where b: "Marshal_Entry e = Inr b" using storable_marshals [OF assms(3)] by blast
  let ?ch = "auto_chain kr os dir :: ('x, 'r) chain"
  have save: "\<exists>v. files v = files w \<and> chain_logged v \<and> Chain_Save ?ch e w = Cache_Save os dir e v" for w
    by (rule auto_down(2) [OF assms(1) b])
  have load: "\<exists>v. files v = files w \<and> chain_logged v \<and> Chain_Load ?ch i c w = Cache_Load os dir i c v" for i c w
    by (rule auto_down(1) [OF assms(1) b])
  have same: "r = Some e"
    if "Chain_Save ?ch e w = (None, w1) \<and> Chain_Load ?ch (e_Issuer e) (e_ClientID e) w1 = (Inr r, w2)" for w1 r w2
  proof -
    from that obtain v v' where s: "Cache_Save os dir e v = (None, w1)"
      and v': "files v' = files w1" "Cache_Load os dir (e_Issuer e) (e_ClientID e) v' = (Inr r, w2)"
      using save [of w] load [of w1 "e_Issuer e" "e_ClientID e"] by auto
    have "file_view dir w1 (profileKey (e_Issuer e) (e_ClientID e)) = Some e"
      using fstore.save_ok [where os = os, unfolded strict_honest [OF assms(2)], OF assms(3) s] by simp
    then show ?thesis
      using Cache_Load_view [OF assms(2) v'(2)] file_view_frame [OF v'(1)] by simp
  qed
  show ?thesis
    unfolding Let_def by (intro conjI allI impI save load) (rule same)
qed

text \<open>The chain of the examples: no keychain on this platform, file cache in /cache.\<close>

definition no_keychain :: "(unit, unit) chain" where
  "no_keychain = auto_chain (failing_keyring (Sentinel ErrUnsupportedPlatform)) fair_os ''/cache''"

theorem auto_save_load_fallback_witness:
  "\<exists>w1 w2. Chain_Save no_keychain sample (blank ()) = (None, w1) \<and>
     Chain_Load no_keychain (e_Issuer sample) (e_ClientID sample) w1 = (Inr (Some sample), w2)"
proof -
  obtain b where b: "Marshal_Entry sample = Inr b" using sample_bytes by blast
  let ?s = "Chain_Save no_keychain sample (blank ())"
  from auto_down(2) [OF missing_down b, of "blank ()" fair_os "''/cache''", where 'r = unit]
  obtain v :: "unit world" where v: "files v = Map.empty" "?s = Cache_Save fair_os ''/cache'' sample v"
    by (auto simp: blank_def no_keychain_def)
  have s: "?s = (None, snd ?s)" using fair_save [OF v(1) b] v(2) by (simp add: prod_eq_iff)
  obtain r w2 where l: "Chain_Load no_keychain (e_Issuer sample) (e_ClientID sample) (snd ?s) = (Inr r, w2)"
    using auto_down(1) [OF missing_down b, of "snd ?s" fair_os "''/cache''", where 'r = unit] fair_load
    unfolding no_keychain_def by metis
  have "r = Some sample"
    using auto_save_load_fallback [where 'r = unit and w = "blank ()" and dir = "''/cache''",
        OF missing_down honest_fair(1) sample_storable, unfolded Let_def, folded no_keychain_def] s l
    by blast
  with s l show ?thesis by blast
qed

text \<open>
  C35: the chain falls back only from a backend that is unavailable: an answer of the first backend,
  be it an entry, a miss or any other error, is the chain's answer, and no later backend is read or
  written.
\<close>

theorem chain_no_retry:
  assumes "Backends ch = b # bs"
    "\<And>err. fst (Load (backend_store b) i c w) = Inl err \<Longrightarrow> \<not> errors_Is ErrBackendUnavailable err"
    "\<not> unavailable (fst (Save (backend_store b) e w))"
  shows "Chain_Load ch i c w = Load (backend_store b) i c w \<and> Chain_Save ch e w = Save (backend_store b) e w"
proof
  show "Chain_Load ch i c w = Load (backend_store b) i c w"
    using chain_load_first [OF prod.collapse [symmetric] assms(2)] assms(1) by (simp add: Chain_Load_def)
  show "Chain_Save ch e w = Save (backend_store b) e w"
    using chain_save_first [OF prod.collapse [symmetric] assms(3)] assms(1) by (simp add: Chain_Save_def)
qed

text \<open>A session without D-Bus: go-keyring returns an error of the D-Bus library.\<close>

definition no_dbus :: "(unit, unit) chain" where
  "no_dbus = auto_chain (failing_keyring (External ''dbus: couldn't determine address of session bus''))
     fair_os ''/cache''"

theorem chain_no_retry_witness:
  "fst (Chain_Load no_dbus ''https://issuer'' ''cli'' (blank ())) =
     Inl (wrap ''cache: keychain read: '' (External ''dbus: couldn't determine address of session bus''))"
proof -
  let ?kr = "failing_keyring (External ''dbus: couldn't determine address of session bus'')"
  let ?b = "OtherBackend (keychain_store ?kr) :: (unit world, unit) backend"
  have b: "Backends no_dbus = ?b # [FileBackend (file_store fair_os ''/cache'')]"
    by (simp add: no_dbus_def auto_chain_def pair_chain_def)
  note defs = keychain_store_def Keychain_Load_def Keychain_Save_def runKeyringOp_def failing_keyring_def
    isUnavailable_def as_ExecError_def unavailable_def
  have l: "\<And>err. fst (Load (backend_store ?b) ''https://issuer'' ''cli'' (blank ())) = Inl err \<Longrightarrow>
      \<not> errors_Is ErrBackendUnavailable err"
    by (auto simp: defs)
  have s: "\<not> unavailable (fst (Save (backend_store ?b) sample (blank ())))"
    by (auto simp: defs Marshal_Entry_def)
  have "Chain_Load no_dbus ''https://issuer'' ''cli'' (blank ()) =
      Load (backend_store ?b) ''https://issuer'' ''cli'' (blank ())"
    using chain_no_retry [OF b l s] by simp
  then show ?thesis by (simp add: defs)
qed

text \<open>
  C36: logging out clears both places: a \<^verbatim>\<open>Delete\<close> of the default store that succeeded has
  removed the profile from the file cache, and from the keychain unless the keychain was
  unavailable; it succeeds or fails, but always asks both.
\<close>

theorem auto_logout_clears:
  fixes kr :: "'x keyring"
  assumes "honest os" "keyring_laws kr" "returns kr"
    "Chain_Delete (auto_chain kr os dir :: ('x, 'r) chain) i c w = (None, w')"
    "Cache_Load os dir i c w' = (Inr r, w1)" "Keychain_Load kr i c w' = (Inr r', w2)"
  shows "r = None \<and> (unavailable (fst (Keychain_Delete kr i c w)) \<or> r' = None)"
  using auto_delete [OF assms(1-4)] Cache_Load_view [OF assms(1,5)] Keychain_Load_view [OF assms(2,6)]
  by (cases "unavailable (fst (Keychain_Delete kr i c w))") simp_all

theorem auto_logout_clears_witness:
  "\<exists>w' w1 w2. Chain_Delete (auto_chain memory_keyring fair_os ''/cache'' :: (items, unit) chain)
       ''https://issuer'' ''cli'' (snd (Keychain_Save memory_keyring sample (blank Map.empty))) = (None, w') \<and>
     Cache_Load fair_os ''/cache'' ''https://issuer'' ''cli'' w' = (Inr None, w1) \<and>
     Keychain_Load memory_keyring ''https://issuer'' ''cli'' w' = (Inr None, w2)"
proof -
  let ?ch = "auto_chain memory_keyring fair_os ''/cache'' :: (items, unit) chain"
  let ?w = "snd (Keychain_Save memory_keyring sample (blank Map.empty))"
  have u: "\<not> unavailable (fst (Keychain_Delete memory_keyring i c w))" for i c w
    using memory_up unfolding keychain_up_def by blast
  have k: "fst (Keychain_Delete memory_keyring i c w) = None" for i c w
    by (auto simp: Keychain_Delete_def runKeyringOp_def memory_keyring_def split: option.splits)
  obtain w' where d: "Chain_Delete ?ch ''https://issuer'' ''cli'' ?w = (None, w')"
  proof -
    obtain w1 where "Keychain_Delete memory_keyring ''https://issuer'' ''cli'' ?w = (None, w1)"
      using k by (metis prod.collapse)
    moreover obtain w2 where "Cache_Delete fair_os ''/cache'' ''https://issuer'' ''cli'' w1 = (None, w2)"
      using fair_delete by (metis prod.collapse)
    ultimately have "Chain_Delete ?ch ''https://issuer'' ''cli'' ?w = (None, w2)"
      by (simp add: auto_ops)
    then show thesis by (rule that)
  qed
  obtain r w1 where l: "Cache_Load fair_os ''/cache'' ''https://issuer'' ''cli'' w' = (Inr r, w1)"
    using fair_load by blast
  obtain r' w2 where l': "Keychain_Load memory_keyring ''https://issuer'' ''cli'' w' = (Inr r', w2)"
    by (cases "outside w' (keychainService ''https://issuer'' ''cli'', keychainUser)")
       (auto simp: Keychain_Load_def runKeyringOp_def memory_keyring_def)
  from auto_logout_clears [OF honest_fair(1) memory_laws memory_returns d l l'] u d l l'
  show ?thesis by blast
qed

end
