(* ===== verification/OutputProps.thy ===== *)
theory OutputProps
  imports Output World
begin

text \<open>
  The properties of the three output formats, over a writer that appends to standard output.
\<close>

definition stdout_writer :: "'x world writer" where
  "stdout_writer s w = (None, w\<lparr>std_out := std_out w @ s\<rparr>)"

definition broken_pipe :: "'x world writer" where
  "broken_pipe s w = (Some (OsError EIO), w)"

definition full_result :: result where
  "full_result = zero_result\<lparr>r_AccessToken := ''at'', r_RefreshToken := ''rt'',
     r_Expiry := Time (86400 * second) 60, r_Extra := [(''scope'', JStr ''openid'')]\<rparr>"

lemma full_printable: "printable full_result"
  by (simp add: printable_def full_result_def zero_result_def ascii_utf8_valid)

text \<open>
  The bare output is the selected token and nothing else, in one write; when there is no such
  token, nothing is written and the error is the function's own.
\<close>

theorem write_bare:
  "WriteBare out r tt w =
     (if tt = ''id_token'' \<and> r_IDToken r \<noteq> [] then out (r_IDToken r) w
      else if tt = ''access_token'' \<and> r_AccessToken r \<noteq> [] then out (r_AccessToken r) w
      else (Some (no_token tt), w))"
  by (simp add: WriteBare_def Select_def token_types)

text \<open>
  C32: the document of \<^verbatim>\<open>--output=all\<close>: it is one JSON object, and a reader finds in it, under
  each key, the extension field of that name if the server sent one, otherwise the non-empty token or
  the expiry of that name, and nothing else.
\<close>

theorem write_all_readable:
  assumes "printable r" "WriteAll stdout_writer r w = (e, w')"
  shows "\<exists>s ms. std_out w' = std_out w @ s \<and> json_parse s = Some (JObj ms) \<and>
    (\<forall>k. map_of ms k = (case map_of (r_Extra r) k of Some v \<Rightarrow> Some (canonical v) | None \<Rightarrow>
       (if k = ''issued_token_type'' \<and> r_IssuedTokenType r \<noteq> [] then Some (JStr (r_IssuedTokenType r))
        else if k = ''expiry'' \<and> \<not> IsZero (r_Expiry r) then Some (JStr (Format_RFC3339 (UTC (r_Expiry r))))
        else if k = ''refresh_token'' \<and> r_RefreshToken r \<noteq> [] then Some (JStr (r_RefreshToken r))
        else if k = ''id_token'' \<and> r_IDToken r \<noteq> [] then Some (JStr (r_IDToken r))
        else if k = ''access_token'' \<and> r_AccessToken r \<noteq> [] then Some (JStr (r_AccessToken r))
        else None)))"
proof -
  obtain ms where ms: "json_parse (json_text (canonical (JObj (all_doc r)))) = Some (JObj ms)"
    "\<forall>k. map_of ms k = map_option canonical (map_of (all_doc r) k)"
    using written_map [OF all_doc_wf [OF assms(1)]] by blast
  have d: "distinct (map fst (r_Extra r))" using assms(1) by (simp add: printable_def)
  have w: "std_out w' = std_out w @ json_text (canonical (JObj (all_doc r)))"
    using assms(2) by (auto simp: WriteAll_def stdout_writer_def)
  show ?thesis
    by (intro exI conjI, rule w, rule ms(1)) (simp add: ms(2) all_doc_map [OF d] split: option.split)
qed

theorem write_all_readable_witness:
  "\<exists>s ms. std_out (snd (WriteAll stdout_writer full_result (blank ()))) = s \<and>
     json_parse s = Some (JObj ms) \<and> map_of ms ''access_token'' = Some (JStr ''at'') \<and>
     map_of ms ''scope'' = Some (JStr ''openid'') \<and> map_of ms ''id_token'' = None"
  using write_all_readable [OF full_printable prod.collapse [symmetric], of "blank ()"]
  by (force simp: blank_def full_result_def zero_result_def)

text \<open>
  C33: the document of \<^verbatim>\<open>--output=exec-credential\<close>: written only when the selected token is
  there; a reader finds the kind, the requested apiVersion (or the default) and in the status
  the token and, when the expiry is known, its time in UTC.
\<close>

theorem write_exec_credential_readable:
  assumes "utf8_valid token" "utf8_valid apiVersion" "Select r tt = (token, True)"
    "WriteExecCredential stdout_writer r tt apiVersion w = (e, w')"
  shows "\<exists>s ms st. std_out w' = std_out w @ s \<and> json_parse s = Some (JObj ms) \<and>
    map_of ms ''kind'' = Some (JStr ''ExecCredential'') \<and>
    map_of ms ''apiVersion'' = Some (JStr (if apiVersion = [] then DefaultExecCredentialAPIVersion else apiVersion)) \<and>
    map_of ms ''status'' = Some (JObj st) \<and> map_of st ''token'' = Some (JStr token) \<and>
    map_of st ''expirationTimestamp'' =
      (if IsZero (r_Expiry r) then None else Some (JStr (Format_RFC3339 (UTC (r_Expiry r)))))"
proof -
  let ?v = "if apiVersion = [] then DefaultExecCredentialAPIVersion else apiVersion"
  let ?st = "set_key (\<not> IsZero (r_Expiry r)) ''expirationTimestamp''
            (JStr (Format_RFC3339 (UTC (r_Expiry r)))) [(''token'', JStr token)]"
  let ?m = "[(''apiVersion'', JStr ?v), (''kind'', JStr ''ExecCredential''), (''status'', JObj ?st)]"
  have st: "list_all (\<lambda>(k, v). utf8_valid k \<and> wf_json v) ?st" "distinct (map fst ?st)"
    using assms(1) by (auto intro!: set_key_all set_key_distinct)
  have v: "utf8_valid ?v" using assms(2) by (simp add: DefaultExecCredentialAPIVersion_def ascii_utf8_valid)
  have m: "list_all (\<lambda>(k, v). utf8_valid k \<and> wf_json v) ?m" "distinct (map fst ?m)"
    using st v by simp_all
  obtain ms where ms: "json_parse (json_text (canonical (JObj ?m))) = Some (JObj ms)"
    "\<forall>k. map_of ms k = map_option canonical (map_of ?m k)"
    using written_map [OF m] by blast
  have w: "std_out w' = std_out w @ json_text (canonical (JObj ?m))"
    using assms(3,4) by (auto simp: WriteExecCredential_def stdout_writer_def exec_doc_def Let_def)
  have d: "distinct (map fst (map (\<lambda>(k, v). (k, canonical v)) ?st))"
    unfolding fst_map_canonical by (rule st(2))
  let ?cs = "sort_keys (map (\<lambda>(k, v). (k, canonical v)) ?st)"
  have "map_of ?cs k = map_option canonical (map_of ?st k)" for k
    unfolding map_of_sort_keys [OF d] by (rule map_of_canonical)
  then have "map_of ?cs ''token'' = Some (JStr token)" "map_of ?cs ''expirationTimestamp'' =
      (if IsZero (r_Expiry r) then None else Some (JStr (Format_RFC3339 (UTC (r_Expiry r)))))"
    by (simp_all add: set_key_map)
  note cs = this
  have k: "map_of ms ''kind'' = Some (JStr ''ExecCredential'')" "map_of ms ''apiVersion'' = Some (JStr ?v)"
    "map_of ms ''status'' = Some (JObj ?cs)"
    by (simp_all add: ms(2))
  show ?thesis
    by (intro exI conjI, rule w, rule ms(1), rule k(1), rule k(2), rule k(3), rule cs(1), rule cs(2))
qed

theorem write_exec_credential_readable_witness:
  "\<exists>s ms st. std_out (snd (WriteExecCredential stdout_writer full_result ''access_token'' [] (blank ()))) = s \<and>
     json_parse s = Some (JObj ms) \<and> map_of ms ''status'' = Some (JObj st) \<and>
     map_of st ''token'' = Some (JStr ''at'')"
proof -
  have "Select full_result ''access_token'' = (''at'', True)"
    by (simp add: Select_def token_types full_result_def)
  from write_exec_credential_readable [OF _ _ this prod.collapse [symmetric], of "[]" "blank ()"]
  show ?thesis by (force simp: blank_def ascii_utf8_valid)
qed

text \<open>
  The apiVersion of the exec credential is the one of \<^verbatim>\<open>$KUBERNETES_EXEC_INFO\<close> exactly when
  that is a JSON object with a non-empty string \<^verbatim>\<open>apiVersion\<close>; it is never empty.
\<close>

theorem exec_api_version:
  assumes "wf_json (JObj ((''apiVersion'', JStr v) # ms))" "list_all (\<lambda>(k, x). struct_field [''apiVersion''] k = None) ms"
  shows "ExecCredentialAPIVersion (Some (\<lambda>_. json_text (JObj ((''apiVersion'', JStr v) # ms)))) =
     (if v = [] then DefaultExecCredentialAPIVersion else v) \<and> ExecCredentialAPIVersion g \<noteq> []"
proof
  have "api_version_of ms v = Some v" using assms(2) by (induction ms) auto
  then show "ExecCredentialAPIVersion (Some (\<lambda>_. json_text (JObj ((''apiVersion'', JStr v) # ms)))) =
     (if v = [] then DefaultExecCredentialAPIVersion else v)"
    using json_roundtrip [OF assms(1)]
    by (simp add: ExecCredentialAPIVersion_def Unmarshal_execCredentialEnv_def Let_def)
  show "ExecCredentialAPIVersion g \<noteq> []"
    by (auto simp: ExecCredentialAPIVersion_def DefaultExecCredentialAPIVersion_def Let_def split: option.splits)
qed

theorem exec_api_version_witness:
  "ExecCredentialAPIVersion (Some (\<lambda>_. json_text (JObj [(''apiVersion'', JStr ''v1beta1''), (''kind'', JNull)]))) = ''v1beta1''"
  by (subst exec_api_version [THEN conjunct1])
     (simp_all add: ascii_utf8_valid struct_field_def upper_def)

end
