(* ===== verification/Spec2Isabelle.thy ===== *)
theory Spec2Isabelle
  imports Rotation SaveSteps Processes SourceProps MockProps RunnerProps ChainProps OutputProps ConfigProps FlowProps OidcProps MainProps
begin

text \<open>
  A verification library of oidc-token-cli, a command that prints an OIDC token for a client, from its
  cache when it can, by a silent refresh or a login when it must.

  \<^bold>\<open>The program and its parts.\<close> \<^verbatim>\<open>cmd/oidc-token/main.go\<close> parses the command line
  (\<^verbatim>\<open>internal/config\<close>, over \<^verbatim>\<open>internal/flagbinding\<close> and the grants of
  \<^verbatim>\<open>internal/grant\<close>), builds a store (\<^verbatim>\<open>internal/cache\<close>), gives it and a token source
  to the runner (\<^verbatim>\<open>internal/runner\<close>) and prints the result (\<^verbatim>\<open>internal/output\<close>). The
  token source (\<^verbatim>\<open>internal/authflow\<close>) discovers the issuer, plans the grants and calls
  \<^verbatim>\<open>internal/oidc\<close>, which speaks to the issuer. A token exchange goes from main to authflow
  directly, with a subject token from the configuration or from \<^verbatim>\<open>internal/subjecttoken\<close>.

  \<^bold>\<open>State.\<close> Go's effects are explicit: an operation takes the world and returns it. The record
  \<open>world\<close> (World) holds the files with content and permissions, the directories, the lock files held,
  the two output streams, a clock of system calls, a ghost history of all file systems so far, and in
  \<open>outside\<close> everything else (keychain daemon, network, the discovered provider). Each system call can
  fail at each point of time as the record \<open>os\<close> says, so an error path of the code is a branch of the
  model. An error (Prelude) is a value of the type \<open>error\<close>, with the wrapping of \<^verbatim>\<open>fmt.Errorf\<close> and
  the tests \<^verbatim>\<open>errors.Is\<close> and \<^verbatim>\<open>errors.As\<close>; a function with an error result returns
  \<open>error option\<close> or \<open>error + 'a\<close>. A line on standard error is a list of literal pieces, strings and errors.

  \<^bold>\<open>Theories and the code they model.\<close>
  \<^item> Prelude, World: errors, lines, numbers as text; paths (\<^verbatim>\<open>path/filepath\<close>), the system calls.
  \<^item> Json, JsonRoundtrip, GoTime, TimeRoundtrip, Hash, Float64, Url, UrlParse: the parts of Go's
    standard library the program's behaviour rests on: \<^verbatim>\<open>encoding/json\<close>, RFC 3339 times, SHA-256
    and hexadecimal, the number formatting of \<^verbatim>\<open>fmt.Sprint\<close>, \<^verbatim>\<open>net/url\<close>; with their round trips.
  \<^item> Store, CacheFile, CacheSafety, CacheProps: \<^verbatim>\<open>cache/store.go\<close>, \<^verbatim>\<open>cache/cache.go\<close>.
    \<open>entry\<close>, \<open>Cache_Load\<close>, \<open>Cache_Save\<close>, \<open>Cache_Delete\<close>, \<open>Cache_WithLock\<close>. The interface
    \<^verbatim>\<open>Store\<close> is the record \<open>store\<close> and its contract the locales \<open>base_store\<close>,
    \<open>persistent_store\<close> and \<open>locked_store\<close>.
  \<^item> Keychain, Chain, ChainProps: \<^verbatim>\<open>cache/keychain.go\<close>, \<^verbatim>\<open>noop.go\<close>, \<^verbatim>\<open>chain.go\<close>.
  \<^item> Output, OutputProps: \<^verbatim>\<open>output/output.go\<close>, the three documents as bytes.
  \<^item> Runner, RunnerStore, RunnerProps: \<^verbatim>\<open>runner/runner.go\<close>. \<open>Run\<close>, \<open>tryRefresh\<close>, \<open>login\<close>
    over any store, source and clock; RunnerStore proves them over the contract of a store.
  \<^item> SaveSteps, Processes: several processes at once. \<open>save_step\<close> is \<^verbatim>\<open>Save\<close> one system call at a
    time and \<open>run_step\<close> is \<^verbatim>\<open>Run\<close> in the steps between which another process can get in; both
    are shown to be the function they cut up. \<open>shared_step\<close> and \<open>sched_step\<close> interleave them, the
    latter with logouts and with processes that are killed.
  \<^item> FlagSet, FlagBinding, Grants, SubjectToken, Usage, Config, ConfigProps: package \<^verbatim>\<open>flag\<close>,
    \<^verbatim>\<open>flagbinding/binding.go\<close>, the three grants, the GitHub source, \<^verbatim>\<open>usage.go\<close> and
    \<^verbatim>\<open>config.go\<close>. A Go pointer into the configuration is a function that updates the record \<open>targets\<close>.
  \<^item> AuthFlow, FlowProps: \<^verbatim>\<open>authflow/select.go\<close>, \<^verbatim>\<open>environment.go\<close>, \<^verbatim>\<open>browser.go\<close>. The
    interface \<^verbatim>\<open>grantSource\<close> is the record \<open>grant_source\<close> over an abstract provider.
  \<^item> Provider, TokenEndpoint, Callback, LoginFlows, OidcProps: \<^verbatim>\<open>internal/oidc\<close>; the libraries
    x/oauth2, go-oidc, go-jose and the network are the record \<open>net\<close>. The callback server is the
    step relation \<open>callback_step\<close>: handlers, the receipt of a result and the end of the context in
    any order. \<open>provider_ops\<close> is the provider as a \<open>grant_source\<close>.
  \<^item> Main_Program, MainProps: \<^verbatim>\<open>main.go\<close> and \<^verbatim>\<open>source.go\<close>; \<open>run\<close> returns the exit status.
  \<^item> SourceProps: the token source the program is built with. The locale \<open>grant_contract\<close> says what
    authflow needs of a provider, its interpretation on \<open>provider_ops\<close> that \<^verbatim>\<open>internal/oidc\<close> keeps it.
  \<^item> MockIssuer, MockProps: \<^verbatim>\<open>internal/oidctest/mockissuer.go\<close>, the repository's own issuer, as an HTTP
    client (\<open>mock_http\<close>) that \<^verbatim>\<open>internal/oidc\<close> can be run against, with the forms, the basic
    authentication and the base64 of the standard library that it reads requests with.
  \<^item> Rotation: all of it at once, processes with the program's own token source (\<open>process_source\<close>, one
    slot for the discovered provider each) against that issuer behind a network that loses messages.

  \<^bold>\<open>What the lemmas show.\<close> Cache: a saved entry is loaded again; at every point of time of a save,
  failures included, each token file is complete, and never readable by others; a closure runs under
  its lock or not at all; profiles do not interfere. Chain: which backend answers, when it falls back,
  what a logout clears. Runner: a run is a cache hit, a refresh or a login; what it returns is in the
  store; the loser of a refresh race gets the winner's tokens; refresh tokens are not lost. Processes:
  in every interleaving token files are whole, one run at a time is under the lock, and a rotating
  refresh token that was redeemed is not presented again, with the exceptions named by \<open>Astray\<close> (one
  whose refresh failed, \<open>Failed\<close>, may be, as the answer may have been lost); with
  \<^verbatim>\<open>id_token\<close> nothing unverified is handed out. Output: the documents parse back to what was put
  in. Configuration: every table field, the grants' included, has the value of its highest layer,
  but for the files and the computed defaults that stand above and below them; what is returned is well-formed.
  Flow: the login is the eligible
  grants, each executing itself, at most one attempt each. Oidc: the callback returns the
  code of the first genuine request in every interleaving, and can; a code login is bound to its
  state, verifier and nonce; what is posted to the token endpoint, and how errors and lifetimes come
  back. Command: what is on standard output for each exit status, and that the real source only hands
  out id_tokens its provider has verified. Mock issuer: what the client encodes, the issuer decodes; it
  accepts every method of authentication of the client and refuses another secret; it rotates refresh
  tokens, so that what is said of processes holds of those of the program, for a client with
  \<^verbatim>\<open>private_key_jwt\<close>.

  \<^bold>\<open>Bounds and termination.\<close> All functions are total. The JSON parser, the UTF-8 check, the SHA-256
  blocks and the like recurse on a rest of the text, with its length as their measure; the other
  recursions are structural. Machine integers are \<open>int\<close> with the
  wrap-around written out where the code can reach it (\<open>wrap64\<close>, \<open>sat64\<close>); nanoseconds since year 1
  are unbounded integers. The wait for a callback is not a loop of the model: the requests handled
  while it waits are an argument, and the step relation says which outcomes they allow.

  \<^bold>\<open>Parameters.\<close> Code outside the repository is an argument of the definitions: flock, the keyring (with
  the laws \<open>keyring_laws\<close>), PEM and X.509 parsing, signing, the HTTP client, x/oauth2 and
  go-oidc. Theorems name what they assume of them, and each has a witness on concrete functions.

  \<^bold>\<open>Not modelled.\<close> \<^verbatim>\<open>internal/oidc/httpclient.go\<close> (a timeout put into a context; a timeout is an
  error of the HTTP client), \<^verbatim>\<open>e2e\<close> (containers and a scripted browser for tests), \<^verbatim>\<open>main\<close>'s call of
  \<^verbatim>\<open>os.Exit\<close>, the in-process mutexes, which only one goroutine takes (a keychain's lock runs its closure), and the texts of error values
  (\<^verbatim>\<open>Error()\<close>), which nothing but the log depends on.
\<close>

end
